(* ===== verification/Prelude.thy ===== *)
theory Prelude
  imports Main "HOL-Library.Word"
begin

unbundle bit_operations_syntax

text \<open>
  Shared vocabulary of the development: the byte type of the wire, the
  collections the component theories add their rewrite rules to, and the
  generic facts on lists, words and options that more than one component needs.
\<close>

section \<open>Types\<close>

type_synonym byte = "8 word"
type_synonym u16 = "16 word"
type_synonym u32 = "32 word"
type_synonym u64 = "64 word"

section \<open>Rule collections\<close>

named_theorems inv_intros \<open>operations that keep a component's invariant\<close>

section \<open>Lists\<close>

lemma take_append_length [simp]: "length xs = n \<Longrightarrow> take n (xs @ ys) = xs"
  by simp

lemma drop_append_length [simp]: "length xs = n \<Longrightarrow> drop n (xs @ ys) = ys"
  by simp

lemma map_upt_nth [simp]: "map (\<lambda>i. xs ! i) [0..<length xs] = xs"
  by (rule map_nth)

lemma filter_all_id: "(\<And>x. x \<in> set xs \<Longrightarrow> P x) \<Longrightarrow> filter P xs = xs"
  by (simp add: filter_id_conv)

lemma filter_none_nil: "(\<And>x. x \<in> set xs \<Longrightarrow> \<not> P x) \<Longrightarrow> filter P xs = []"
  by (simp add: filter_empty_conv)

lemma distinct_map_fst_unique:
  "distinct (map fst xs) \<Longrightarrow> (k, v) \<in> set xs \<Longrightarrow> (k, w) \<in> set xs \<Longrightarrow> v = w"
  by (metis map_of_is_SomeI option.inject)

lemma distinct_map_snd_unique:
  assumes "distinct (map snd xs)" "(k, v) \<in> set xs" "(j, v) \<in> set xs"
  shows "k = j"
proof -
  have "inj_on snd (set xs)" using assms(1) by (simp add: distinct_map)
  from inj_onD [OF this _ assms(2,3)] show ?thesis by simp
qed

section \<open>Words\<close>


lemma and_0xff [simp]: "x AND 0xff = take_bit 8 (x :: 'a::len word)"
  by (simp add: take_bit_eq_mask mask_eq_exp_minus_1)

lemma and_0x7f [simp]: "x AND 0x7f = take_bit 7 (x :: 'a::len word)"
  by (simp add: take_bit_eq_mask mask_eq_exp_minus_1)

lemma and_0xf [simp]: "x AND 0xf = take_bit 4 (x :: 'a::len word)"
  by (simp add: take_bit_eq_mask mask_eq_exp_minus_1)

lemma xor_cancel_word [simp]: "(a XOR b) XOR b = (a :: 'a::len word)"
  by (rule bit_word_eqI) (auto simp: bit_simps)

section \<open>Bytes and characters\<close>

text \<open>A \<^verbatim>\<open>char\<close> of the sources is a byte of the wire; text is a \<open>string\<close>.\<close>

definition byte_of :: "char \<Rightarrow> byte" where
  "byte_of c = of_nat (of_char c)"

definition char_of_byte :: "byte \<Rightarrow> char" where
  "char_of_byte b = char_of (unat b)"

abbreviation bytes_of :: "string \<Rightarrow> byte list" where
  "bytes_of s \<equiv> map byte_of s"

abbreviation text_of :: "byte list \<Rightarrow> string" where
  "text_of bs \<equiv> map char_of_byte bs"

lemma unat_byte_of [simp]: "unat (byte_of c) = of_char c"
  by (simp add: byte_of_def unsigned_of_nat take_bit_eq_mod)

lemma char_of_byte_of [simp]: "char_of_byte (byte_of c) = c"
  by (simp add: char_of_byte_def)

lemma byte_of_char_of_byte [simp]: "byte_of (char_of_byte b) = b"
proof -
  have "(of_char (char_of (unat b)) :: nat) = unat b"
    using unsigned_less [of b, where 'a = nat] by (simp add: of_char_of)
  then show ?thesis by (simp add: word_unat_eq_iff char_of_byte_def)
qed

lemma text_of_bytes_of [simp]: "text_of (bytes_of s) = s"
  by (simp add: map_idI)

lemma bytes_of_text_of [simp]: "bytes_of (text_of bs) = bs"
  by (simp add: map_idI)

lemma inj_byte_of: "inj byte_of"
  by (rule inj_on_inverseI [where g = char_of_byte]) simp

section \<open>C strings and arrays\<close>

text \<open>The text a null-terminated buffer holds.\<close>

definition c_str :: "byte list \<Rightarrow> byte list" where
  "c_str bs = takeWhile (\<lambda>b. b \<noteq> 0) bs"

definition overwrite :: "nat \<Rightarrow> 'a list \<Rightarrow> 'a list \<Rightarrow> 'a list" where
  "overwrite i xs buf = take i buf @ xs @ drop (i + length xs) buf"

text \<open>\<^verbatim>\<open>std::string::resize\<close> with a zero fill.\<close>

definition str_resize :: "nat \<Rightarrow> 'a::zero list \<Rightarrow> 'a list" where
  "str_resize n s = take n s @ replicate (n - length s) 0"

lemma length_str_resize [simp]: "length (str_resize n s) = n"
  by (simp add: str_resize_def)

lemma c_str_terminated: "0 \<notin> set bs \<Longrightarrow> c_str (bs @ 0 # rest) = bs"
  unfolding c_str_def by (subst takeWhile_append2) auto

lemma length_overwrite [simp]:
  "i + length xs \<le> length buf \<Longrightarrow> length (overwrite i xs buf) = length buf"
  by (simp add: overwrite_def)

lemma overwrite_middle:
  "length pre = i \<Longrightarrow> length mid = length xs \<Longrightarrow> overwrite i xs (pre @ mid @ post) = pre @ xs @ post"
  by (simp add: overwrite_def)

end
