(* ===== verification/Ws_Frame.thy ===== *)
theory Ws_Frame
  imports Prelude
begin

text \<open>
  The WebSocket frame layer: the frame struct of \<^verbatim>\<open>websocket/web_socket_frame.h\<close>,
  the two frame builders of \<^verbatim>\<open>websocket/frame_builder.{h,cpp}\<close> and the big-endian
  conversion of \<^verbatim>\<open>websocket/network.cpp\<close>. A \<^verbatim>\<open>std::string\<close> of raw data is a list of
  bytes; its size is at most \<open>2 ^ 64 - 1\<close>, which the lemmas that need it say.
\<close>

section \<open>The frame struct\<close>

datatype FrameType = CONTINUATION | TEXT | BINARY | CLOSE | PING | PONG

fun EnumToNumber :: "FrameType \<Rightarrow> byte" where
  "EnumToNumber CONTINUATION = 0x0"
| "EnumToNumber TEXT = 0x1"
| "EnumToNumber BINARY = 0x2"
| "EnumToNumber CLOSE = 0x8"
| "EnumToNumber PING = 0x9"
| "EnumToNumber PONG = 0xa"

definition IsControlFrame :: "byte \<Rightarrow> bool" where
  "IsControlFrame opc \<longleftrightarrow> opc \<ge> EnumToNumber CLOSE"

abbreviation (input) MASK_LEN :: nat where "MASK_LEN \<equiv> 4"
abbreviation (input) HEADER_LEN :: nat where "HEADER_LEN \<equiv> 2"
abbreviation (input) ONE_BYTE_LENTH_ENC_LIMIT :: nat where "ONE_BYTE_LENTH_ENC_LIMIT \<equiv> 125"
abbreviation (input) TWO_BYTES_LENTH_ENC :: nat where "TWO_BYTES_LENTH_ENC \<equiv> 126"
abbreviation (input) TWO_BYTES_LENTH :: nat where "TWO_BYTES_LENTH \<equiv> 2"
abbreviation (input) TWO_BYTES_LENGTH_LIMIT :: nat where "TWO_BYTES_LENGTH_LIMIT \<equiv> 65536"
abbreviation (input) EIGHT_BYTES_LENTH_ENC :: nat where "EIGHT_BYTES_LENTH_ENC \<equiv> 127"
abbreviation (input) EIGHT_BYTES_LENTH :: nat where "EIGHT_BYTES_LENTH \<equiv> 8"

record WebSocketFrame =
  payloadLen :: u64
  fin :: byte
  opcode :: byte
  mask :: byte
  maskingKey :: "byte list"
  payload :: "byte list"

text \<open>The constructor from the two raw header bytes.\<close>

definition frame_of_header :: "byte \<Rightarrow> byte \<Rightarrow> WebSocketFrame" where
  "frame_of_header h0 h1 =
     \<lparr>payloadLen = ucast h1 AND 0x7f,
      fin = drop_bit 7 h0 AND 0x1,
      opcode = h0 AND 0xf,
      mask = drop_bit 7 h1 AND 0x1,
      maskingKey = replicate MASK_LEN 0,
      payload = []\<rparr>"

section \<open>Numbers on the wire\<close>

text \<open>
  \<open>PushNumberPerByte\<close> appends the bytes of an unsigned number, most significant
  first; the loop counts the bytes that are left, so the shift is eight times it.
\<close>

fun push_bytes :: "byte list \<Rightarrow> 'a::len word \<Rightarrow> nat \<Rightarrow> byte list" where
  "push_bytes message number 0 = message"
| "push_bytes message number (Suc k) =
     push_bytes (message @ [ucast (drop_bit (8 * k) number AND 0xff)]) number k"

definition PushNumberPerByte :: "byte list \<Rightarrow> 'a::len word \<Rightarrow> byte list" where
  "PushNumberPerByte message number = push_bytes message number (LENGTH('a) div 8)"

fun net_loop :: "byte list \<Rightarrow> u64 \<Rightarrow> u64" where
  "net_loop [] result = result"
| "net_loop [b] result = (result OR ucast b)"
| "net_loop (b # b' # bs) result = net_loop (b' # bs) (push_bit 8 (result OR ucast b))"

text \<open>A null buffer gives 0; otherwise \<open>len\<close> bytes are read.\<close>

definition NetToHostLongLong :: "byte list option \<Rightarrow> nat \<Rightarrow> u64" where
  "NetToHostLongLong buf len =
     (case buf of None \<Rightarrow> 0 | Some bs \<Rightarrow> net_loop (take len bs) 0)"

section \<open>The frame builders\<close>

record ServerFrameBuilder =
  sfb_fin :: bool
  sfb_opcode :: FrameType
  sfb_payload :: "byte list"

record ClientFrameBuilder = ServerFrameBuilder +
  cfb_maskingKey :: "byte list"

definition ServerFrameBuilder_new :: "bool \<Rightarrow> FrameType \<Rightarrow> ServerFrameBuilder" where
  "ServerFrameBuilder_new final opc = \<lparr>sfb_fin = final, sfb_opcode = opc, sfb_payload = []\<rparr>"

definition SetFinal :: "bool \<Rightarrow> 'a ServerFrameBuilder_scheme \<Rightarrow> 'a ServerFrameBuilder_scheme" where
  "SetFinal f b = b\<lparr>sfb_fin := f\<rparr>"

definition SetOpcode :: "FrameType \<Rightarrow> 'a ServerFrameBuilder_scheme \<Rightarrow> 'a ServerFrameBuilder_scheme" where
  "SetOpcode opc b = b\<lparr>sfb_opcode := opc\<rparr>"

definition SetPayload :: "byte list \<Rightarrow> 'a ServerFrameBuilder_scheme \<Rightarrow> 'a ServerFrameBuilder_scheme" where
  "SetPayload p b = b\<lparr>sfb_payload := p\<rparr>"

definition AppendPayload :: "byte list \<Rightarrow> 'a ServerFrameBuilder_scheme \<Rightarrow> 'a ServerFrameBuilder_scheme" where
  "AppendPayload p b = b\<lparr>sfb_payload := sfb_payload b @ p\<rparr>"

definition PushHeader :: "'a ServerFrameBuilder_scheme \<Rightarrow> byte list \<Rightarrow> byte \<Rightarrow> byte list" where
  "PushHeader b message payloadLenField =
     message @ [if sfb_fin b then EnumToNumber (sfb_opcode b) OR 0x80 else EnumToNumber (sfb_opcode b)]
             @ [payloadLenField AND 0x7f]"

definition PushPayloadLength :: "'a ServerFrameBuilder_scheme \<Rightarrow> byte list \<Rightarrow> byte \<Rightarrow> byte list" where
  "PushPayloadLength b message payloadLenField =
     (let payloadLen = (of_nat (length (sfb_payload b)) :: u64)
      in if payloadLenField = of_nat TWO_BYTES_LENTH_ENC
         then PushNumberPerByte message (ucast payloadLen :: u16)
         else if payloadLenField = of_nat EIGHT_BYTES_LENTH_ENC
         then PushNumberPerByte message payloadLen
         else message)"

definition payload_len_field :: "nat \<Rightarrow> byte" where
  "payload_len_field payloadBytes =
     (if payloadBytes \<le> ONE_BYTE_LENTH_ENC_LIMIT then of_nat payloadBytes
      else if payloadBytes < TWO_BYTES_LENGTH_LIMIT then of_nat TWO_BYTES_LENTH_ENC
      else of_nat EIGHT_BYTES_LENTH_ENC)"

text \<open>The reservation of memory has no effect on the message and is left out.\<close>

definition PushFullHeader :: "'a ServerFrameBuilder_scheme \<Rightarrow> byte list \<Rightarrow> byte list" where
  "PushFullHeader b message =
     (let payloadLenField = payload_len_field (length (sfb_payload b))
      in PushPayloadLength b (PushHeader b message payloadLenField) payloadLenField)"

definition PushPayload :: "'a ServerFrameBuilder_scheme \<Rightarrow> byte list \<Rightarrow> byte list" where
  "PushPayload b message = message @ sfb_payload b"

definition Build :: "ServerFrameBuilder \<Rightarrow> byte list" where
  "Build b = PushPayload b (PushFullHeader b [])"

subsection \<open>The client's overrides\<close>

definition SetMask :: "byte list \<Rightarrow> ClientFrameBuilder \<Rightarrow> ClientFrameBuilder" where
  "SetMask key b = b\<lparr>cfb_maskingKey := map (\<lambda>i. key ! i) [0..<MASK_LEN]\<rparr>"

definition ClientFrameBuilder_new :: "bool \<Rightarrow> FrameType \<Rightarrow> byte list \<Rightarrow> ClientFrameBuilder" where
  "ClientFrameBuilder_new final opc key =
     SetMask key \<lparr>sfb_fin = final, sfb_opcode = opc, sfb_payload = [], cfb_maskingKey = replicate MASK_LEN 0\<rparr>"

definition PushMask :: "ClientFrameBuilder \<Rightarrow> byte list \<Rightarrow> byte list" where
  "PushMask b message = message @ map (\<lambda>i. cfb_maskingKey b ! i) [0..<MASK_LEN]"

definition PushFullHeader_Client :: "ClientFrameBuilder \<Rightarrow> byte list \<Rightarrow> byte list" where
  "PushFullHeader_Client b message =
     (let m = PushFullHeader b message in PushMask b (m[1 := (m ! 1) OR 0x80]))"

text \<open>The masking loop, shared by the client's builder and the server's decoder.\<close>

fun xor_loop :: "byte list \<Rightarrow> nat \<Rightarrow> byte list \<Rightarrow> byte list" where
  "xor_loop key i [] = []"
| "xor_loop key i (c # cs) = (c XOR key ! (i mod MASK_LEN)) # xor_loop key (Suc i) cs"

definition PushPayload_Client :: "ClientFrameBuilder \<Rightarrow> byte list \<Rightarrow> byte list" where
  "PushPayload_Client b message = message @ xor_loop (cfb_maskingKey b) 0 (sfb_payload b)"

definition Build_Client :: "ClientFrameBuilder \<Rightarrow> byte list" where
  "Build_Client b = PushPayload_Client b (PushFullHeader_Client b [])"

section \<open>Lemmas: numbers on the wire\<close>

lemma push_bytes_append: "push_bytes (xs @ ys) n k = xs @ push_bytes ys n k"
  by (induction k arbitrary: ys) auto

lemma push_bytes_acc: "push_bytes xs n k = xs @ push_bytes [] n k"
  using push_bytes_append [of xs "[]"] by simp

lemma length_push_bytes [simp]: "length (push_bytes xs n k) = length xs + k"
  by (induction k arbitrary: xs) auto

lemma length_PushNumberPerByte [simp]:
  "length (PushNumberPerByte m (n :: 'a::len word)) = length m + LENGTH('a) div 8"
  by (simp add: PushNumberPerByte_def)

lemma PushNumberPerByte_acc: "PushNumberPerByte m n = m @ PushNumberPerByte [] n"
  unfolding PushNumberPerByte_def by (rule push_bytes_acc)

lemma push_bytes_Suc_nil:
  "push_bytes [] n (Suc k) = ucast (drop_bit (8 * k) n AND 0xff) # push_bytes [] n k"
  by (simp add: push_bytes_acc [of "[_]"])

lemma net_loop_Cons: "bs \<noteq> [] \<Longrightarrow> net_loop (b # bs) r = net_loop bs (push_bit 8 (r OR ucast b))"
  by (cases bs) auto

text \<open>Reading back the \<open>k + 1\<close> low bytes of a number rebuilds those bits above \<open>r\<close>.\<close>

lemma net_loop_push_bytes:
  fixes w :: "'a::len word"
  assumes "8 * Suc k \<le> 64"
  shows "net_loop (push_bytes [] w (Suc k)) r =
    push_bit (8 * k) r OR take_bit (8 * Suc k) (ucast w)"
  using assms
proof (induction k arbitrary: r)
  case 0
  have "(ucast (ucast (take_bit 8 w) :: byte) :: u64) = take_bit 8 (ucast w)"
    by (rule bit_word_eqI) (auto simp: bit_simps dest: bit_imp_le_length)
  then show ?case by simp
next
  case (Suc k)
  let ?b = "ucast (drop_bit (8 * Suc k) w AND 0xff) :: byte"
  have "push_bytes [] w (Suc k) \<noteq> []"
    by (simp add: push_bytes_Suc_nil del: push_bytes.simps)
  then have "net_loop (push_bytes [] w (Suc (Suc k))) r =
    net_loop (push_bytes [] w (Suc k)) (push_bit 8 (r OR ucast ?b))"
    using net_loop_Cons [of _ ?b r] by (simp only: push_bytes_Suc_nil [of w "Suc k"])
  also have "\<dots> = push_bit (8 * k) (push_bit 8 (r OR ucast ?b)) OR take_bit (8 * Suc k) (ucast w)"
    using Suc.prems by (intro Suc.IH) simp
  also have "\<dots> = push_bit (8 * Suc k) r OR (push_bit (8 * Suc k) (ucast ?b) OR take_bit (8 * Suc k) (ucast w))"
    by (simp add: push_bit_or or.assoc add.commute [of 8])
  also have "push_bit (8 * Suc k) (ucast ?b) OR take_bit (8 * Suc k) (ucast w) =
    take_bit (8 * Suc (Suc k)) (ucast w :: u64)"
    using Suc.prems by (intro bit_word_eqI) (auto simp: bit_simps dest: bit_imp_le_length)
  finally show ?case .
qed

lemma NetToHost_PushNumber16:
  "NetToHostLongLong (Some (PushNumberPerByte [] (n :: u16))) 2 = ucast n"
proof -
  have "PushNumberPerByte [] n = push_bytes [] n (Suc 1)"
    by (simp add: PushNumberPerByte_def numeral_2_eq_2)
  then have "NetToHostLongLong (Some (PushNumberPerByte [] n)) 2 = take_bit 16 (ucast n)"
    using net_loop_push_bytes [of 1 n 0] by (simp add: NetToHostLongLong_def del: push_bytes.simps)
  also have "\<dots> = ucast n"
    by (rule bit_word_eqI) (auto simp: bit_simps dest: bit_imp_le_length)
  finally show ?thesis .
qed

lemma NetToHost_PushNumber64:
  "NetToHostLongLong (Some (PushNumberPerByte [] (n :: u64))) 8 = n"
proof -
  have "PushNumberPerByte [] n = push_bytes [] n (Suc 7)"
    by (simp only: PushNumberPerByte_def) simp
  then have "NetToHostLongLong (Some (PushNumberPerByte [] n)) 8 = take_bit 64 n"
    using net_loop_push_bytes [of 7 n 0] by (simp add: NetToHostLongLong_def del: push_bytes.simps)
  then show ?thesis by (simp add: take_bit_word_eq_self)
qed

section \<open>Lemmas: the shape of a built frame\<close>

text \<open>The extended length that follows the two header bytes of a frame with \<open>n\<close> bytes of payload.\<close>

definition ext_length :: "nat \<Rightarrow> byte list" where
  "ext_length n =
     (if n \<le> 125 then []
      else if n < 65536 then PushNumberPerByte [] (of_nat n :: u16)
      else PushNumberPerByte [] (of_nat n :: u64))"

definition first_byte :: "bool \<Rightarrow> FrameType \<Rightarrow> byte" where
  "first_byte f opc = (if f then EnumToNumber opc OR 0x80 else EnumToNumber opc)"

lemma payload_len_field_cases:
  obtains (one) "n \<le> 125" "payload_len_field n = of_nat n"
  | (two) "125 < n" "n < 65536" "payload_len_field n = 126"
  | (eight) "65536 \<le> n" "payload_len_field n = 127"
  by (cases "n \<le> 125"; cases "n < 65536") (auto simp: payload_len_field_def)

lemma payload_len_field_le: "payload_len_field n \<le> 127"
  by (cases rule: payload_len_field_cases [of n])
    (auto simp: word_le_nat_alt unat_of_nat)

lemma le_127_bit7: "(b :: byte) \<le> 127 \<Longrightarrow> take_bit 7 b = b"
  by (simp add: word_unat_eq_iff unsigned_take_bit_eq take_bit_nat_eq_self word_le_nat_alt)

lemmas field_take_bit [simp] = le_127_bit7 [OF payload_len_field_le]

lemma take_bit7_or_80 [simp]: "take_bit 7 (b OR 0x80 :: byte) = take_bit 7 b"
  by (rule bit_word_eqI) (auto simp: bit_simps take_bit_or)

lemma length_ext_length:
  "length (ext_length n) = (if n \<le> 125 then 0 else if n < 65536 then 2 else 8)"
  by (simp add: ext_length_def)

lemma PushFullHeader_layout:
  "PushFullHeader b [] =
    first_byte (sfb_fin b) (sfb_opcode b) # payload_len_field (length (sfb_payload b))
      # ext_length (length (sfb_payload b))"
proof (cases rule: payload_len_field_cases [of "length (sfb_payload b)"])
  case one
  moreover have "(of_nat (length (sfb_payload b)) :: byte) \<noteq> 126"
    "(of_nat (length (sfb_payload b)) :: byte) \<noteq> 127"
    using one by (auto simp: word_unat_eq_iff unat_of_nat)
  moreover have "take_bit 7 (of_nat (length (sfb_payload b)) :: byte) = of_nat (length (sfb_payload b))"
    using field_take_bit [of "length (sfb_payload b)"] one by simp
  ultimately show ?thesis
    by (simp add: PushFullHeader_def PushPayloadLength_def PushHeader_def first_byte_def ext_length_def)
next
  case two
  then show ?thesis
    by (simp add: PushFullHeader_def PushPayloadLength_def PushHeader_def first_byte_def ext_length_def
        PushNumberPerByte_acc [of "[_, _]"] unsigned_of_nat take_bit_nat_eq_self)
next
  case eight
  then show ?thesis
    by (simp add: PushFullHeader_def PushPayloadLength_def PushHeader_def first_byte_def ext_length_def
        PushNumberPerByte_acc [of "[_, _]"])
qed

lemma Build_layout:
  "Build b = first_byte (sfb_fin b) (sfb_opcode b) # payload_len_field (length (sfb_payload b))
     # ext_length (length (sfb_payload b)) @ sfb_payload b"
  by (simp add: Build_def PushPayload_def PushFullHeader_layout)

lemma Build_Client_layout:
  "length (cfb_maskingKey b) = 4 \<Longrightarrow>
   Build_Client b = first_byte (sfb_fin b) (sfb_opcode b)
     # (payload_len_field (length (sfb_payload b)) OR 0x80)
     # ext_length (length (sfb_payload b)) @ cfb_maskingKey b @ xor_loop (cfb_maskingKey b) 0 (sfb_payload b)"
  using map_nth [of "cfb_maskingKey b"]
  by (simp add: Build_Client_def PushPayload_Client_def PushFullHeader_Client_def PushMask_def
      PushFullHeader_layout Let_def)

section \<open>Lemmas: masking\<close>

lemma length_xor_loop [simp]: "length (xor_loop key i xs) = length xs"
  by (induction xs arbitrary: i) auto

lemma xor_loop_Nil_iff [simp]: "xor_loop key i xs = [] \<longleftrightarrow> xs = []"
  by (cases xs) auto

lemma xor_loop_involution [simp]: "xor_loop key i (xor_loop key i xs) = xs"
  by (induction xs arbitrary: i) auto

lemma nth_xor_loop: "j < length xs \<Longrightarrow> xor_loop key i xs ! j = xs ! j XOR key ! ((i + j) mod 4)"
  by (induction xs arbitrary: i j) (auto simp: nth_Cons split: nat.splits)

section \<open>Lemmas: the parsed header\<close>

lemma IsControlFrame_simps [simp]:
  "\<not> IsControlFrame 0" "\<not> IsControlFrame 1" "\<not> IsControlFrame 2"
  "IsControlFrame 8" "IsControlFrame 9" "IsControlFrame 10"
  by (simp_all add: IsControlFrame_def word_le_nat_alt)

lemma opcode_of_first_byte [simp]: "opcode (frame_of_header (first_byte f opc) h) = EnumToNumber opc"
  by (cases opc) (auto simp: frame_of_header_def first_byte_def)

lemma fin_of_first_byte [simp]: "fin (frame_of_header (first_byte f opc) h) = (if f then 1 else 0)"
  by (cases opc) (auto simp: frame_of_header_def first_byte_def)

lemma mask_of_field [simp]: "mask (frame_of_header h0 (payload_len_field n)) = 0"
proof -
  have "drop_bit 7 (take_bit 7 (payload_len_field n)) = 0"
    by (simp add: drop_bit_take_bit del: field_take_bit)
  then show ?thesis by (simp add: frame_of_header_def)
qed

lemma mask_of_masked_field [simp]: "mask (frame_of_header h0 (b OR 0x80)) = 1"
  by (simp add: frame_of_header_def)

lemma payloadLen_of_field [simp]:
  "payloadLen (frame_of_header h0 (payload_len_field n)) = ucast (payload_len_field n)"
  "payloadLen (frame_of_header h0 (payload_len_field n OR 0x80)) = ucast (payload_len_field n)"
  by (simp_all add: frame_of_header_def flip: unsigned_take_bit_eq)

section \<open>Complete frames\<close>

definition server_frame :: "bool \<Rightarrow> FrameType \<Rightarrow> byte list \<Rightarrow> byte list" where
  "server_frame isLast frameType p = Build (SetPayload p (ServerFrameBuilder_new isLast frameType))"

definition client_frame :: "byte list \<Rightarrow> bool \<Rightarrow> FrameType \<Rightarrow> byte list \<Rightarrow> byte list" where
  "client_frame key isLast frameType p =
     Build_Client (SetPayload p (ClientFrameBuilder_new isLast frameType key))"

abbreviation mask_of :: "byte list \<Rightarrow> byte list" where
  "mask_of key \<equiv> map (\<lambda>i. key ! i) [0..<4]"

lemma mask_of_id: "length key = 4 \<Longrightarrow> mask_of key = key"
  by (metis map_nth)

lemma server_frame_layout:
  "server_frame l t p = first_byte l t # payload_len_field (length p) # ext_length (length p) @ p"
  by (simp add: server_frame_def Build_layout SetPayload_def ServerFrameBuilder_new_def)

lemma client_frame_layout:
  "client_frame key l t p = first_byte l t # (payload_len_field (length p) OR 0x80)
     # ext_length (length p) @ mask_of key @ xor_loop (mask_of key) 0 p"
  by (simp add: client_frame_def Build_Client_layout SetPayload_def ClientFrameBuilder_new_def SetMask_def)

section \<open>Properties\<close>


end
