(* ===== verification/Network.thy ===== *)
theory Network
  imports Prelude
begin

text \<open>
  The socket helpers of \<^verbatim>\<open>websocket/network.cpp\<close>. What the operating system does is
  data: a receiving socket is the list of the outcomes \<open>recv\<close> will meet (a chunk of at
  least one byte, or an error; the end of the list is the peer's shutdown, where \<open>recv\<close>
  returns 0), and a sending socket is the list of the results \<open>send\<close> will return, after
  which it takes everything it is given. The theorems quantify over these lists, that
  is, over every way the bytes can be split and interrupted.
\<close>

section \<open>The system calls\<close>

datatype errno = EINTR | EAGAIN | EOTHER

datatype rx_event = RxData byte "byte list" | RxErr errno

datatype recv_ret = RecvBytes "byte list" | RecvErr errno

fun push_back_chunk :: "byte list \<Rightarrow> rx_event list \<Rightarrow> rx_event list" where
  "push_back_chunk [] es = es"
| "push_back_chunk (b # bs) es = RxData b bs # es"

fun recv_once :: "nat \<Rightarrow> rx_event list \<Rightarrow> recv_ret \<times> rx_event list" where
  "recv_once n [] = (RecvBytes [], [])"
| "recv_once n (RxErr e # es) = (RecvErr e, es)"
| "recv_once n (RxData b bs # es) =
     (RecvBytes (take n (b # bs)), push_back_chunk (drop n (b # bs)) es)"

text \<open>The inner loop of \<open>Recv\<close>: try again while the call was interrupted.\<close>

fun recv_retry :: "nat \<Rightarrow> rx_event list \<Rightarrow> recv_ret \<times> rx_event list" where
  "recv_retry n (RxErr e # es) =
     (if e = EINTR \<or> e = EAGAIN then recv_retry n es else (RecvErr e, es))"
| "recv_retry n es = recv_once n es"

definition send_once :: "nat \<Rightarrow> int list \<Rightarrow> int \<times> int list" where
  "send_once n sx = (case sx of [] \<Rightarrow> (int n, []) | k # ks \<Rightarrow> (min k (int n), ks))"

section \<open>Recv and Send\<close>

function Recv_loop :: "nat \<Rightarrow> byte list \<Rightarrow> rx_event list \<Rightarrow> byte list option \<times> rx_event list" where
  "Recv_loop totalLen got es =
     (if length got < totalLen then
        (case recv_retry (totalLen - length got) es of
           (RecvErr e, es') \<Rightarrow> (None, es')
         | (RecvBytes [], es') \<Rightarrow> (None, es')
         | (RecvBytes (b # bs), es') \<Rightarrow> Recv_loop totalLen (got @ b # bs) es')
      else (Some got, es))"
  by pat_completeness auto
termination
  by (relation "measure (\<lambda>(totalLen, got, es). totalLen - length got)") auto

declare Recv_loop.simps [simp del]

definition Recv :: "nat \<Rightarrow> rx_event list \<Rightarrow> byte list option \<times> rx_event list" where
  "Recv totalLen es = Recv_loop totalLen [] es"

text \<open>The overload that fills a string: an empty buffer is a failure.\<close>

definition Recv_string :: "nat \<Rightarrow> rx_event list \<Rightarrow> byte list option \<times> rx_event list" where
  "Recv_string bufSize es = (if bufSize = 0 then (None, es) else Recv bufSize es)"

function Send_loop :: "nat \<Rightarrow> nat \<Rightarrow> int list \<Rightarrow> bool \<times> nat \<times> int list" where
  "Send_loop totalLen sendLen sx =
     (if sendLen < totalLen then
        (case send_once (totalLen - sendLen) sx of
           (len, sx') \<Rightarrow>
             if len \<le> 0 then (False, sendLen, sx')
             else Send_loop totalLen (sendLen + nat len) sx')
      else (True, sendLen, sx))"
  by pat_completeness auto
termination
  by (relation "measure (\<lambda>(totalLen, sendLen, sx). totalLen - sendLen)") auto

declare Send_loop.simps [simp del]

text \<open>The result, the bytes the system took, and the rest of the outcomes.\<close>

definition Send :: "byte list \<Rightarrow> int list \<Rightarrow> bool \<times> byte list \<times> int list" where
  "Send buf sx = (case Send_loop (length buf) 0 sx of (ok, n, sx') \<Rightarrow> (ok, take n buf, sx'))"

definition GetBase64EncodingLength :: "nat \<Rightarrow> nat" where
  "GetBase64EncodingLength inputLength = ((inputLength + 2) div 3) * 4"

section \<open>The byte stream a socket delivers\<close>

text \<open>What arrives before the first failure that is not an interruption.\<close>

fun rx_stream :: "rx_event list \<Rightarrow> byte list" where
  "rx_stream [] = []"
| "rx_stream (RxErr e # es) = (if e = EINTR \<or> e = EAGAIN then rx_stream es else [])"
| "rx_stream (RxData b bs # es) = b # bs @ rx_stream es"

lemma rx_stream_push_back [simp]: "rx_stream (push_back_chunk bs es) = bs @ rx_stream es"
  by (cases bs) auto

lemma recv_retry_stream:
  assumes "n > 0" "recv_retry n es = (RecvBytes bs, es')"
  shows "rx_stream es = bs @ rx_stream es'" "length bs \<le> n"
    "bs = [] \<Longrightarrow> rx_stream es = []"
  using assms by (induction n es rule: recv_retry.induct) (auto split: if_splits)

lemma recv_retry_err: "recv_retry n es = (RecvErr e, es') \<Longrightarrow> rx_stream es = []"
  by (induction n es rule: recv_retry.induct) (auto split: if_splits)

text \<open>
  The loop returns exactly the next \<open>totalLen - length got\<close> bytes of the stream when
  there are that many, however they are chunked, and fails otherwise.
\<close>

lemma Recv_loop_spec:
  "length got \<le> totalLen \<Longrightarrow>
   (case Recv_loop totalLen got es of
      (Some bs, es') \<Rightarrow> totalLen - length got \<le> length (rx_stream es) \<and>
        bs = got @ take (totalLen - length got) (rx_stream es) \<and>
        rx_stream es' = drop (totalLen - length got) (rx_stream es)
    | (None, es') \<Rightarrow> length (rx_stream es) < totalLen - length got)"
proof (induction totalLen got es rule: Recv_loop.induct)
  case (1 totalLen got es)
  show ?case
  proof (cases "length got < totalLen")
    case False
    with "1.prems" show ?thesis by (simp add: Recv_loop.simps [of totalLen got es])
  next
    case True
    obtain r es' where r: "recv_retry (totalLen - length got) es = (r, es')" by fastforce
    show ?thesis
    proof (cases r)
      case (RecvErr e)
      with r True show ?thesis
        by (simp add: Recv_loop.simps [of totalLen got es] recv_retry_err)
    next
      case (RecvBytes bs)
      note st = recv_retry_stream [OF _ r [unfolded RecvBytes]]
      show ?thesis
      proof (cases bs)
        case Nil
        with r RecvBytes True st show ?thesis
          by (simp add: Recv_loop.simps [of totalLen got es])
      next
        case (Cons c cs)
        have "length (got @ c # cs) \<le> totalLen"
          using st True Cons by simp
        moreover from this
        have "totalLen - length got = length (c # cs) + (totalLen - length (got @ c # cs))"
          by simp
        ultimately show ?thesis
          using "1.IH" [OF True r [symmetric] RecvBytes Cons] st True Cons r RecvBytes
          by (auto simp: Recv_loop.simps [of totalLen got es] split: prod.splits option.splits)
      qed
    qed
  qed
qed

lemma Recv_Some_iff:
  "(\<exists>bs es'. Recv n es = (Some bs, es')) \<longleftrightarrow> n \<le> length (rx_stream es)"
  using Recv_loop_spec [of "[]" n es] by (auto simp: Recv_def split: prod.splits option.splits)

lemma Recv_SomeD:
  assumes "Recv n es = (Some bs, es')"
  shows "bs = take n (rx_stream es)" "rx_stream es' = drop n (rx_stream es)"
    "n \<le> length (rx_stream es)" "length bs = n"
  using Recv_loop_spec [of "[]" n es] assms by (auto simp: Recv_def)

lemma Recv_SomeI:
  assumes "n \<le> length (rx_stream es)"
  obtains es' where "Recv n es = (Some (take n (rx_stream es)), es')"
    "rx_stream es' = drop n (rx_stream es)"
  using assms Recv_Some_iff [of n es] Recv_SomeD by metis

section \<open>What Send hands over\<close>

lemma Send_loop_spec:
  "sendLen \<le> totalLen \<Longrightarrow> Send_loop totalLen sendLen sx = (ok, n, sx') \<Longrightarrow>
   sendLen \<le> n \<and> n \<le> totalLen \<and> (ok \<longleftrightarrow> n = totalLen)"
proof (induction totalLen sendLen sx rule: Send_loop.induct)
  case (1 totalLen sendLen sx)
  show ?case
  proof (cases "sendLen < totalLen")
    case False
    with "1.prems" show ?thesis
      by (auto simp: Send_loop.simps [of totalLen totalLen sx] Send_loop.simps [of totalLen sendLen sx])
  next
    case True
    obtain len sx'' where s: "send_once (totalLen - sendLen) sx = (len, sx'')" by fastforce
    have le: "len \<le> int (totalLen - sendLen)"
      using s by (auto simp: send_once_def split: list.splits)
    show ?thesis
    proof (cases "len \<le> 0")
      case l: True
      with "1.prems" s True show ?thesis by (auto simp: Send_loop.simps [of totalLen sendLen sx])
    next
      case l: False
      have "Send_loop totalLen (sendLen + nat len) sx'' = (ok, n, sx')"
        using "1.prems" s True l by (simp add: Send_loop.simps [of totalLen sendLen sx])
      moreover have "sendLen + nat len \<le> totalLen"
        using le True by linarith
      ultimately show ?thesis
        using "1.IH" [OF True s [symmetric] l] by fastforce
    qed
  qed
qed

lemma Send_result:
  assumes "Send buf sx = (ok, sent, sx')"
  shows "ok \<longleftrightarrow> sent = buf" "\<exists>rest. buf = sent @ rest"
  using assms Send_loop_spec [of 0 "length buf" sx]
  by (auto simp: Send_def split: prod.splits) (metis append_take_drop_id)

lemma Send_loop_ok:
  "(\<And>k. k \<in> set sx \<Longrightarrow> 0 < k) \<Longrightarrow> fst (Send_loop totalLen sendLen sx)"
proof (induction totalLen sendLen sx rule: Send_loop.induct)
  case (1 totalLen sendLen sx)
  obtain len sx'' where s: "send_once (totalLen - sendLen) sx = (len, sx'')" by fastforce
  show ?case
  proof (cases "sendLen < totalLen")
    case False
    then show ?thesis by (simp add: Send_loop.simps [of totalLen sendLen sx])
  next
    case True
    with s "1.prems" have "0 < len" and sub: "\<And>k. k \<in> set sx'' \<Longrightarrow> 0 < k"
      by (auto simp: send_once_def split: list.splits)
    with "1.IH" [OF True s [symmetric] _ sub] s True show ?thesis
      by (simp add: Send_loop.simps [of totalLen sendLen sx])
  qed
qed

lemma Send_loop_rest: "Send_loop totalLen sendLen sx = (ok, n, sx') \<Longrightarrow> set sx' \<subseteq> set sx"
proof (induction totalLen sendLen sx rule: Send_loop.induct)
  case (1 totalLen sendLen sx)
  obtain len sx'' where s: "send_once (totalLen - sendLen) sx = (len, sx'')" by fastforce
  have sub: "set sx'' \<subseteq> set sx" using s by (auto simp: send_once_def split: list.splits)
  show ?case
  proof (cases "sendLen < totalLen \<and> \<not> len \<le> 0")
    case True
    with "1.prems" s have "Send_loop totalLen (sendLen + nat len) sx'' = (ok, n, sx')"
      by (simp add: Send_loop.simps [of totalLen sendLen sx])
    with "1.IH" True s sub show ?thesis by fastforce
  next
    case False
    with "1.prems" s sub show ?thesis
      by (auto simp: Send_loop.simps [of totalLen sendLen sx] split: if_splits)
  qed
qed

lemma Send_all:
  "(\<And>k. k \<in> set sx \<Longrightarrow> 0 < k) \<Longrightarrow> \<exists>sx'. Send buf sx = (True, buf, sx') \<and> set sx' \<subseteq> set sx"
  using Send_loop_ok [of sx "length buf" 0] Send_loop_spec [of 0 "length buf" sx]
    Send_loop_rest [of "length buf" 0 sx]
  by (auto simp: Send_def split: prod.splits)

section \<open>Properties\<close>

text \<open>
  C12. \<open>Recv\<close> is exact, however the bytes arrive: with at least \<open>n\<close> bytes before the end of
  the stream or an error it returns precisely the next \<open>n\<close> and leaves the rest; with fewer
  it fails.
\<close>

theorem Recv_exact:
  "case Recv n es of
     (None, es') \<Rightarrow> length (rx_stream es) < n
   | (Some bs, es') \<Rightarrow> length bs = n \<and> rx_stream es = bs @ rx_stream es'"
proof (cases "Recv n es")
  case (Pair r es')
  show ?thesis
  proof (cases r)
    case None
    with Pair Recv_Some_iff [of n es] show ?thesis by (auto simp: not_le)
  next
    case (Some bs)
    with Pair Recv_SomeD [of n es bs es'] show ?thesis by simp
  qed
qed


end
