(* ===== verification/Ws_Base.thy ===== *)
theory Ws_Base
  imports Ws_Frame Network
begin

text \<open>
  \<^verbatim>\<open>WebSocketBase\<close> (\<^verbatim>\<open>websocket/websocket_base.{h,cpp}\<close>): the connection record, every
  operation on it and the virtual methods the two endpoints supply. The record holds
  the class's fields, the connection's socket (what it will deliver, what its sends
  will return, what was handed to it) and a log of the calls that leave the program:
  user callbacks, \<open>shutdown\<close> and \<open>close\<close>. Locks are not modelled here; this theory is the
  sequential behaviour of each call, \<^verbatim>\<open>Ws_Concurrent\<close> holds the interleavings.
\<close>

section \<open>State\<close>

datatype CloseStatusCode =
  NO_STATUS_CODE | NORMAL | SERVER_GO_AWAY | PROTOCOL_ERROR | UNACCEPTABLE_DATA
| INCONSISTENT_DATA | POLICY_VIOLATION | MESSAGE_TOO_BIG | UNEXPECTED_ERROR

fun status_number :: "CloseStatusCode \<Rightarrow> u16" where
  "status_number NO_STATUS_CODE = 0"
| "status_number NORMAL = 1000"
| "status_number SERVER_GO_AWAY = 1001"
| "status_number PROTOCOL_ERROR = 1002"
| "status_number UNACCEPTABLE_DATA = 1003"
| "status_number INCONSISTENT_DATA = 1007"
| "status_number POLICY_VIOLATION = 1008"
| "status_number MESSAGE_TOO_BIG = 1009"
| "status_number UNEXPECTED_ERROR = 1011"

datatype ConnectionState = CONNECTING | OPEN | CLOSING | CLOSED

datatype ConnectionCloseReason = FAIL | CLOSE

datatype ws_action = CbFail | CbClose | CbOpen | OwnFd int | ShutdownFd int | CloseFd int

record ws =
  connectionState :: ConnectionState
  connectionFd :: int
  closeCb :: bool
  failCb :: bool
  rx :: "rx_event list"
  sx :: "int list"
  tx :: "byte list"
  maskSrc :: "nat \<Rightarrow> byte list"
  maskCtr :: nat
  actions :: "ws_action list"

definition ws_new :: ws where
  "ws_new = \<lparr>connectionState = CLOSED, connectionFd = -1, closeCb = False, failCb = False,
     rx = [], sx = [], tx = [], maskSrc = (\<lambda>_. [0, 0, 0, 0]), maskCtr = 0, actions = []\<rparr>"

definition log_action :: "ws_action \<Rightarrow> ws \<Rightarrow> ws" where
  "log_action a w = w\<lparr>actions := actions w @ [a]\<rparr>"

text \<open>The virtual methods. \<open>CreateFrame\<close> may draw a masking key, hence the state.\<close>

record vtable =
  vDecodeMessage :: "WebSocketFrame \<Rightarrow> ws \<Rightarrow> bool \<times> WebSocketFrame \<times> ws"
  vValidateIncomingFrame :: "WebSocketFrame \<Rightarrow> bool"
  vCreateFrame :: "bool \<Rightarrow> FrameType \<Rightarrow> byte list \<Rightarrow> ws \<Rightarrow> byte list \<times> ws"

section \<open>Accessors and socket operations\<close>

definition ToString :: "CloseStatusCode \<Rightarrow> byte list" where
  "ToString status =
     (if status = NO_STATUS_CODE then [] else PushNumberPerByte [] (status_number status))"

definition IsConnected :: "ws \<Rightarrow> bool" where
  "IsConnected w \<longleftrightarrow> connectionState w = OPEN"

definition SetCloseConnectionCallback :: "bool \<Rightarrow> ws \<Rightarrow> ws" where
  "SetCloseConnectionCallback cb w = w\<lparr>closeCb := cb\<rparr>"

definition SetFailConnectionCallback :: "bool \<Rightarrow> ws \<Rightarrow> ws" where
  "SetFailConnectionCallback cb w = w\<lparr>failCb := cb\<rparr>"

text \<open>A new descriptor comes with its own socket; \<open>FdsanExchangeOwnerTag\<close> makes it ours.\<close>

definition SetConnectionSocket :: "int \<Rightarrow> rx_event list \<Rightarrow> int list \<Rightarrow> ws \<Rightarrow> ws" where
  "SetConnectionSocket socketFd es outs w =
     (log_action (OwnFd socketFd) w)\<lparr>connectionFd := socketFd, rx := es, sx := outs, tx := []\<rparr>"

text \<open>\<open>exchange\<close> and \<open>compare_exchange_strong\<close>; the latter also reports the state it found.\<close>

definition SetConnectionState :: "ConnectionState \<Rightarrow> ws \<Rightarrow> ConnectionState \<times> ws" where
  "SetConnectionState newState w = (connectionState w, w\<lparr>connectionState := newState\<rparr>)"

definition CompareExchangeConnectionState ::
  "ConnectionState \<Rightarrow> ConnectionState \<Rightarrow> ws \<Rightarrow> bool \<times> ConnectionState \<times> ws" where
  "CompareExchangeConnectionState expected newState w =
     (if connectionState w = expected then (True, expected, w\<lparr>connectionState := newState\<rparr>)
      else (False, connectionState w, w))"

text \<open>A call on a descriptor that is not open fails, unless there is nothing to transfer.\<close>

definition SendUnderLock :: "byte list \<Rightarrow> ws \<Rightarrow> bool \<times> ws" where
  "SendUnderLock message w =
     (if connectionFd w < 0 then (message = [], w)
      else case Send message (sx w) of
        (ok, sent, sx') \<Rightarrow> (ok, w\<lparr>tx := tx w @ sent, sx := sx'\<rparr>))"

definition RecvUnderLock :: "nat \<Rightarrow> ws \<Rightarrow> byte list option \<times> ws" where
  "RecvUnderLock totalLen w =
     (if connectionFd w < 0 then (if totalLen = 0 then Some [] else None, w)
      else case Recv totalLen (rx w) of (r, es) \<Rightarrow> (r, w\<lparr>rx := es\<rparr>))"

abbreviation (input) HTTP_HANDSHAKE_MAX_LEN :: nat where
  "HTTP_HANDSHAKE_MAX_LEN \<equiv> 1024"

text \<open>The loop both endpoints receive a handshake message with: one successful \<open>recv\<close>.\<close>

definition recv_handshake :: "ws \<Rightarrow> byte list option \<times> ws" where
  "recv_handshake w =
     (if connectionFd w < 0 then (None, w)
      else case recv_retry HTTP_HANDSHAKE_MAX_LEN (rx w) of
        (RecvErr e, es) \<Rightarrow> (None, w\<lparr>rx := es\<rparr>)
      | (RecvBytes bs, es) \<Rightarrow> (if bs = [] then None else Some bs, w\<lparr>rx := es\<rparr>))"

definition RecvUnderLock_string :: "nat \<Rightarrow> ws \<Rightarrow> byte list option \<times> ws" where
  "RecvUnderLock_string bufSize w =
     (if connectionFd w < 0 then (None, w)
      else case Recv_string bufSize (rx w) of (r, es) \<Rightarrow> (r, w\<lparr>rx := es\<rparr>))"

text \<open>
  What the system calls of the set-up functions return, and the checked memory
  functions with them. A zero limit sets no time-out; otherwise both have to be set.
\<close>

record os_calls =
  os_socket :: int
  os_reuseaddr :: int
  os_sndtimeo :: int
  os_rcvtimeo :: int
  os_memset_s :: int
  os_strcpy_s :: int
  os_inet_pton :: int
  os_bind :: int
  os_listen :: int
  os_connect :: int
  os_getfl :: int

definition SetWebSocketTimeOut :: "os_calls \<Rightarrow> nat \<Rightarrow> bool" where
  "SetWebSocketTimeOut os timeoutLimit =
     (if timeoutLimit > 0 then
        (if os_sndtimeo os \<noteq> 0 then False else if os_rcvtimeo os \<noteq> 0 then False else True)
      else True)"

definition ShutdownSocket :: "ws \<Rightarrow> ws" where
  "ShutdownSocket w = log_action (ShutdownFd (connectionFd w)) w"

section \<open>Closing\<close>

definition OnConnectionClose :: "ConnectionCloseReason \<Rightarrow> ws \<Rightarrow> ws" where
  "OnConnectionClose status w =
     (case status of
        FAIL \<Rightarrow> if failCb w then log_action CbFail w else w
      | ConnectionCloseReason.CLOSE \<Rightarrow> if closeCb w then log_action CbClose w else w)"

definition CloseConnectionSocket :: "ConnectionCloseReason \<Rightarrow> ws \<Rightarrow> ws" where
  "CloseConnectionSocket status w =
     (let w1 = OnConnectionClose status w;
          w2 = ShutdownSocket w1;
          w3 = (log_action (CloseFd (connectionFd w2)) w2)\<lparr>connectionFd := -1\<rparr>;
          (ok, expected, w4) = CompareExchangeConnectionState CLOSING CLOSED w3
      in w4)"

definition SendPongFrame :: "vtable \<Rightarrow> byte list \<Rightarrow> ws \<Rightarrow> ws" where
  "SendPongFrame vt p w =
     (let (frame, w1) = vCreateFrame vt True PONG p w; (ok, w2) = SendUnderLock frame w1 in w2)"

definition SendCloseFrame :: "vtable \<Rightarrow> CloseStatusCode \<Rightarrow> ws \<Rightarrow> ws" where
  "SendCloseFrame vt status w =
     (let (frame, w1) = vCreateFrame vt True FrameType.CLOSE (ToString status) w;
          (ok, w2) = SendUnderLock frame w1 in w2)"

definition CloseConnection :: "vtable \<Rightarrow> CloseStatusCode \<Rightarrow> ws \<Rightarrow> bool \<times> ws" where
  "CloseConnection vt status w =
     (let (ok, expected, w1) = CompareExchangeConnectionState OPEN CLOSING w
      in if \<not> ok then (False, w1)
         else (True, CloseConnectionSocket ConnectionCloseReason.CLOSE (SendCloseFrame vt status w1)))"

text \<open>The destructor closes a descriptor that is still there.\<close>

definition WebSocketBase_destroy :: "ws \<Rightarrow> ws" where
  "WebSocketBase_destroy w =
     (if connectionFd w \<noteq> -1 then (log_action (CloseFd (connectionFd w)) w)\<lparr>connectionFd := -1\<rparr> else w)"

section \<open>Sending and receiving\<close>

definition SendReply :: "vtable \<Rightarrow> byte list \<Rightarrow> FrameType \<Rightarrow> bool \<Rightarrow> ws \<Rightarrow> bool \<times> ws" where
  "SendReply vt message frameType isLast w =
     (if connectionState w \<noteq> OPEN then (False, w)
      else let (frame, w1) = vCreateFrame vt isLast frameType message w in SendUnderLock frame w1)"

definition ReadPayload :: "vtable \<Rightarrow> WebSocketFrame \<Rightarrow> ws \<Rightarrow> bool \<times> WebSocketFrame \<times> ws" where
  "ReadPayload vt wsFrame w =
     (if payloadLen wsFrame = of_nat TWO_BYTES_LENTH_ENC then
        (case RecvUnderLock TWO_BYTES_LENTH w of
           (None, w') \<Rightarrow> (False, wsFrame, w')
         | (Some recvbuf, w') \<Rightarrow>
             vDecodeMessage vt (wsFrame\<lparr>payloadLen := NetToHostLongLong (Some recvbuf) TWO_BYTES_LENTH\<rparr>) w')
      else if payloadLen wsFrame = of_nat EIGHT_BYTES_LENTH_ENC then
        (case RecvUnderLock EIGHT_BYTES_LENTH w of
           (None, w') \<Rightarrow> (False, wsFrame, w')
         | (Some recvbuf, w') \<Rightarrow>
             vDecodeMessage vt (wsFrame\<lparr>payloadLen := NetToHostLongLong (Some recvbuf) EIGHT_BYTES_LENTH\<rparr>) w')
      else vDecodeMessage vt wsFrame w)"

definition HandleDataFrame :: "vtable \<Rightarrow> WebSocketFrame \<Rightarrow> ws \<Rightarrow> bool \<times> WebSocketFrame \<times> ws" where
  "HandleDataFrame vt wsFrame w =
     (if opcode wsFrame = EnumToNumber TEXT then ReadPayload vt wsFrame w else (True, wsFrame, w))"

definition HandleControlFrame :: "vtable \<Rightarrow> WebSocketFrame \<Rightarrow> ws \<Rightarrow> bool \<times> WebSocketFrame \<times> ws" where
  "HandleControlFrame vt wsFrame w =
     (if opcode wsFrame = EnumToNumber PING then
        (case ReadPayload vt wsFrame w of
           (False, f, w') \<Rightarrow> (False, f, w')
         | (True, f, w') \<Rightarrow> (True, f, SendPongFrame vt (payload f) w'))
      else if opcode wsFrame = EnumToNumber FrameType.CLOSE then
        (True, wsFrame, snd (CloseConnection vt NO_STATUS_CODE w))
      else (True, wsFrame, w))"

text \<open>The choice \<open>Decode\<close> makes between the two handlers.\<close>

definition HandleFrame :: "vtable \<Rightarrow> WebSocketFrame \<Rightarrow> ws \<Rightarrow> bool \<times> WebSocketFrame \<times> ws" where
  "HandleFrame vt wsFrame w =
     (if IsControlFrame (opcode wsFrame) then HandleControlFrame vt wsFrame w
      else HandleDataFrame vt wsFrame w)"

definition DECODE_DISCONNECT_MSG :: "byte list" where
  "DECODE_DISCONNECT_MSG = map of_char ''disconnect''"

definition IsDecodeDisconnectMsg :: "byte list \<Rightarrow> bool" where
  "IsDecodeDisconnectMsg message \<longleftrightarrow> message = DECODE_DISCONNECT_MSG"

definition Decode :: "vtable \<Rightarrow> ws \<Rightarrow> byte list \<times> ws" where
  "Decode vt w =
     (if connectionState w \<noteq> OPEN then ([], w)
      else case RecvUnderLock HEADER_LEN w of
        (None, w1) \<Rightarrow> (DECODE_DISCONNECT_MSG, snd (CloseConnection vt UNEXPECTED_ERROR w1))
      | (Some recvbuf, w1) \<Rightarrow>
          let wsFrame = frame_of_header (recvbuf ! 0) (recvbuf ! 1)
          in if \<not> vValidateIncomingFrame vt wsFrame
             then (DECODE_DISCONNECT_MSG, snd (CloseConnection vt PROTOCOL_ERROR w1))
             else case HandleFrame vt wsFrame w1 of
               (True, f, w2) \<Rightarrow> (payload f, w2)
             | (False, f, w2) \<Rightarrow> (DECODE_DISCONNECT_MSG, snd (CloseConnection vt PROTOCOL_ERROR w2)))"

section \<open>What the socket operations leave unchanged\<close>

lemma log_action_simps [simp]:
  "connectionState (log_action a w) = connectionState w" "connectionFd (log_action a w) = connectionFd w"
  "closeCb (log_action a w) = closeCb w" "failCb (log_action a w) = failCb w"
  "rx (log_action a w) = rx w" "sx (log_action a w) = sx w" "tx (log_action a w) = tx w"
  "actions (log_action a w) = actions w @ [a]"
  by (simp_all add: log_action_def)

lemma SendUnderLock_keeps:
  assumes "SendUnderLock m w = (ok, w')"
  obtains sent outs where "w' = w\<lparr>tx := tx w @ sent, sx := outs\<rparr>" "\<exists>rest. m = sent @ rest"
proof (cases "connectionFd w < 0")
  case True
  with assms that [where sent = "[]" and outs = "sx w"] show ?thesis by (simp add: SendUnderLock_def)
next
  case False
  obtain b sent outs where s: "Send m (sx w) = (b, sent, outs)" by (cases "Send m (sx w)") auto
  with assms False have "w' = w\<lparr>tx := tx w @ sent, sx := outs\<rparr>" by (simp add: SendUnderLock_def)
  with Send_result(2) [OF s] that show ?thesis by blast
qed

lemma RecvUnderLock_keeps:
  assumes "RecvUnderLock n w = (r, w')"
  obtains es where "w' = w\<lparr>rx := es\<rparr>"
  using assms that [of "rx w"] by (cases "connectionFd w < 0") (auto simp: RecvUnderLock_def split: prod.splits)

lemma RecvUnderLock_string_keeps:
  assumes "RecvUnderLock_string n w = (r, w')"
  obtains es where "w' = w\<lparr>rx := es\<rparr>"
  using assms that [of "rx w"]
  by (cases "connectionFd w < 0") (auto simp: RecvUnderLock_string_def split: prod.splits)

text \<open>A descriptor that takes every byte it is given, in pieces of any size.\<close>

abbreviation can_send :: "ws \<Rightarrow> bool" where
  "can_send w \<equiv> 0 \<le> connectionFd w \<and> list_all (\<lambda>k. 0 < k) (sx w)"

lemma SendUnderLock_all:
  assumes "can_send w"
  obtains outs where "SendUnderLock bs w = (True, w\<lparr>tx := tx w @ bs, sx := outs\<rparr>)" "list_all (\<lambda>k. 0 < k) outs"
proof -
  obtain outs where "Send bs (sx w) = (True, bs, outs)" "set outs \<subseteq> set (sx w)"
    using Send_all [of "sx w" bs] assms by (auto simp: list_all_iff)
  with assms that [of outs] show ?thesis by (auto simp: SendUnderLock_def list_all_iff)
qed

text \<open>Reading from an open descriptor whose stream begins with the bytes wanted.\<close>

lemma RecvUnderLock_stream:
  assumes "0 \<le> connectionFd w" "rx_stream (rx w) = bs @ rest" "length bs = n"
  obtains es where "RecvUnderLock n w = (Some bs, w\<lparr>rx := es\<rparr>)" "rx_stream es = rest"
proof -
  have "n \<le> length (rx_stream (rx w))" using assms by simp
  then obtain es where "Recv n (rx w) = (Some (take n (rx_stream (rx w))), es)"
    "rx_stream es = drop n (rx_stream (rx w))" by (rule Recv_SomeI)
  with assms that [of es] show ?thesis by (simp add: RecvUnderLock_def)
qed

lemma RecvUnderLock_string_stream:
  assumes "0 \<le> connectionFd w" "rx_stream (rx w) = bs @ rest" "length bs = n" "bs \<noteq> []"
  obtains es where "RecvUnderLock_string n w = (Some bs, w\<lparr>rx := es\<rparr>)" "rx_stream es = rest"
proof -
  from assms obtain es where "RecvUnderLock n w = (Some bs, w\<lparr>rx := es\<rparr>)" "rx_stream es = rest"
    by (auto elim: RecvUnderLock_stream)
  moreover have "RecvUnderLock_string n w = RecvUnderLock n w"
    using assms by (auto simp: RecvUnderLock_string_def RecvUnderLock_def Recv_string_def)
  ultimately show ?thesis using that by simp
qed

lemma RecvUnderLock_short:
  assumes "length (rx_stream (rx w)) < n"
  obtains es where "RecvUnderLock n w = (None, w\<lparr>rx := es\<rparr>)"
proof (cases "connectionFd w < 0")
  case True
  with assms that [of "rx w"] show ?thesis by (auto simp: RecvUnderLock_def)
next
  case False
  obtain r es where r: "Recv n (rx w) = (r, es)" by fastforce
  with assms have "r = None" using Recv_Some_iff [of n "rx w"] by (cases r) auto
  with r False that [of es] show ?thesis by (simp add: RecvUnderLock_def)
qed

section \<open>Closing a connection\<close>

definition close_actions :: "ConnectionCloseReason \<Rightarrow> ws \<Rightarrow> ws_action list" where
  "close_actions status w =
     (case status of FAIL \<Rightarrow> if failCb w then [CbFail] else []
      | ConnectionCloseReason.CLOSE \<Rightarrow> if closeCb w then [CbClose] else [])
     @ [ShutdownFd (connectionFd w), CloseFd (connectionFd w)]"

lemma CloseConnectionSocket_eq:
  "CloseConnectionSocket status w =
     w\<lparr>connectionState := (if connectionState w = CLOSING then CLOSED else connectionState w),
       connectionFd := -1, actions := actions w @ close_actions status w\<rparr>"
  by (auto simp: CloseConnectionSocket_def Let_def OnConnectionClose_def ShutdownSocket_def
      CompareExchangeConnectionState_def close_actions_def log_action_def
      split: ConnectionCloseReason.splits)

text \<open>
  The contract of an endpoint's virtual methods: decoding touches only what the socket
  still delivers, and building a frame touches nothing but the source of masking keys.
\<close>

locale ws_endpoint =
  fixes vt :: vtable
  assumes decode_keeps: "vDecodeMessage vt f w = (ok, f', w') \<Longrightarrow> \<exists>es. w' = w\<lparr>rx := es\<rparr>"
    and create_keeps: "vCreateFrame vt l t p w = (fr, w') \<Longrightarrow> \<exists>n. w' = w\<lparr>maskCtr := n\<rparr>"
begin

lemma SendCloseFrame_keeps:
  obtains sent outs n where "SendCloseFrame vt status w = w\<lparr>tx := tx w @ sent, sx := outs, maskCtr := n\<rparr>"
proof -
  obtain fr w1 where c: "vCreateFrame vt True FrameType.CLOSE (ToString status) w = (fr, w1)" by fastforce
  then obtain n where w1: "w1 = w\<lparr>maskCtr := n\<rparr>" using create_keeps by blast
  obtain ok w2 where s: "SendUnderLock fr w1 = (ok, w2)" by fastforce
  then obtain sent outs where "w2 = w1\<lparr>tx := tx w1 @ sent, sx := outs\<rparr>" by (rule SendUnderLock_keeps)
  with c s w1 that [where sent = sent and outs = outs and n = n] show ?thesis by (simp add: SendCloseFrame_def)
qed

lemma SendPongFrame_keeps:
  obtains sent outs n where "SendPongFrame vt p w = w\<lparr>tx := tx w @ sent, sx := outs, maskCtr := n\<rparr>"
proof -
  obtain fr w1 where c: "vCreateFrame vt True PONG p w = (fr, w1)" by fastforce
  then obtain n where w1: "w1 = w\<lparr>maskCtr := n\<rparr>" using create_keeps by blast
  obtain ok w2 where s: "SendUnderLock fr w1 = (ok, w2)" by fastforce
  then obtain sent outs where "w2 = w1\<lparr>tx := tx w1 @ sent, sx := outs\<rparr>" by (rule SendUnderLock_keeps)
  with c s w1 that [where sent = sent and outs = outs and n = n] show ?thesis by (simp add: SendPongFrame_def)
qed

lemma CloseConnection_open:
  assumes "connectionState w = OPEN" "CloseConnection vt status w = (r, w')"
  shows "r" "connectionState w' = CLOSED" "connectionFd w' = -1"
    "actions w' = actions w @ close_actions ConnectionCloseReason.CLOSE w"
    "rx w' = rx w" "\<exists>sent. tx w' = tx w @ sent"
proof -
  let ?w1 = "w\<lparr>connectionState := CLOSING\<rparr>"
  obtain sent outs n where
    "SendCloseFrame vt status ?w1 = ?w1\<lparr>tx := tx w @ sent, sx := outs, maskCtr := n\<rparr>"
    by (rule SendCloseFrame_keeps [of status ?w1]) simp
  with assms show "r" "connectionState w' = CLOSED" "connectionFd w' = -1"
    "actions w' = actions w @ close_actions ConnectionCloseReason.CLOSE w"
    "rx w' = rx w" "\<exists>sent. tx w' = tx w @ sent"
    by (auto simp: CloseConnection_def CompareExchangeConnectionState_def CloseConnectionSocket_eq
        close_actions_def)
qed

lemma CloseConnection_not_open:
  "connectionState w \<noteq> OPEN \<Longrightarrow> CloseConnection vt status w = (False, w)"
  by (simp add: CloseConnection_def CompareExchangeConnectionState_def)

lemma ReadPayload_keeps:
  assumes "ReadPayload vt f w = (ok, f', w')"
  obtains es where "w' = w\<lparr>rx := es\<rparr>"
proof -
  have "\<exists>es. w' = w\<lparr>rx := es\<rparr>"
    using assms unfolding ReadPayload_def
    by (auto split: if_splits prod.splits option.splits dest!: decode_keeps elim!: RecvUnderLock_keeps)
  then show ?thesis using that by blast
qed

text \<open>
  How a call leaves an open connection: untouched but for the socket's data, or closed,
  with the callback, \<open>shutdown\<close> and \<open>close\<close> of its descriptor done once, in that order.
\<close>

lemma ReadPayload_open:
  "ReadPayload vt f w = (ok, f', w') \<Longrightarrow>
   connectionState w' = connectionState w \<and> connectionFd w' = connectionFd w \<and>
   actions w' = actions w \<and> closeCb w' = closeCb w"
  by (erule ReadPayload_keeps) simp

lemma HandleDataFrame_open:
  "HandleDataFrame vt f w = (ok, f', w') \<Longrightarrow>
   connectionState w' = connectionState w \<and> connectionFd w' = connectionFd w \<and>
   actions w' = actions w \<and> closeCb w' = closeCb w"
  by (auto simp: HandleDataFrame_def ReadPayload_open split: if_splits)

lemma SendPongFrame_open [simp]:
  "connectionState (SendPongFrame vt p w) = connectionState w"
  "connectionFd (SendPongFrame vt p w) = connectionFd w"
  "actions (SendPongFrame vt p w) = actions w" "closeCb (SendPongFrame vt p w) = closeCb w"
  by (rule SendPongFrame_keeps [of p w], simp)+

lemma HandleControlFrame_open:
  assumes "connectionState w = OPEN" "HandleControlFrame vt f w = (ok, f', w')"
  shows "(connectionState w' = OPEN \<and> connectionFd w' = connectionFd w \<and>
      actions w' = actions w \<and> closeCb w' = closeCb w) \<or>
    (ok \<and> f' = f \<and> connectionState w' = CLOSED \<and> connectionFd w' = -1 \<and>
      actions w' = actions w @ close_actions ConnectionCloseReason.CLOSE w)"
proof (cases "opcode f = EnumToNumber PING")
  case True
  obtain ok1 f1 w1 where r: "ReadPayload vt f w = (ok1, f1, w1)" by (cases "ReadPayload vt f w") auto
  from True assms r ReadPayload_open [OF r] show ?thesis
    by (cases ok1) (auto simp: HandleControlFrame_def)
next
  case False
  obtain b w1 where c: "CloseConnection vt NO_STATUS_CODE w = (b, w1)" by fastforce
  from False assms c CloseConnection_open [OF assms(1) c] show ?thesis
    by (auto simp: HandleControlFrame_def split: if_splits)
qed

lemma close_after_read:
  assumes "connectionState w = OPEN" "connectionState w1 = OPEN" "connectionFd w1 = connectionFd w"
    "actions w1 = actions w" "closeCb w1 = closeCb w"
  shows "connectionState (snd (CloseConnection vt st w1)) = CLOSED"
    "connectionFd (snd (CloseConnection vt st w1)) = -1"
    "actions (snd (CloseConnection vt st w1)) = actions w @ close_actions ConnectionCloseReason.CLOSE w"
proof -
  obtain b w2 where c: "CloseConnection vt st w1 = (b, w2)" by fastforce
  from CloseConnection_open [OF assms(2) c] assms c
  show "connectionState (snd (CloseConnection vt st w1)) = CLOSED"
    "connectionFd (snd (CloseConnection vt st w1)) = -1"
    "actions (snd (CloseConnection vt st w1)) = actions w @ close_actions ConnectionCloseReason.CLOSE w"
    by (auto simp: close_actions_def)
qed

lemma Decode_not_open: "connectionState w \<noteq> OPEN \<Longrightarrow> Decode vt w = ([], w)"
  by (simp add: Decode_def)

lemma Decode_open:
  assumes o: "connectionState w = OPEN" and d: "Decode vt w = (m, w')"
  shows "(connectionState w' = OPEN \<and> connectionFd w' = connectionFd w \<and> actions w' = actions w) \<or>
    ((m = DECODE_DISCONNECT_MSG \<or> m = []) \<and> connectionState w' = CLOSED \<and> connectionFd w' = -1 \<and>
      actions w' = actions w @ close_actions ConnectionCloseReason.CLOSE w)"
proof -
  obtain r w1 where r: "RecvUnderLock HEADER_LEN w = (r, w1)" by fastforce
  then obtain es where w1: "w1 = w\<lparr>rx := es\<rparr>" by (rule RecvUnderLock_keeps)
  note closed = close_after_read [OF o, of w1]
  show ?thesis
  proof (cases r)
    case None
    with d o r w1 closed show ?thesis by (auto simp: Decode_def)
  next
    case (Some recvbuf)
    let ?f = "frame_of_header (recvbuf ! 0) (recvbuf ! 1)"
    show ?thesis
    proof (cases "vValidateIncomingFrame vt ?f")
      case False
      with d o r w1 Some closed show ?thesis by (auto simp: Decode_def)
    next
      case True
      obtain ok f2 w2 where h: "HandleFrame vt ?f w1 = (ok, f2, w2)" by (metis prod_cases3)
      have "(connectionState w2 = OPEN \<and> connectionFd w2 = connectionFd w \<and> actions w2 = actions w \<and>
          closeCb w2 = closeCb w) \<or>
        (ok \<and> f2 = ?f \<and> connectionState w2 = CLOSED \<and> connectionFd w2 = -1 \<and>
          actions w2 = actions w @ close_actions ConnectionCloseReason.CLOSE w)"
        using h w1 o HandleControlFrame_open [of w1 ?f ok f2 w2] HandleDataFrame_open [of ?f w1 ok f2 w2]
        by (auto simp: HandleFrame_def close_actions_def split: if_splits)
      moreover have "payload ?f = []" by (simp add: frame_of_header_def)
      ultimately show ?thesis
        using d o r w1 Some True h close_after_read [OF o, of w2]
        by (cases ok) (auto simp: Decode_def Let_def)
    qed
  qed
qed

end

section \<open>Frames over the wire\<close>

text \<open>
  The contract between the peer that builds frames and the endpoint that decodes them:
  the header is the one the endpoint accepts, its length field is the one of the frame
  layer, and the body is what \<open>DecodeMessage\<close> turns back into the payload.
\<close>

locale ws_wire = ws_endpoint vt for vt :: vtable +
  fixes frame :: "bool \<Rightarrow> FrameType \<Rightarrow> byte list \<Rightarrow> byte list"
    and second_byte :: "byte list \<Rightarrow> byte"
    and body :: "byte list \<Rightarrow> byte list"
  assumes frame_layout: "frame l t p = first_byte l t # second_byte p # ext_length (length p) @ body p"
    and length_field: "payloadLen (frame_of_header h (second_byte p)) = ucast (payload_len_field (length p))"
    and accepted: "vValidateIncomingFrame vt (frame_of_header h (second_byte p))"
    and decode_body: "\<lbrakk>p \<noteq> []; length p < 2 ^ 64; payloadLen f = of_nat (length p); 0 \<le> connectionFd w;
       rx_stream (rx w) = body p @ rest\<rbrakk> \<Longrightarrow>
       \<exists>f' es. vDecodeMessage vt f w = (True, f', w\<lparr>rx := es\<rparr>) \<and> payload f' = p \<and> rx_stream es = rest"
begin

lemma ReadPayload_frame:
  assumes p: "p \<noteq> []" "length p < 2 ^ 64" and fd: "0 \<le> connectionFd w"
    and len: "payloadLen f = ucast (payload_len_field (length p))"
    and st: "rx_stream (rx w) = ext_length (length p) @ body p @ rest"
  obtains f' es where "ReadPayload vt f w = (True, f', w\<lparr>rx := es\<rparr>)" "payload f' = p" "rx_stream es = rest"
proof (cases rule: payload_len_field_cases [of "length p"])
  case one
  have "payloadLen f = of_nat (length p)" "payloadLen f \<noteq> 126" "payloadLen f \<noteq> 127"
    using one len by (auto simp: word_unat_eq_iff unsigned_of_nat take_bit_nat_eq_self unsigned_ucast_eq)
  with one st p fd decode_body [of p f w rest] that show ?thesis
    by (auto simp: ReadPayload_def ext_length_def)
next
  case two
  let ?ext = "PushNumberPerByte [] (of_nat (length p) :: u16)"
  from two st fd obtain es where es: "RecvUnderLock 2 w = (Some ?ext, w\<lparr>rx := es\<rparr>)"
    "rx_stream es = body p @ rest"
    by (auto simp: ext_length_def elim: RecvUnderLock_stream [of w ?ext "body p @ rest" 2])
  have "(ucast (of_nat (length p) :: u16) :: u64) = of_nat (length p)"
    using two by (simp add: word_unat_eq_iff unsigned_of_nat take_bit_nat_eq_self unsigned_ucast_eq)
  then have "payloadLen (f\<lparr>payloadLen := NetToHostLongLong (Some ?ext) 2\<rparr>) = of_nat (length p)"
    by (simp add: NetToHost_PushNumber16)
  from decode_body [OF p this, of "w\<lparr>rx := es\<rparr>" rest] es fd two len that show ?thesis
    by (auto simp: ReadPayload_def)
next
  case eight
  let ?ext = "PushNumberPerByte [] (of_nat (length p) :: u64)"
  from eight st fd obtain es where es: "RecvUnderLock 8 w = (Some ?ext, w\<lparr>rx := es\<rparr>)"
    "rx_stream es = body p @ rest"
    by (auto simp: ext_length_def elim: RecvUnderLock_stream [of w ?ext "body p @ rest" 8])
  have "payloadLen (f\<lparr>payloadLen := NetToHostLongLong (Some ?ext) 8\<rparr>) = of_nat (length p)"
    by (simp add: NetToHost_PushNumber64)
  from decode_body [OF p this, of "w\<lparr>rx := es\<rparr>" rest] es fd eight len that show ?thesis
    by (auto simp: ReadPayload_def)
qed

lemma header_read:
  assumes "0 \<le> connectionFd w" "rx_stream (rx w) = frame l t p @ rest"
  obtains es where "RecvUnderLock HEADER_LEN w = (Some [first_byte l t, second_byte p], w\<lparr>rx := es\<rparr>)"
    "rx_stream es = ext_length (length p) @ body p @ rest"
  using assms
  by (auto simp: frame_layout elim: RecvUnderLock_stream [of w "[_, _]" "ext_length (length p) @ body p @ rest" 2])

lemma Decode_text:
  assumes "connectionState w = OPEN" "0 \<le> connectionFd w" "p \<noteq> []" "length p < 2 ^ 64"
    "rx_stream (rx w) = frame l TEXT p @ rest"
  obtains es where "Decode vt w = (p, w\<lparr>rx := es\<rparr>)" "rx_stream es = rest"
proof -
  let ?f = "frame_of_header (first_byte l TEXT) (second_byte p)"
  obtain es where h: "RecvUnderLock HEADER_LEN w = (Some [first_byte l TEXT, second_byte p], w\<lparr>rx := es\<rparr>)"
    and es: "rx_stream es = ext_length (length p) @ body p @ rest"
    using header_read [OF assms(2,5)] by blast
  obtain f' es' where r: "ReadPayload vt ?f (w\<lparr>rx := es\<rparr>) = (True, f', w\<lparr>rx := es'\<rparr>)"
    "payload f' = p" "rx_stream es' = rest"
    using ReadPayload_frame [of p "w\<lparr>rx := es\<rparr>" ?f rest] assms es by (auto simp: length_field)
  have "Decode vt w = (p, w\<lparr>rx := es'\<rparr>)"
    using assms(1) h r accepted by (simp add: Decode_def Let_def HandleFrame_def HandleDataFrame_def)
  with r that show ?thesis by blast
qed

lemma Decode_ping:
  assumes "connectionState w = OPEN" "0 \<le> connectionFd w" "p \<noteq> []" "length p < 2 ^ 64"
    "rx_stream (rx w) = frame l PING p @ rest"
  obtains es where "Decode vt w = (p, SendPongFrame vt p (w\<lparr>rx := es\<rparr>))" "rx_stream es = rest"
proof -
  let ?f = "frame_of_header (first_byte l PING) (second_byte p)"
  obtain es where h: "RecvUnderLock HEADER_LEN w = (Some [first_byte l PING, second_byte p], w\<lparr>rx := es\<rparr>)"
    and es: "rx_stream es = ext_length (length p) @ body p @ rest"
    using header_read [OF assms(2,5)] by blast
  obtain f' es' where r: "ReadPayload vt ?f (w\<lparr>rx := es\<rparr>) = (True, f', w\<lparr>rx := es'\<rparr>)"
    "payload f' = p" "rx_stream es' = rest"
    using ReadPayload_frame [of p "w\<lparr>rx := es\<rparr>" ?f rest] assms es by (auto simp: length_field)
  have "Decode vt w = (p, SendPongFrame vt p (w\<lparr>rx := es'\<rparr>))"
    using assms(1) h r accepted by (simp add: Decode_def Let_def HandleFrame_def HandleControlFrame_def)
  with r that show ?thesis by blast
qed

text \<open>A data frame that is not text is accepted with an empty message and its body is left unread.\<close>

lemma Decode_other_data:
  assumes "connectionState w = OPEN" "0 \<le> connectionFd w" "t = BINARY \<or> t = CONTINUATION"
    "rx_stream (rx w) = frame l t p @ rest"
  obtains es where "Decode vt w = ([], w\<lparr>rx := es\<rparr>)" "rx_stream es = ext_length (length p) @ body p @ rest"
proof -
  obtain es where h: "RecvUnderLock HEADER_LEN w = (Some [first_byte l t, second_byte p], w\<lparr>rx := es\<rparr>)"
    and es: "rx_stream es = ext_length (length p) @ body p @ rest"
    using header_read [OF assms(2,4)] by blast
  have "payload (frame_of_header (first_byte l t) (second_byte p)) = []"
    by (simp add: frame_of_header_def)
  then have "Decode vt w = ([], w\<lparr>rx := es\<rparr>)"
    using assms(1,3) h accepted by (auto simp: Decode_def Let_def HandleFrame_def HandleDataFrame_def)
  with es that show ?thesis by blast
qed

end

end
