(* ===== verification/Std_String.thy ===== *)
theory Std_String
  imports Prelude "HOL-Library.Sublist"
begin

text \<open>
  The operations of \<^verbatim>\<open>std::string\<close>, \<^verbatim>\<open><cctype>\<close> and \<^verbatim>\<open><regex>\<close> that the sources use, as
  functions on lists. A position is a \<open>nat\<close>; a search returns \<open>None\<close> for \<^verbatim>\<open>npos\<close>, which
  every position is before.
\<close>

section \<open>Searching\<close>

fun find_sub :: "'a list \<Rightarrow> 'a list \<Rightarrow> nat option" where
  "find_sub n [] = (if n = [] then Some 0 else None)"
| "find_sub n (c # cs) = (if prefix n (c # cs) then Some 0 else map_option Suc (find_sub n cs))"

definition find_from :: "'a list \<Rightarrow> 'a list \<Rightarrow> nat \<Rightarrow> nat option" where
  "find_from n s pos = (if pos \<le> length s then map_option ((+) pos) (find_sub n (drop pos s)) else None)"

fun find_pred :: "('a \<Rightarrow> bool) \<Rightarrow> 'a list \<Rightarrow> nat option" where
  "find_pred P [] = None"
| "find_pred P (c # cs) = (if P c then Some 0 else map_option Suc (find_pred P cs))"

definition find_pred_from :: "('a \<Rightarrow> bool) \<Rightarrow> 'a list \<Rightarrow> nat \<Rightarrow> nat option" where
  "find_pred_from P s pos =
     (if pos \<le> length s then map_option ((+) pos) (find_pred P (drop pos s)) else None)"

definition before :: "nat \<Rightarrow> nat option \<Rightarrow> bool" where
  "before p q = (case q of None \<Rightarrow> True | Some e \<Rightarrow> p < e)"

text \<open>\<open>s.substr(p, q - p)\<close>: to the end of the string when \<open>q\<close> is \<^verbatim>\<open>npos\<close>.\<close>

definition substr_upto :: "'a list \<Rightarrow> nat \<Rightarrow> nat option \<Rightarrow> 'a list" where
  "substr_upto s p q = (case q of None \<Rightarrow> drop p s | Some e \<Rightarrow> take (e - p) (drop p s))"

section \<open>Characters\<close>

definition std_tolower :: "char \<Rightarrow> char" where
  "std_tolower c =
     (if 65 \<le> (of_char c :: nat) \<and> (of_char c :: nat) \<le> 90 then char_of (of_char c + 32 :: nat) else c)"

definition std_isspace :: "char \<Rightarrow> bool" where
  "std_isspace c \<longleftrightarrow> (of_char c :: nat) = 32 \<or> (9 \<le> (of_char c :: nat) \<and> (of_char c :: nat) \<le> 13)"

definition std_isdigit :: "char \<Rightarrow> bool" where
  "std_isdigit c \<longleftrightarrow> 48 \<le> (of_char c :: nat) \<and> (of_char c :: nat) \<le> 57"

section \<open>Regular expressions\<close>

text \<open>
  \<^verbatim>\<open>std::regex_match\<close> decides whether the whole string belongs to the expression's
  language; it is computed by derivatives.
\<close>

datatype re = Empty | Eps | Chr "char \<Rightarrow> bool" | Seq re re | Alt re re | Star re

fun nullable :: "re \<Rightarrow> bool" where
  "nullable Empty = False"
| "nullable Eps = True"
| "nullable (Chr P) = False"
| "nullable (Seq r s) = (nullable r \<and> nullable s)"
| "nullable (Alt r s) = (nullable r \<or> nullable s)"
| "nullable (Star r) = True"

fun deriv :: "char \<Rightarrow> re \<Rightarrow> re" where
  "deriv c Empty = Empty"
| "deriv c Eps = Empty"
| "deriv c (Chr P) = (if P c then Eps else Empty)"
| "deriv c (Seq r s) = (if nullable r then Alt (Seq (deriv c r) s) (deriv c s) else Seq (deriv c r) s)"
| "deriv c (Alt r s) = Alt (deriv c r) (deriv c s)"
| "deriv c (Star r) = Seq (deriv c r) (Star r)"

fun regex_match :: "re \<Rightarrow> string \<Rightarrow> bool" where
  "regex_match r [] = nullable r"
| "regex_match r (c # cs) = regex_match (deriv c r) cs"

definition re_string :: "(char \<Rightarrow> char \<Rightarrow> bool) \<Rightarrow> string \<Rightarrow> re" where
  "re_string eq s = foldr (\<lambda>c. Seq (Chr (eq c))) s Eps"

definition re_opt :: "re \<Rightarrow> re" where
  "re_opt r = Alt r Eps"

definition re_plus :: "re \<Rightarrow> re" where
  "re_plus r = Seq r (Star r)"

text \<open>\<open>.\<close> of the ECMAScript grammar: anything but a line terminator.\<close>

definition re_dot :: re where
  "re_dot = Chr (\<lambda>c. c \<noteq> CHR 0x0A \<and> c \<noteq> CHR 0x0D)"

text \<open>The characters that \<^verbatim>\<open>regex_constants::icase\<close> takes for \<open>a\<close>.\<close>

definition icase_eq :: "char \<Rightarrow> char \<Rightarrow> bool" where
  "icase_eq a c \<longleftrightarrow> std_tolower a = std_tolower c"

section \<open>Lemmas: searching\<close>

lemma find_sub_Some:
  "find_sub n s = Some i \<Longrightarrow> prefix n (drop i s) \<and> i + length n \<le> length s"
  by (induction n s arbitrary: i rule: find_sub.induct)
    (auto split: if_splits dest: prefix_length_le)

lemma find_sub_first: "find_sub n s = Some i \<Longrightarrow> j < i \<Longrightarrow> \<not> prefix n (drop j s)"
proof (induction n s arbitrary: i j rule: find_sub.induct)
  case (2 n c cs)
  then show ?case by (cases j) (auto split: if_splits)
qed (auto split: if_splits)

lemma find_sub_None_iff: "find_sub n s = None \<longleftrightarrow> (\<forall>i. \<not> prefix n (drop i s))"
proof (induction n s rule: find_sub.induct)
  case (2 n c cs)
  show ?case
  proof
    assume "find_sub n (c # cs) = None"
    with 2 show "\<forall>i. \<not> prefix n (drop i (c # cs))"
      by (auto split: if_splits simp: drop_Cons split: nat.splits)
  next
    assume a: "\<forall>i. \<not> prefix n (drop i (c # cs))"
    have "\<not> prefix n (drop i cs)" for i using a [rule_format, of "Suc i"] by simp
    with a [rule_format, of 0] 2 show "find_sub n (c # cs) = None" by auto
  qed
qed auto

text \<open>Skipping a part of the text in which no occurrence starts.\<close>

lemma find_sub_skip:
  "(\<And>i. i < length xs \<Longrightarrow> \<not> prefix n (drop i (xs @ ys))) \<Longrightarrow>
   find_sub n (xs @ ys) = map_option ((+) (length xs)) (find_sub n ys)"
proof (induction xs)
  case Nil
  show ?case by (cases "find_sub n ys") auto
next
  case (Cons x xs)
  have "\<not> prefix n (x # xs @ ys)" using Cons.prems [of 0] by simp
  moreover have "\<not> prefix n (drop i (xs @ ys))" if "i < length xs" for i
    using Cons.prems [of "Suc i"] that by simp
  ultimately show ?case using Cons.IH by (cases "find_sub n ys") auto
qed

lemma prefix_nth: "prefix n s \<Longrightarrow> j < length n \<Longrightarrow> s ! j = n ! j"
  by (auto simp: prefix_def nth_append)

text \<open>In particular, when the character at some place of the word occurs nowhere it would have to.\<close>

lemma find_sub_skip_char:
  assumes "j < length n" "n ! j \<notin> set xs" "n ! j \<notin> set (take j ys)"
  shows "find_sub n (xs @ ys) = map_option ((+) (length xs)) (find_sub n ys)"
proof (rule find_sub_skip)
  fix i assume i: "i < length xs"
  show "\<not> prefix n (drop i (xs @ ys))"
  proof
    assume p: "prefix n (drop i (xs @ ys))"
    have "i \<le> length (xs @ ys)" using i by simp
    then have c: "(xs @ ys) ! (i + j) = n ! j"
      using prefix_nth [OF p assms(1)] by (simp only: nth_drop)
    have l: "i + j < length (xs @ ys)"
      using i prefix_length_le [OF p] assms(1) by auto
    show False
    proof (cases "i + j < length xs")
      case True
      with c have "xs ! (i + j) = n ! j" by (simp add: nth_append)
      with True assms(2) show False by (metis nth_mem)
    next
      case False
      let ?k = "i + j - length xs"
      from False c have "ys ! ?k = n ! j" by (simp add: nth_append)
      moreover have "?k < length (take j ys)" using False i l by auto
      ultimately show False using assms(3) by (metis nth_mem nth_take i False add.commute
          less_diff_conv2 nat_add_left_cancel_less not_less)
    qed
  qed
qed

lemma find_pred_Some:
  "find_pred P s = Some i \<Longrightarrow> i < length s \<and> P (s ! i) \<and> (\<forall>j<i. \<not> P (s ! j))"
proof (induction P s arbitrary: i rule: find_pred.induct)
  case (2 P c cs)
  then show ?case by (auto split: if_splits simp: nth_Cons split: nat.splits)
qed simp

lemma find_pred_None_iff: "find_pred P s = None \<longleftrightarrow> (\<forall>c\<in>set s. \<not> P c)"
  by (induction s) auto

section \<open>Lemmas: regular expressions\<close>

lemma regex_match_Empty [simp]: "\<not> regex_match Empty s"
  by (induction s) auto

lemma regex_match_Eps [simp]: "regex_match Eps s \<longleftrightarrow> s = []"
  by (cases s) auto

lemma regex_match_Alt [simp]: "regex_match (Alt r t) s \<longleftrightarrow> regex_match r s \<or> regex_match t s"
  by (induction s arbitrary: r t) auto

lemma regex_match_Chr [simp]: "regex_match (Chr P) s \<longleftrightarrow> (\<exists>c. s = [c] \<and> P c)"
  by (cases s) auto

lemma ex_append_Cons:
  "(\<exists>u v. c # cs = u @ v \<and> P u \<and> Q v) \<longleftrightarrow>
   (P [] \<and> Q (c # cs)) \<or> (\<exists>u v. cs = u @ v \<and> P (c # u) \<and> Q v)"
  by (auto simp: Cons_eq_append_conv)

lemma regex_match_Seq:
  "regex_match (Seq r t) s \<longleftrightarrow> (\<exists>u v. s = u @ v \<and> regex_match r u \<and> regex_match t v)"
proof (induction s arbitrary: r)
  case (Cons c cs)
  then show ?case by (auto simp: ex_append_Cons)
qed simp

lemma regex_match_SeqI: "regex_match r u \<Longrightarrow> regex_match t v \<Longrightarrow> regex_match (Seq r t) (u @ v)"
  by (auto simp: regex_match_Seq)

lemma regex_match_Seq_Chr [simp]:
  "regex_match (Seq (Chr P) t) s \<longleftrightarrow> (\<exists>c cs. s = c # cs \<and> P c \<and> regex_match t cs)"
  by (cases s) (auto simp: regex_match_Seq)

lemma regex_match_Star_Chr: "regex_match (Star (Chr P)) s \<longleftrightarrow> (\<forall>c\<in>set s. P c)"
proof (induction s)
  case (Cons c cs)
  have "regex_match (Seq Eps (Star (Chr P))) cs \<longleftrightarrow> regex_match (Star (Chr P)) cs"
    by (simp add: regex_match_Seq)
  moreover have "\<not> regex_match (Seq Empty (Star (Chr P))) cs"
    by (simp add: regex_match_Seq)
  ultimately show ?case using Cons.IH by simp
qed simp

lemma regex_match_string: "regex_match (re_string (=) w) s \<longleftrightarrow> s = w"
  by (induction w arbitrary: s) (auto simp: re_string_def)

lemma regex_match_istring:
  "regex_match (re_string icase_eq w) s \<longleftrightarrow> map std_tolower s = map std_tolower w"
  by (induction w arbitrary: s) (auto simp: re_string_def icase_eq_def)

end
