(* ===== verification/Http.thy ===== *)
theory Http
  imports Std_String
begin

text \<open>
  The HTTP side of the opening handshake: \<^verbatim>\<open>websocket/string_utils.h\<close> and
  \<^verbatim>\<open>websocket/http.{h,cpp}\<close>. A parsed message is a record; \<open>Decode\<close> takes the record the
  caller passed by reference and returns it updated, with the verdict.
\<close>

section \<open>string\_utils.h\<close>

definition TrimLeft :: "string \<Rightarrow> string" where
  "TrimLeft str = dropWhile std_isspace str"

definition TrimRight :: "string \<Rightarrow> string" where
  "TrimRight str = rev (dropWhile std_isspace (rev str))"

definition Trim :: "string \<Rightarrow> string" where
  "Trim str = TrimRight (TrimLeft str)"

definition ToLowerCase :: "string \<Rightarrow> string" where
  "ToLowerCase str = map std_tolower str"

section \<open>Header texts\<close>

definition EOL :: string where "EOL = [CHR 0x0D, CHR 0x0A]"
definition GET :: string where "GET = ''GET''"
definition CONNECTION :: string where "CONNECTION = ''Connection: ''"
definition UPGRADE :: string where "UPGRADE = ''Upgrade: ''"
definition ORIGIN :: string where "ORIGIN = ''Origin: ''"
definition SEC_WEBSOCKET_ACCEPT :: string where "SEC_WEBSOCKET_ACCEPT = ''Sec-WebSocket-Accept: ''"
definition SEC_WEBSOCKET_KEY :: string where "SEC_WEBSOCKET_KEY = ''Sec-WebSocket-Key: ''"

lemmas header_texts = EOL_def GET_def CONNECTION_def UPGRADE_def ORIGIN_def
  SEC_WEBSOCKET_ACCEPT_def SEC_WEBSOCKET_KEY_def

definition DecodeHeader :: "string \<Rightarrow> string \<Rightarrow> string" where
  "DecodeHeader headersText headerName =
     (case find_from headerName headersText 0 of
        None \<Rightarrow> []
      | Some startPos \<Rightarrow>
          let endOfLinePos = find_from EOL headersText startPos;
              startPos' = startPos + length headerName
          in if startPos' < length headersText \<and> before startPos' endOfLinePos
             then substr_upto headersText startPos' endOfLinePos else [])"

section \<open>Requests\<close>

record HttpRequest =
  req_version :: string
  req_connection :: string
  req_upgrade :: string
  req_secWebSocketKey :: string
  req_origin :: string

definition HttpRequest_new :: HttpRequest where
  "HttpRequest_new = \<lparr>req_version = [], req_connection = [], req_upgrade = [],
     req_secWebSocketKey = [], req_origin = []\<rparr>"

definition localUrlRegex :: re where
  "localUrlRegex =
     Seq (Seq (re_string icase_eq ''http'') (Seq (re_opt (Chr (icase_eq (CHR ''s''))))
           (re_string icase_eq ''://'')))
     (Seq (Alt (re_string icase_eq ''localhost'')
            (Alt (re_string icase_eq ''127.0.0.1'') (re_string icase_eq ''[::1]'')))
          (re_opt (Seq (Chr (icase_eq (CHR '':''))) (re_plus (Chr std_isdigit)))))"

definition httpPrefixRegex :: re where
  "httpPrefixRegex =
     Seq (Seq (re_string (=) ''http'') (Seq (re_opt (Chr ((=) (CHR ''s'')))) (re_string (=) ''://'')))
         (Star re_dot)"

definition ValidateHttpRequestOrigin :: "string \<Rightarrow> bool" where
  "ValidateHttpRequestOrigin httpRequestOrigin =
     (if httpRequestOrigin = [] then True
      else if \<not> regex_match httpPrefixRegex httpRequestOrigin then True
      else regex_match localUrlRegex httpRequestOrigin)"

definition HttpRequest_DecodeVersion :: "string \<Rightarrow> nat \<Rightarrow> string" where
  "HttpRequest_DecodeVersion request methodStartPos =
     (if methodStartPos \<ge> length request then []
      else let endOfLinePos = find_from EOL request methodStartPos;
               sp1 = find_from '' '' request methodStartPos;
               sp2 = (case sp1 of None \<Rightarrow> None | Some i \<Rightarrow> find_from '' '' request (i + 1))
           in case sp2 of
                None \<Rightarrow> []
              | Some i \<Rightarrow> if i + 1 < length request \<and> before (i + 1) endOfLinePos
                          then substr_upto request (i + 1) endOfLinePos else [])"

definition HttpRequest_Decode :: "string \<Rightarrow> HttpRequest \<Rightarrow> bool \<times> HttpRequest" where
  "HttpRequest_Decode request parsed =
     (case find_from GET request 0 of
        None \<Rightarrow> (False, parsed)
      | Some pos \<Rightarrow>
          let parsed' = parsed\<lparr>req_version := HttpRequest_DecodeVersion request pos,
                req_connection := DecodeHeader request CONNECTION,
                req_upgrade := DecodeHeader request UPGRADE,
                req_secWebSocketKey := DecodeHeader request SEC_WEBSOCKET_KEY,
                req_origin := DecodeHeader request ORIGIN\<rparr>
          in (ValidateHttpRequestOrigin (req_origin parsed'), parsed'))"

section \<open>Responses\<close>

record HttpResponse =
  rsp_version :: string
  rsp_status :: string
  rsp_connection :: string
  rsp_upgrade :: string
  rsp_secWebSocketAccept :: string

definition HttpResponse_new :: HttpResponse where
  "HttpResponse_new = \<lparr>rsp_version = [], rsp_status = [], rsp_connection = [], rsp_upgrade = [],
     rsp_secWebSocketAccept = []\<rparr>"

definition HttpResponse_DecodeVersion :: "string \<Rightarrow> nat \<Rightarrow> string" where
  "HttpResponse_DecodeVersion response versionStartPos =
     (if versionStartPos < length response then
        (case find_from '' '' response versionStartPos of
           None \<Rightarrow> []
         | Some versionEndPos \<Rightarrow> substr_upto response versionStartPos (Some versionEndPos))
      else [])"

definition HttpResponse_DecodeStatus :: "string \<Rightarrow> nat \<Rightarrow> string" where
  "HttpResponse_DecodeStatus response versionEndPos =
     (if versionEndPos < length response \<and> response ! versionEndPos = CHR '' '' then
        (case find_pred_from (\<lambda>c. c \<noteq> CHR '' '') response versionEndPos of
           None \<Rightarrow> []
         | Some statusStartPos \<Rightarrow>
             let e = find_from '' '' response statusStartPos;
                 statusEndPos = (if e = None then find_from EOL response statusStartPos else e)
             in (case statusEndPos of None \<Rightarrow> []
                 | Some q \<Rightarrow> substr_upto response statusStartPos (Some q)))
      else [])"

definition HttpResponse_Decode :: "string \<Rightarrow> HttpResponse \<Rightarrow> bool \<times> HttpResponse" where
  "HttpResponse_Decode response parsed =
     (case find_from ''HTTP'' response 0 of
        None \<Rightarrow> (False, parsed)
      | Some versionStartPos \<Rightarrow>
          let v = HttpResponse_DecodeVersion response versionStartPos
          in (True, parsed\<lparr>rsp_version := v,
                rsp_status := HttpResponse_DecodeStatus response (versionStartPos + length v),
                rsp_connection := DecodeHeader response CONNECTION,
                rsp_upgrade := DecodeHeader response UPGRADE,
                rsp_secWebSocketAccept := DecodeHeader response SEC_WEBSOCKET_ACCEPT\<rparr>))"

section \<open>Lemmas: headers\<close>

text \<open>
  A header whose name first occurs right before its value, with the value free of line
  ends, is read back exactly.
\<close>

lemma find_sub_append_first:
  assumes "find_sub n (pre @ n @ rest) = Some (length pre)"
  shows "find_from n (pre @ n @ rest) 0 = Some (length pre)"
  using assms by (simp add: find_from_def)

lemma find_sub_EOL_free:
  assumes "CHR 0x0D \<notin> set v"
  shows "find_sub EOL (v @ EOL @ rest) = Some (length v)"
proof -
  have "find_sub EOL (v @ EOL @ rest) = map_option ((+) (length v)) (find_sub EOL (EOL @ rest))"
    using assms by (intro find_sub_skip_char [of 0]) (auto simp: EOL_def)
  then show ?thesis by (simp add: EOL_def)
qed

lemma DecodeHeader_value:
  assumes first: "find_sub name (pre @ name @ v @ EOL @ rest) = Some (length pre)"
    and "CHR 0x0D \<notin> set name" "CHR 0x0D \<notin> set v" "v \<noteq> []"
  shows "DecodeHeader (pre @ name @ v @ EOL @ rest) name = v"
proof -
  let ?t = "pre @ name @ v @ EOL @ rest"
  have "find_from EOL ?t (length pre) = Some (length pre + length (name @ v))"
    using find_sub_EOL_free [of "name @ v" rest] assms(2,3) by (simp add: find_from_def)
  moreover have "find_from name ?t 0 = Some (length pre)"
    using first by (simp add: find_from_def)
  ultimately show ?thesis
    using \<open>v \<noteq> []\<close> by (simp add: DecodeHeader_def before_def substr_upto_def)
qed

lemma DecodeHeader_absent:
  "find_sub name text = None \<Longrightarrow> DecodeHeader text name = []"
  by (simp add: DecodeHeader_def find_from_def)

text \<open>A header value never contains a line end.\<close>

lemma substr_upto_first:
  assumes "find_from n s p = Some e" "n \<noteq> []" "p \<le> q"
  shows "find_sub n (take (e - q) (drop q s)) = None"
proof -
  have e: "find_sub n (drop p s) = Some (e - p)" "p \<le> e"
    using assms(1) by (auto simp: find_from_def split: if_splits)
  have "\<not> prefix n (drop i (take (e - q) (drop q s)))" for i
  proof
    assume p: "prefix n (drop i (take (e - q) (drop q s)))"
    then have "length n \<le> e - q - i" using prefix_length_le [OF p] by simp
    with \<open>n \<noteq> []\<close> have lt: "q - p + i < e - p" using \<open>p \<le> q\<close> by (cases n) auto
    have "prefix n (drop i (drop q s))"
      using p by (metis drop_take prefix_order.trans take_is_prefix)
    then have "prefix n (drop (q - p + i) (drop p s))"
      using \<open>p \<le> q\<close> by (simp add: add.commute)
    with find_sub_first [OF e(1) lt] show False by simp
  qed
  then show ?thesis by (simp add: find_sub_None_iff)
qed

lemma DecodeHeader_no_EOL: "find_sub EOL (DecodeHeader text name) = None"
proof (cases "find_from name text 0")
  case None
  then show ?thesis by (simp add: DecodeHeader_def EOL_def)
next
  case (Some sp)
  show ?thesis
  proof (cases "find_from EOL text sp")
    case None
    have "find_sub EOL (drop (sp + length name) text) = None" if "sp \<le> length text"
    proof -
      from None that have "find_sub EOL (drop sp text) = None" by (simp add: find_from_def)
      then have "\<not> prefix EOL (drop (length name + i) (drop sp text))" for i
        unfolding find_sub_None_iff by blast
      then have "\<not> prefix EOL (drop i (drop (sp + length name) text))" for i
        by (metis add.assoc add.commute drop_drop)
      then show ?thesis unfolding find_sub_None_iff by blast
    qed
    moreover have "sp \<le> length text"
      using Some find_sub_Some by (fastforce simp: find_from_def split: if_splits)
    ultimately show ?thesis
      using Some None by (simp add: DecodeHeader_def substr_upto_def EOL_def before_def Let_def)
  next
    case e: (Some e)
    from substr_upto_first [OF e, of "sp + length name"] show ?thesis
      using Some e by (simp add: DecodeHeader_def substr_upto_def EOL_def Let_def)
  qed
qed

section \<open>Lemmas: the origin check\<close>

lemma regex_match_string_Seq:
  "regex_match (Seq (re_string (=) w) t) s \<longleftrightarrow> (\<exists>v. s = w @ v \<and> regex_match t v)"
  by (simp add: regex_match_Seq regex_match_string)

lemma regex_match_opt_Seq:
  "regex_match (Seq (re_opt r) t) s \<longleftrightarrow> regex_match t s \<or> regex_match (Seq r t) s"
  by (auto simp: regex_match_Seq re_opt_def)

lemma regex_match_Seq_assoc:
  "regex_match (Seq (Seq r t) u) s \<longleftrightarrow> regex_match (Seq r (Seq t u)) s"
  by (simp add: regex_match_Seq) (metis append.assoc)

lemma httpPrefixRegex_iff:
  "regex_match httpPrefixRegex s \<longleftrightarrow>
   (\<exists>rest. (s = ''http://'' @ rest \<or> s = ''https://'' @ rest) \<and> (\<forall>c\<in>set rest. c \<noteq> CHR 0x0A \<and> c \<noteq> CHR 0x0D))"
  unfolding httpPrefixRegex_def re_dot_def regex_match_Seq_assoc regex_match_string_Seq regex_match_opt_Seq
    regex_match_Seq_Chr regex_match_Star_Chr
  by auto

definition http_scheme :: "string \<Rightarrow> bool" where
  "http_scheme u \<longleftrightarrow> map std_tolower u \<in> {''http://'', ''https://''}"

definition local_host :: "string \<Rightarrow> bool" where
  "local_host h \<longleftrightarrow> map std_tolower h \<in> {''localhost'', ''127.0.0.1'', ''[::1]''}"

definition port_suffix :: "string \<Rightarrow> bool" where
  "port_suffix p \<longleftrightarrow> p = [] \<or> (\<exists>ds. p = CHR '':'' # ds \<and> ds \<noteq> [] \<and> (\<forall>d\<in>set ds. std_isdigit d))"

lemma icase_eq_iff: "icase_eq a c \<longleftrightarrow> std_tolower c = std_tolower a"
  by (auto simp: icase_eq_def)

lemma tolower_texts:
  "map std_tolower ''http'' = ''http''" "map std_tolower ''://'' = ''://''" "map std_tolower ''s'' = ''s''"
  "map std_tolower ''localhost'' = ''localhost''" "map std_tolower ''127.0.0.1'' = ''127.0.0.1''"
  "map std_tolower ''[::1]'' = ''[::1]''"
  by (simp_all add: std_tolower_def)

lemma std_tolower_colon: "std_tolower c = std_tolower (CHR '':'') \<longleftrightarrow> c = CHR '':''"
proof -
  have "std_tolower c = CHR '':'' \<longleftrightarrow> c = CHR '':''"
  proof (cases "65 \<le> (of_char c :: nat) \<and> (of_char c :: nat) \<le> 90")
    case True
    then have "(of_char (std_tolower c) :: nat) = of_char c + 32"
      by (simp add: std_tolower_def)
    with True have "(of_char (std_tolower c) :: nat) \<noteq> of_char (CHR '':'')" by simp
    moreover have "(of_char c :: nat) \<noteq> of_char (CHR '':'')" using True by auto
    ultimately show ?thesis by metis
  qed (auto simp: std_tolower_def)
  then show ?thesis by (simp add: std_tolower_def)
qed

lemma regex_match_scheme:
  "regex_match (Seq (re_string icase_eq w) (Seq (re_opt (Chr (icase_eq c))) (re_string icase_eq v))) u \<longleftrightarrow>
   map std_tolower u = map std_tolower (w @ v) \<or> map std_tolower u = map std_tolower (w @ c # v)"
proof -
  have "(\<exists>a b. u = a @ b \<and> map std_tolower a = x \<and> map std_tolower b = y) \<longleftrightarrow> map std_tolower u = x @ y" for x y
    unfolding map_eq_append_conv by blast
  moreover have "regex_match (Seq (Chr (icase_eq c)) (re_string icase_eq v)) b \<longleftrightarrow>
      map std_tolower b = map std_tolower (c # v)" for b
    unfolding regex_match_Seq_Chr regex_match_istring icase_eq_iff by (cases b) auto
  ultimately show ?thesis
    by (simp only: regex_match_Seq [of "re_string icase_eq w"] regex_match_opt_Seq
        regex_match_istring map_append conj_disj_distribL ex_disj_distrib)
qed

text \<open>The scheme \<open>http\<close> or \<open>https\<close> in any case, a loopback host, and at most a port.\<close>

lemma regex_match_Seq3:
  "regex_match (Seq a (Seq b c)) s \<longleftrightarrow>
   (\<exists>x y z. s = x @ y @ z \<and> regex_match a x \<and> regex_match b y \<and> regex_match c z)"
  unfolding regex_match_Seq by auto

lemma regex_scheme:
  "regex_match (Seq (re_string icase_eq ''http'') (Seq (re_opt (Chr (icase_eq (CHR ''s''))))
     (re_string icase_eq ''://''))) u \<longleftrightarrow> http_scheme u"
  unfolding regex_match_scheme http_scheme_def by (simp add: std_tolower_def)

lemma regex_host:
  "regex_match (Alt (re_string icase_eq ''localhost'')
     (Alt (re_string icase_eq ''127.0.0.1'') (re_string icase_eq ''[::1]''))) u \<longleftrightarrow> local_host u"
  unfolding regex_match_Alt regex_match_istring tolower_texts local_host_def by simp

lemma regex_port:
  "regex_match (re_opt (Seq (Chr (icase_eq (CHR '':''))) (re_plus (Chr std_isdigit)))) u \<longleftrightarrow> port_suffix u"
  unfolding re_opt_def re_plus_def port_suffix_def
  by (auto simp: regex_match_Star_Chr icase_eq_iff std_tolower_colon neq_Nil_conv)

lemma localUrlRegex_iff:
  "regex_match localUrlRegex s \<longleftrightarrow>
   (\<exists>scheme host port. s = scheme @ host @ port \<and>
      http_scheme scheme \<and> local_host host \<and> port_suffix port)"
  unfolding localUrlRegex_def
  by (subst regex_match_Seq3, unfold regex_scheme regex_host regex_port, rule refl)

section \<open>Properties\<close>

text \<open>The two shapes the regular expressions stand for.\<close>

definition http_url_line :: "string \<Rightarrow> bool" where
  "http_url_line orig \<longleftrightarrow>
     (\<exists>rest. (orig = ''http://'' @ rest \<or> orig = ''https://'' @ rest) \<and>
        (\<forall>c\<in>set rest. c \<noteq> CHR 0x0A \<and> c \<noteq> CHR 0x0D))"

definition loopback_url :: "string \<Rightarrow> bool" where
  "loopback_url orig \<longleftrightarrow>
     (\<exists>scheme host port. orig = scheme @ host @ port \<and> http_scheme scheme \<and> local_host host \<and> port_suffix port)"

text \<open>
  C14. The origins the server refuses: the ones that are a \<open>http://\<close> or \<open>https://\<close> prefix
  (in lower case) followed by one line, and are not a loopback address under either scheme, in any
  case, with at most a port of digits. A missing origin and any other text is let through.
\<close>

theorem ValidateHttpRequestOrigin_iff:
  "\<not> ValidateHttpRequestOrigin orig \<longleftrightarrow> orig \<noteq> [] \<and> http_url_line orig \<and> \<not> loopback_url orig"
  unfolding ValidateHttpRequestOrigin_def http_url_line_def loopback_url_def
    httpPrefixRegex_iff [symmetric] localUrlRegex_iff [symmetric] by simp

text \<open>
  C15. A request that \<open>Decode\<close> accepts has an allowed origin, and no header value it
  returns contains a line end.
\<close>

theorem HttpRequest_Decode_accepted:
  assumes "HttpRequest_Decode request parsed = (True, req)"
  shows "ValidateHttpRequestOrigin (req_origin req) \<and>
    find_sub EOL (req_origin req) = None \<and> find_sub EOL (req_connection req) = None \<and>
    find_sub EOL (req_upgrade req) = None \<and> find_sub EOL (req_secWebSocketKey req) = None"
  using assms DecodeHeader_no_EOL by (auto simp: HttpRequest_Decode_def Let_def split: option.splits)

theorem HttpRequest_Decode_accepted_witness:
  "\<exists>req. HttpRequest_Decode ''GET / HTTP/1.1'' HttpRequest_new = (True, req) \<and> find_sub EOL (req_origin req) = None"
proof -
  have "\<exists>req. HttpRequest_Decode ''GET / HTTP/1.1'' HttpRequest_new = (True, req)"
    by (simp add: HttpRequest_Decode_def HttpRequest_DecodeVersion_def DecodeHeader_def find_from_def header_texts
        ValidateHttpRequestOrigin_def)
  with HttpRequest_Decode_accepted show ?thesis by blast
qed

end
