(* ===== verification/Handshake.thy ===== *)
theory Handshake
  imports Http Network
begin

text \<open>
  The helpers of the opening handshake (\<^verbatim>\<open>websocket/handshake_helper.{h,cpp}\<close>): the
  WebSocket keys and the buffer with the server's answer. OpenSSL is not part of the
  sources: \<open>SHA1\<close> and \<open>EVP_EncodeBlock\<close> are arguments, and what is assumed of them is
  \<open>sha1_contract\<close> and \<open>evp_contract\<close>, their documented behaviour. A buffer is the list of
  its bytes and a write outside of it is the value \<open>None\<close>.
\<close>

section \<open>OpenSSL\<close>

record openssl =
  SHA1 :: "byte list \<Rightarrow> byte list"
  EVP_EncodeBlock :: "byte list \<Rightarrow> byte list \<times> int"

definition SHA_DIGEST_LENGTH :: nat where "SHA_DIGEST_LENGTH = 20"

definition base64_alphabet :: "byte list" where
  "base64_alphabet = bytes_of ''ABCDEFGHIJKLMNOPQRSTUVWXYZabcdefghijklmnopqrstuvwxyz0123456789+/=''"

definition sha1_contract :: "(byte list \<Rightarrow> byte list) \<Rightarrow> bool" where
  "sha1_contract sha \<longleftrightarrow> (\<forall>bs. length (sha bs) = SHA_DIGEST_LENGTH)"

text \<open>
  Every three bytes become four characters, the last group is padded, a NUL is written
  after them, and the result is the number of characters without it.
\<close>

definition evp_contract :: "(byte list \<Rightarrow> byte list \<times> int) \<Rightarrow> bool" where
  "evp_contract evp \<longleftrightarrow>
     (\<forall>bs. \<exists>enc. evp bs = (enc @ [0], int (length enc)) \<and>
        length enc = (length bs + 2) div 3 * 4 \<and> set enc \<subseteq> set base64_alphabet)"

section \<open>WebSocketKeyEncoder\<close>

definition WEB_SOCKET_GUID :: "byte list" where
  "WEB_SOCKET_GUID = bytes_of ''258EAFA5-E914-47DA-95CA-C5AB0DC85B11''"

definition SEC_WEBSOCKET_KEY_BYTES_LEN :: nat where "SEC_WEBSOCKET_KEY_BYTES_LEN = 16"

definition KEY_LENGTH :: nat where
  "KEY_LENGTH = GetBase64EncodingLength SEC_WEBSOCKET_KEY_BYTES_LEN"

definition ENCODED_KEY_LEN :: nat where
  "ENCODED_KEY_LEN = GetBase64EncodingLength SHA_DIGEST_LENGTH"

text \<open>\<open>rnd\<close> is what \<open>RAND_bytes\<close> returns and leaves in its buffer.\<close>

definition GenerateRandomSecWSKey :: "openssl \<Rightarrow> int \<times> byte list \<Rightarrow> byte list \<Rightarrow> bool \<times> byte list" where
  "GenerateRandomSecWSKey ssl rnd destination =
     (if fst rnd \<noteq> 1 then (False, destination)
      else let (out, encodedBytes) = EVP_EncodeBlock ssl (snd rnd);
               destination' = overwrite 0 out destination
           in if encodedBytes \<noteq> int KEY_LENGTH then (False, destination'[0 := 0])
              else (True, destination'[KEY_LENGTH := 0]))"

definition EncodeKey_raw :: "openssl \<Rightarrow> byte list \<Rightarrow> byte list option" where
  "EncodeKey_raw ssl source =
     (let hash = SHA1 ssl source; (out, encodedBytes) = EVP_EncodeBlock ssl hash
      in if encodedBytes \<noteq> int ENCODED_KEY_LEN then None else Some out)"

definition EncodeKey :: "openssl \<Rightarrow> byte list \<Rightarrow> byte list option" where
  "EncodeKey ssl key =
     (let buffer = replicate (length key + length WEB_SOCKET_GUID) 0;
          buffer1 = overwrite 0 key buffer;
          buffer2 = overwrite (length key) WEB_SOCKET_GUID buffer1
      in EncodeKey_raw ssl buffer2)"

definition EncodeKey_array :: "openssl \<Rightarrow> byte list \<Rightarrow> byte list option" where
  "EncodeKey_array ssl key =
     (let buffer = replicate (KEY_LENGTH + length WEB_SOCKET_GUID) 0;
          buffer1 = overwrite 0 (take KEY_LENGTH key) buffer;
          buffer2 = overwrite KEY_LENGTH WEB_SOCKET_GUID buffer1
      in EncodeKey_raw ssl buffer2)"

section \<open>ProtocolUpgradeBuilder\<close>

definition SWITCHING_PROTOCOLS :: "byte list" where
  "SWITCHING_PROTOCOLS = bytes_of ''HTTP/1.1 101 Switching Protocols''"
definition CONNECTION_UPGRADE :: "byte list" where
  "CONNECTION_UPGRADE = bytes_of ''Connection: Upgrade''"
definition UPGRADE_WEBSOCKET :: "byte list" where
  "UPGRADE_WEBSOCKET = bytes_of ''Upgrade: websocket''"
definition ACCEPT_KEY :: "byte list" where
  "ACCEPT_KEY = bytes_of ''Sec-WebSocket-Accept: ''"
abbreviation EOL_bytes :: "byte list" where
  "EOL_bytes \<equiv> bytes_of EOL"

definition KEY_START :: nat where
  "KEY_START = length SWITCHING_PROTOCOLS + length CONNECTION_UPGRADE + length UPGRADE_WEBSOCKET
     + length ACCEPT_KEY + 3 * length EOL"

definition MESSAGE_LENGTH :: nat where
  "MESSAGE_LENGTH = KEY_START + ENCODED_KEY_LEN + 2 * length EOL"

fun CopyStringToBuffer :: "byte list \<Rightarrow> nat \<Rightarrow> byte list \<Rightarrow> (nat \<times> byte list) option" where
  "CopyStringToBuffer [] startIndex upgradeBuffer = Some (startIndex, upgradeBuffer)"
| "CopyStringToBuffer (c # source) startIndex upgradeBuffer =
     (if startIndex < length upgradeBuffer
      then CopyStringToBuffer source (Suc startIndex) (upgradeBuffer[startIndex := c]) else None)"

text \<open>The overload for arrays leaves the last element, the terminator, out.\<close>

definition CopyArrayToBuffer :: "byte list \<Rightarrow> nat \<Rightarrow> byte list \<Rightarrow> (nat \<times> byte list) option" where
  "CopyArrayToBuffer source startIndex upgradeBuffer =
     CopyStringToBuffer (butlast source) startIndex upgradeBuffer"

fun CopyAll :: "byte list list \<Rightarrow> nat \<Rightarrow> byte list \<Rightarrow> (nat \<times> byte list) option" where
  "CopyAll [] index buf = Some (index, buf)"
| "CopyAll (s # ss) index buf =
     (case CopyStringToBuffer s index buf of None \<Rightarrow> None | Some (index', buf') \<Rightarrow> CopyAll ss index' buf')"

definition ProtocolUpgradeBuilder_new :: "byte list option" where
  "ProtocolUpgradeBuilder_new =
     (case CopyAll [SWITCHING_PROTOCOLS, EOL_bytes, CONNECTION_UPGRADE, EOL_bytes, UPGRADE_WEBSOCKET,
        EOL_bytes, ACCEPT_KEY] 0 (replicate (MESSAGE_LENGTH + 1) 0) of
        None \<Rightarrow> None
      | Some (index, buf) \<Rightarrow>
          map_option snd (CopyAll [EOL_bytes, EOL_bytes] (index + ENCODED_KEY_LEN) buf))"

definition SetKey :: "byte list \<Rightarrow> byte list \<Rightarrow> byte list option" where
  "SetKey encodedKey upgradeBuffer =
     map_option snd (CopyArrayToBuffer encodedKey KEY_START upgradeBuffer)"

definition ProtocolUpgradeBuilder_key :: "byte list \<Rightarrow> byte list option" where
  "ProtocolUpgradeBuilder_key encodedKey = Option.bind ProtocolUpgradeBuilder_new (SetKey encodedKey)"

text \<open>The \<open>GetLength()\<close> bytes at \<open>GetUpgradeMessage()\<close>.\<close>

definition GetUpgradeMessage :: "byte list \<Rightarrow> byte list" where
  "GetUpgradeMessage upgradeBuffer = take MESSAGE_LENGTH upgradeBuffer"

section \<open>Lemmas: keys\<close>

lemma key_lengths [simp]: "KEY_LENGTH = 24" "ENCODED_KEY_LEN = 28"
  by (simp_all add: KEY_LENGTH_def ENCODED_KEY_LEN_def GetBase64EncodingLength_def
      SEC_WEBSOCKET_KEY_BYTES_LEN_def SHA_DIGEST_LENGTH_def)

lemma EncodeKey_concat: "EncodeKey ssl key = EncodeKey_raw ssl (key @ WEB_SOCKET_GUID)"
  by (simp add: EncodeKey_def overwrite_def)

lemma EncodeKey_array_concat:
  "length key = KEY_LENGTH + 1 \<Longrightarrow> EncodeKey_array ssl key = EncodeKey ssl (butlast key)"
  by (simp add: EncodeKey_array_def EncodeKey_concat overwrite_def butlast_conv_take min_def)

lemma base64_alphabet_check:
  "list_all (\<lambda>c. c \<noteq> CHR 0x00 \<and> c \<noteq> CHR 0x0D \<and> c \<noteq> CHR '':'' \<and> \<not> std_isspace c)
     ''ABCDEFGHIJKLMNOPQRSTUVWXYZabcdefghijklmnopqrstuvwxyz0123456789+/=''"
  by code_simp

lemma base64_alphabet_free:
  assumes "b \<in> set base64_alphabet"
  shows "b \<noteq> 0" "char_of_byte b \<noteq> CHR 0x0D" "char_of_byte b \<noteq> CHR '':''"
    "\<not> std_isspace (char_of_byte b)"
proof -
  obtain c where c: "b = byte_of c" "c \<noteq> CHR 0x00" "c \<noteq> CHR 0x0D" "c \<noteq> CHR '':''" "\<not> std_isspace c"
    using assms base64_alphabet_check unfolding base64_alphabet_def list_all_iff set_map by blast
  moreover have "byte_of (CHR 0x00) = 0" by (simp add: byte_of_def)
  ultimately show "b \<noteq> 0" "char_of_byte b \<noteq> CHR 0x0D" "char_of_byte b \<noteq> CHR '':''"
    "\<not> std_isspace (char_of_byte b)"
    by (metis char_of_byte_of)+
qed

lemma evp_contractD:
  assumes "evp_contract evp"
  obtains enc where "evp bs = (enc @ [0], int (length enc))" "length enc = (length bs + 2) div 3 * 4"
    "set enc \<subseteq> set base64_alphabet" "0 \<notin> set enc"
  using assms base64_alphabet_free(1) [of 0] unfolding evp_contract_def by (metis subsetD)

text \<open>The key is always found: 28 characters of the alphabet and their terminator.\<close>

lemma EncodeKey_total:
  assumes "sha1_contract (SHA1 ssl)" "evp_contract (EVP_EncodeBlock ssl)"
  obtains enc where "EncodeKey ssl key = Some (enc @ [0])" "length enc = ENCODED_KEY_LEN"
    "set enc \<subseteq> set base64_alphabet" "0 \<notin> set enc"
proof -
  let ?h = "SHA1 ssl (key @ WEB_SOCKET_GUID)"
  have "length ?h = 20" using assms(1) by (simp add: sha1_contract_def SHA_DIGEST_LENGTH_def)
  then show ?thesis
    using that by (auto simp: EncodeKey_concat EncodeKey_raw_def intro: evp_contractD [OF assms(2), of ?h])
qed

lemma GenerateRandomSecWSKey_ok:
  assumes "evp_contract (EVP_EncodeBlock ssl)" "length bs = SEC_WEBSOCKET_KEY_BYTES_LEN"
    "length dst = KEY_LENGTH + 1"
  obtains enc where "GenerateRandomSecWSKey ssl (1, bs) dst = (True, enc @ [0])"
    "length enc = KEY_LENGTH" "set enc \<subseteq> set base64_alphabet" "0 \<notin> set enc"
proof -
  obtain enc where "EVP_EncodeBlock ssl bs = (enc @ [0], int (length enc))" "length enc = 24"
    "set enc \<subseteq> set base64_alphabet" "0 \<notin> set enc"
    using assms(2) by (auto intro: evp_contractD [OF assms(1), of bs] simp: SEC_WEBSOCKET_KEY_BYTES_LEN_def)
  with assms(3) that show ?thesis
    by (simp add: GenerateRandomSecWSKey_def overwrite_def list_update_append)
qed

section \<open>Lemmas: the upgrade message\<close>

lemma CopyStringToBuffer_fits:
  "i + length src \<le> length buf \<Longrightarrow>
   CopyStringToBuffer src i buf = Some (i + length src, overwrite i src buf)"
proof (induction src arbitrary: i buf)
  case (Cons c src)
  then have "CopyStringToBuffer (c # src) i buf =
      Some (Suc i + length src, overwrite (Suc i) src (buf[i := c]))" by simp
  moreover have "overwrite (Suc i) src (buf[i := c]) = overwrite i (c # src) buf"
    using Cons.prems by (simp add: overwrite_def take_Suc_conv_app_nth)
  ultimately show ?case by simp
qed (simp add: overwrite_def)

lemma CopyAll_fits:
  "length pre = i \<Longrightarrow> length mid = length (concat ss) \<Longrightarrow>
   CopyAll ss i (pre @ mid @ post) = Some (i + length (concat ss), pre @ concat ss @ post)"
proof (induction ss arbitrary: i pre mid)
  case (Cons s ss)
  obtain m1 m2 where mid: "mid = m1 @ m2" and l: "length m1 = length s" "length m2 = length (concat ss)"
  proof
    show "mid = take (length s) mid @ drop (length s) mid" by simp
  qed (use Cons.prems in auto)
  have "CopyStringToBuffer s i (pre @ mid @ post) = Some (i + length s, overwrite i s (pre @ mid @ post))"
    using Cons.prems by (intro CopyStringToBuffer_fits) simp
  moreover have "overwrite i s (pre @ mid @ post) = (pre @ s) @ m2 @ post"
    using overwrite_middle [of pre i m1 s "m2 @ post"] Cons.prems(1) l(1) mid by simp
  ultimately show ?case
    using Cons.IH [of "pre @ s" "i + length s" m2] Cons.prems(1) l(2) by (simp add: add.assoc)
qed simp

definition upgrade_head :: "byte list" where
  "upgrade_head = concat [SWITCHING_PROTOCOLS, EOL_bytes, CONNECTION_UPGRADE, EOL_bytes,
     UPGRADE_WEBSOCKET, EOL_bytes, ACCEPT_KEY]"

lemma KEY_START_eq: "KEY_START = length upgrade_head"
  by (simp add: KEY_START_def upgrade_head_def)

lemma ProtocolUpgradeBuilder_new_layout:
  "ProtocolUpgradeBuilder_new =
     Some (upgrade_head @ replicate ENCODED_KEY_LEN 0 @ EOL_bytes @ EOL_bytes @ [0])"
proof -
  let ?z = "\<lambda>n. replicate n (0 :: byte)"
  have buf: "?z (MESSAGE_LENGTH + 1) =
      [] @ ?z (length upgrade_head) @ ?z ENCODED_KEY_LEN @ ?z (2 * length EOL) @ [0]"
    by (rule sym, rule replicate_eqI) (auto simp: MESSAGE_LENGTH_def KEY_START_eq)
  have "CopyAll [EOL_bytes, EOL_bytes] (length upgrade_head + ENCODED_KEY_LEN)
      ((upgrade_head @ ?z ENCODED_KEY_LEN) @ ?z (2 * length EOL) @ [0]) =
    Some (length upgrade_head + ENCODED_KEY_LEN + length (concat [EOL_bytes, EOL_bytes]),
      (upgrade_head @ ?z ENCODED_KEY_LEN) @ concat [EOL_bytes, EOL_bytes] @ [0])"
    by (rule CopyAll_fits) simp_all
  then show ?thesis
    unfolding ProtocolUpgradeBuilder_new_def buf
    by (subst CopyAll_fits) (simp_all add: upgrade_head_def)
qed

lemma ProtocolUpgradeBuilder_key_layout:
  assumes "length enc = ENCODED_KEY_LEN"
  shows "ProtocolUpgradeBuilder_key (enc @ [0]) = Some (upgrade_head @ enc @ EOL_bytes @ EOL_bytes @ [0])"
proof -
  have "CopyStringToBuffer enc KEY_START
      (upgrade_head @ replicate ENCODED_KEY_LEN 0 @ EOL_bytes @ EOL_bytes @ [0]) =
    Some (KEY_START + length enc, overwrite KEY_START enc
      (upgrade_head @ replicate ENCODED_KEY_LEN 0 @ EOL_bytes @ EOL_bytes @ [0]))"
    using assms by (intro CopyStringToBuffer_fits) (simp add: KEY_START_eq)
  then show ?thesis
    using assms
    by (simp add: ProtocolUpgradeBuilder_key_def ProtocolUpgradeBuilder_new_layout SetKey_def
        CopyArrayToBuffer_def overwrite_middle KEY_START_eq)
qed

lemma GetUpgradeMessage_layout:
  "length enc = ENCODED_KEY_LEN \<Longrightarrow>
   GetUpgradeMessage (upgrade_head @ enc @ EOL_bytes @ EOL_bytes @ [0]) = upgrade_head @ enc @ EOL_bytes @ EOL_bytes"
  by (simp add: GetUpgradeMessage_def MESSAGE_LENGTH_def KEY_START_eq)

section \<open>Lemmas: the client reads the upgrade message\<close>

definition upgrade_text :: string where
  "upgrade_text = ''HTTP/1.1 101 Switching Protocols'' @ EOL @ ''Connection: Upgrade'' @ EOL
     @ ''Upgrade: websocket'' @ EOL"

lemma upgrade_message_text:
  "text_of (upgrade_head @ enc @ EOL_bytes @ EOL_bytes) =
   upgrade_text @ SEC_WEBSOCKET_ACCEPT @ text_of enc @ EOL @ EOL"
  unfolding upgrade_head_def upgrade_text_def SWITCHING_PROTOCOLS_def CONNECTION_UPGRADE_def
    UPGRADE_WEBSOCKET_def ACCEPT_KEY_def SEC_WEBSOCKET_ACCEPT_def
  by (simp only: concat.simps map_append text_of_bytes_of append_assoc append_Nil append_Nil2)

lemma upgrade_accept_header:
  assumes "CHR 0x0D \<notin> set k" "k \<noteq> []"
  shows "DecodeHeader (upgrade_text @ SEC_WEBSOCKET_ACCEPT @ k @ EOL @ EOL) SEC_WEBSOCKET_ACCEPT = k"
  by (rule DecodeHeader_value) (use assms in \<open>simp_all add: upgrade_text_def header_texts\<close>)

lemma upgrade_connection_header:
  "DecodeHeader (upgrade_text @ rest) CONNECTION = ''Upgrade''"
proof -
  have t: "upgrade_text @ rest = (''HTTP/1.1 101 Switching Protocols'' @ EOL) @ CONNECTION @ ''Upgrade'' @ EOL
      @ (''Upgrade: websocket'' @ EOL @ rest)"
    by (simp add: upgrade_text_def CONNECTION_def)
  show ?thesis unfolding t by (rule DecodeHeader_value) (simp_all add: header_texts)
qed

lemma upgrade_upgrade_header:
  "DecodeHeader (upgrade_text @ rest) UPGRADE = ''websocket''"
proof -
  have t: "upgrade_text @ rest = (''HTTP/1.1 101 Switching Protocols'' @ EOL @ ''Connection: Upgrade'' @ EOL)
      @ UPGRADE @ ''websocket'' @ EOL @ rest"
    by (simp add: upgrade_text_def UPGRADE_def)
  show ?thesis unfolding t by (rule DecodeHeader_value) (simp_all add: header_texts)
qed

lemma upgrade_response_decoded:
  assumes "CHR 0x0D \<notin> set k" "k \<noteq> []"
  shows "HttpResponse_Decode (upgrade_text @ SEC_WEBSOCKET_ACCEPT @ k @ EOL @ EOL) p =
    (True, p\<lparr>rsp_version := ''HTTP/1.1'', rsp_status := ''101'', rsp_connection := ''Upgrade'',
       rsp_upgrade := ''websocket'', rsp_secWebSocketAccept := k\<rparr>)"
proof -
  let ?t = "upgrade_text @ SEC_WEBSOCKET_ACCEPT @ k @ EOL @ EOL"
  obtain r where r: "?t = ''HTTP/1.1 101 Switching'' @ r"
    by (simp add: upgrade_text_def)
  have v: "HttpResponse_DecodeVersion ?t 0 = ''HTTP/1.1''"
    unfolding r by (simp add: HttpResponse_DecodeVersion_def find_from_def substr_upto_def)
  have "HttpResponse_DecodeStatus ?t (length ''HTTP/1.1'') = ''101''"
    unfolding r by (simp add: HttpResponse_DecodeStatus_def find_from_def find_pred_from_def substr_upto_def)
  moreover have "find_from ''HTTP'' ?t 0 = Some 0"
    unfolding r by (simp add: find_from_def)
  ultimately show ?thesis
    using v assms upgrade_accept_header
    by (simp add: HttpResponse_Decode_def upgrade_connection_header upgrade_upgrade_header)
qed

section \<open>Properties\<close>

text \<open>
  C17. The upgrade answer is built inside its buffer: for a key of 28 characters no write
  falls outside, the message of \<open>GetLength()\<close> bytes is the three header lines, the key and
  the empty line, and the byte after it is the terminator.
\<close>

theorem upgrade_message_built:
  assumes "length enc = ENCODED_KEY_LEN"
  shows "\<exists>buf. ProtocolUpgradeBuilder_key (enc @ [0]) = Some buf \<and> length buf = MESSAGE_LENGTH + 1 \<and>
    buf ! MESSAGE_LENGTH = 0 \<and>
    text_of (GetUpgradeMessage buf) =
      ''HTTP/1.1 101 Switching Protocols'' @ EOL @ ''Connection: Upgrade'' @ EOL @ ''Upgrade: websocket'' @ EOL
      @ ''Sec-WebSocket-Accept: '' @ text_of enc @ EOL @ EOL"
proof -
  let ?buf = "upgrade_head @ enc @ EOL_bytes @ EOL_bytes @ [0]"
  have "length (upgrade_head @ enc @ EOL_bytes @ EOL_bytes) = MESSAGE_LENGTH"
    using assms by (simp add: MESSAGE_LENGTH_def KEY_START_eq)
  then have "length ?buf = MESSAGE_LENGTH + 1" "?buf ! MESSAGE_LENGTH = 0"
    by (auto simp: nth_append)
  moreover have "text_of (GetUpgradeMessage ?buf) = upgrade_text @ SEC_WEBSOCKET_ACCEPT @ text_of enc @ EOL @ EOL"
    unfolding GetUpgradeMessage_layout [OF assms] by (rule upgrade_message_text)
  ultimately show ?thesis
    using ProtocolUpgradeBuilder_key_layout [OF assms]
    by (auto simp: upgrade_text_def SEC_WEBSOCKET_ACCEPT_def)
qed

theorem upgrade_message_built_witness:
  "\<exists>buf. ProtocolUpgradeBuilder_key (replicate 28 65 @ [0]) = Some buf \<and> length buf = MESSAGE_LENGTH + 1"
  using upgrade_message_built [of "replicate 28 65"] by auto

text \<open>
  C18. Both overloads of \<open>EncodeKey\<close> hash the key followed by the GUID: on a 24 character
  key held in an array the result is the one for the text.
\<close>

theorem EncodeKey_overloads_agree:
  assumes "length key = KEY_LENGTH + 1"
  shows "EncodeKey_array ssl key = EncodeKey ssl (butlast key) \<and>
    EncodeKey ssl (butlast key) = EncodeKey_raw ssl (butlast key @ WEB_SOCKET_GUID)"
  using EncodeKey_array_concat [OF assms] EncodeKey_concat by simp

theorem EncodeKey_overloads_agree_witness:
  "EncodeKey_array \<lparr>SHA1 = (\<lambda>bs. replicate 20 1), EVP_EncodeBlock = (\<lambda>bs. (replicate 28 65 @ [0], 28))\<rparr>
     (replicate 25 65) =
   EncodeKey \<lparr>SHA1 = (\<lambda>bs. replicate 20 1), EVP_EncodeBlock = (\<lambda>bs. (replicate 28 65 @ [0], 28))\<rparr>
     (butlast (replicate 25 65))"
  using EncodeKey_overloads_agree [of "replicate 25 65"] by simp

end
