(* ===== verification/Ws_Server.thy ===== *)
theory Ws_Server
  imports Ws_Base Handshake
begin

text \<open>
  \<^verbatim>\<open>WebSocketServer\<close> (\<^verbatim>\<open>websocket/server/websocket_server.{h,cpp}\<close>): its fields, the
  opening handshake, the set-up and closing of the listening socket, and the virtual
  methods it gives \<^verbatim>\<open>WebSocketBase\<close>. What the operating system answers is an argument;
  descriptors taken over, shut down and closed are logged by the connection record.
\<close>

section \<open>State\<close>

record server =
  sv_ws :: ws
  serverUp :: bool
  serverFd :: int
  validateCb :: "(HttpRequest \<Rightarrow> bool) option"
  openCb :: bool

definition WebSocketServer_new :: server where
  "WebSocketServer_new = \<lparr>sv_ws = ws_new, serverUp = False, serverFd = -1, validateCb = None, openCb = False\<rparr>"

definition BAD_REQUEST_RESPONSE :: "byte list" where
  "BAD_REQUEST_RESPONSE = bytes_of (''HTTP/1.1 400 Bad Request'' @ EOL @ EOL)"

section \<open>Virtual methods\<close>

definition Server_DecodeMessage :: "WebSocketFrame \<Rightarrow> ws \<Rightarrow> bool \<times> WebSocketFrame \<times> ws" where
  "Server_DecodeMessage wsFrame w =
     (let msgLen = payloadLen wsFrame
      in if msgLen = 0 then (True, wsFrame, w)
         else let f1 = wsFrame\<lparr>payload := str_resize (unat msgLen) (payload wsFrame)\<rparr>
              in case RecvUnderLock MASK_LEN w of
                (None, w1) \<Rightarrow> (False, f1, w1)
              | (Some key, w1) \<Rightarrow>
                  (case RecvUnderLock_string (length (payload f1)) w1 of
                     (None, w2) \<Rightarrow> (False, f1\<lparr>maskingKey := key, payload := []\<rparr>, w2)
                   | (Some buffer, w2) \<Rightarrow>
                       (True, f1\<lparr>maskingKey := key, payload := xor_loop key 0 buffer\<rparr>, w2)))"

definition Server_ValidateIncomingFrame :: "WebSocketFrame \<Rightarrow> bool" where
  "Server_ValidateIncomingFrame wsFrame \<longleftrightarrow> mask wsFrame = 1"

definition Server_CreateFrame :: "bool \<Rightarrow> FrameType \<Rightarrow> byte list \<Rightarrow> ws \<Rightarrow> byte list \<times> ws" where
  "Server_CreateFrame isLast frameType p w =
     (server_frame isLast frameType p, w)"

text \<open>The overload without a payload.\<close>

definition Server_CreateFrame_empty :: "bool \<Rightarrow> FrameType \<Rightarrow> byte list" where
  "Server_CreateFrame_empty isLast frameType = Build (ServerFrameBuilder_new isLast frameType)"

definition server_vt :: vtable where
  "server_vt = \<lparr>vDecodeMessage = Server_DecodeMessage,
     vValidateIncomingFrame = Server_ValidateIncomingFrame, vCreateFrame = Server_CreateFrame\<rparr>"

section \<open>The opening handshake\<close>

definition ValidateHandShakeMessage :: "HttpRequest \<Rightarrow> bool" where
  "ValidateHandShakeMessage req =
     (let upgradeHeaderValue = ToLowerCase (req_upgrade req);
          connectionValue = ToLowerCase (req_connection req)
      in find_from ''upgrade'' connectionValue 0 \<noteq> None \<and>
         find_from ''websocket'' upgradeHeaderValue 0 \<noteq> None \<and>
         req_version req = ''HTTP/1.1'')"

text \<open>
  A write of the builder outside its buffer would be the value \<open>None\<close>; there is none by
  \<open>ProtocolUpgradeBuilder_key_layout\<close>.
\<close>

definition ProtocolUpgrade :: "openssl \<Rightarrow> HttpRequest \<Rightarrow> ws \<Rightarrow> bool \<times> ws" where
  "ProtocolUpgrade ssl req w =
     (case EncodeKey ssl (bytes_of (req_secWebSocketKey req)) of
        None \<Rightarrow> (False, w)
      | Some encodedKey \<Rightarrow>
          (case ProtocolUpgradeBuilder_key encodedKey of
             None \<Rightarrow> (False, w)
           | Some requestBuilder \<Rightarrow> SendUnderLock (GetUpgradeMessage requestBuilder) w))"

definition ResponseInvalidHandShake :: "ws \<Rightarrow> bool \<times> ws" where
  "ResponseInvalidHandShake w = SendUnderLock BAD_REQUEST_RESPONSE w"

definition HttpHandShake :: "openssl \<Rightarrow> server \<Rightarrow> bool \<times> server" where
  "HttpHandShake ssl s =
     (case recv_handshake (sv_ws s) of
        (None, w) \<Rightarrow> (False, s\<lparr>sv_ws := w\<rparr>)
      | (Some msgBuf, w) \<Rightarrow>
          (case HttpRequest_Decode (text_of msgBuf) HttpRequest_new of
             (False, req) \<Rightarrow> (False, s\<lparr>sv_ws := w\<rparr>)
           | (True, req) \<Rightarrow>
               if (case validateCb s of None \<Rightarrow> False | Some cb \<Rightarrow> \<not> cb req) then (False, s\<lparr>sv_ws := w\<rparr>)
               else if ValidateHandShakeMessage req then
                 (case ProtocolUpgrade ssl req w of (ok, w') \<Rightarrow> (ok, s\<lparr>sv_ws := w'\<rparr>))
               else (False, s\<lparr>sv_ws := snd (ResponseInvalidHandShake w)\<rparr>)))"

definition MoveToConnectingState :: "server \<Rightarrow> bool \<times> server" where
  "MoveToConnectingState s =
     (if \<not> serverUp s then (False, s)
      else case CompareExchangeConnectionState CLOSED CONNECTING (sv_ws s) of
        (False, expected, w) \<Rightarrow> (False, s\<lparr>sv_ws := w\<rparr>)
      | (True, expected, w) \<Rightarrow>
          if \<not> serverUp s then (False, s\<lparr>sv_ws := snd (SetConnectionState CLOSED w)\<rparr>)
          else (True, s\<lparr>sv_ws := w\<rparr>))"

definition OnNewConnection :: "server \<Rightarrow> server" where
  "OnNewConnection s =
     (let w1 = (if openCb s then log_action CbOpen (sv_ws s) else sv_ws s)
      in s\<lparr>sv_ws := snd (SetConnectionState OPEN w1)\<rparr>)"

text \<open>\<open>acc\<close> is what \<open>accept\<close> returns: the descriptor and its socket.\<close>

definition AcceptNewConnection ::
  "openssl \<Rightarrow> int \<times> rx_event list \<times> int list \<Rightarrow> server \<Rightarrow> bool \<times> server" where
  "AcceptNewConnection ssl acc s =
     (case MoveToConnectingState s of
        (False, s1) \<Rightarrow> (False, s1)
      | (True, s1) \<Rightarrow>
          (case acc of (newConnectionFd, es, outs) \<Rightarrow>
             if newConnectionFd < 0 then (False, s1\<lparr>sv_ws := snd (SetConnectionState CLOSED (sv_ws s1))\<rparr>)
             else case HttpHandShake ssl (s1\<lparr>sv_ws := SetConnectionSocket newConnectionFd es outs (sv_ws s1)\<rparr>) of
               (True, s2) \<Rightarrow> (True, OnNewConnection s2)
             | (False, s2) \<Rightarrow>
                 (False, s2\<lparr>sv_ws := CloseConnectionSocket FAIL (snd (SetConnectionState CLOSING (sv_ws s2)))\<rparr>)))"

definition ConnectUnixWebSocketBySocketpair :: "openssl \<Rightarrow> server \<Rightarrow> bool \<times> server" where
  "ConnectUnixWebSocketBySocketpair ssl s =
     (case MoveToConnectingState s of
        (False, s1) \<Rightarrow> (False, s1)
      | (True, s1) \<Rightarrow>
          (case HttpHandShake ssl s1 of
             (True, s2) \<Rightarrow> (True, OnNewConnection s2)
           | (False, s2) \<Rightarrow>
               (False, s2\<lparr>sv_ws := CloseConnectionSocket FAIL (snd (SetConnectionState CLOSING (sv_ws s2)))\<rparr>)))"

section \<open>Set-up\<close>

definition CloseServerSocket :: "server \<Rightarrow> server" where
  "CloseServerSocket s = s\<lparr>sv_ws := log_action (CloseFd (serverFd s)) (sv_ws s), serverFd := -1\<rparr>"

definition own_server_fd :: "int \<Rightarrow> server \<Rightarrow> server" where
  "own_server_fd fd s = s\<lparr>serverFd := fd, sv_ws := log_action (OwnFd fd) (sv_ws s)\<rparr>"

definition BindAndListenTcpWebSocket :: "os_calls \<Rightarrow> server \<Rightarrow> bool \<times> server" where
  "BindAndListenTcpWebSocket os s =
     (if os_inet_pton os \<noteq> 1 then (False, s)
      else if os_bind os \<noteq> 0 \<or> os_listen os \<noteq> 0 then (False, CloseServerSocket s)
      else (True, s\<lparr>serverUp := True\<rparr>))"

definition InitTcpWebSocket :: "os_calls \<Rightarrow> int \<Rightarrow> nat \<Rightarrow> server \<Rightarrow> bool \<times> server" where
  "InitTcpWebSocket os port timeoutLimit s =
     (if port < 0 then (False, s)
      else if serverUp s then (True, s)
      else if os_socket os < 0 then (False, s\<lparr>serverFd := os_socket os\<rparr>)
      else let s1 = own_server_fd (os_socket os) s
           in if os_reuseaddr os \<noteq> 0 then (False, CloseServerSocket s1)
              else if \<not> SetWebSocketTimeOut os timeoutLimit then (False, CloseServerSocket s1)
              else BindAndListenTcpWebSocket os s1)"

definition InitUnixWebSocket :: "os_calls \<Rightarrow> nat \<Rightarrow> server \<Rightarrow> bool \<times> server" where
  "InitUnixWebSocket os timeoutLimit s =
     (if serverUp s then (True, s)
      else if os_socket os < 0 then (False, s\<lparr>serverFd := os_socket os\<rparr>)
      else let s1 = own_server_fd (os_socket os) s
           in if \<not> SetWebSocketTimeOut os timeoutLimit then (False, CloseServerSocket s1)
              else if os_memset_s os \<noteq> 0 then (False, CloseServerSocket s1)
              else if os_strcpy_s os \<noteq> 0 then (False, CloseServerSocket s1)
              else if os_bind os \<noteq> 0 then (False, CloseServerSocket s1)
              else if os_listen os \<noteq> 0 then (False, CloseServerSocket s1)
              else (True, s1\<lparr>serverUp := True\<rparr>))"

definition InitUnixWebSocket_fd ::
  "os_calls \<Rightarrow> int \<times> rx_event list \<times> int list \<Rightarrow> server \<Rightarrow> bool \<times> server" where
  "InitUnixWebSocket_fd os acc s =
     (case acc of (socketfd, es, outs) \<Rightarrow>
        if serverUp s then (True, s)
        else if socketfd < 0 then (False, s)
        else let s1 = s\<lparr>sv_ws := SetConnectionSocket socketfd es outs (sv_ws s)\<rparr>
             in if os_getfl os = -1 then (False, s1) else (True, s1\<lparr>serverUp := True\<rparr>))"

definition SetValidateConnectionCallback :: "(HttpRequest \<Rightarrow> bool) option \<Rightarrow> server \<Rightarrow> server" where
  "SetValidateConnectionCallback cb s = s\<lparr>validateCb := cb\<rparr>"

definition SetOpenConnectionCallback :: "bool \<Rightarrow> server \<Rightarrow> server" where
  "SetOpenConnectionCallback cb s = s\<lparr>openCb := cb\<rparr>"

section \<open>Closing\<close>

text \<open>
  The loop waits for another thread to leave the state \<open>CONNECTING\<close>. \<open>env\<close> is what the
  other threads do at each \<open>yield\<close>; a run of the loop that outlasts it is \<open>None\<close>.
\<close>

fun WaitConnectingStateEnds ::
  "(ws \<Rightarrow> ws) list \<Rightarrow> bool \<Rightarrow> ConnectionState \<Rightarrow> ws \<Rightarrow> (ConnectionState \<times> ws) option" where
  "WaitConnectingStateEnds env wasShutdown connection w =
     (if connection = CONNECTING then
        let (wasShutdown', w1) =
              (if \<not> wasShutdown then
                 if connectionFd w = -1 then (False, w) else (True, ShutdownSocket w)
               else (wasShutdown, w))
        in case env of
             [] \<Rightarrow> None
           | e # es \<Rightarrow> WaitConnectingStateEnds es wasShutdown' (connectionState (e w1)) (e w1)
      else Some (connection, w))"

declare WaitConnectingStateEnds.simps [simp del]

definition Close :: "(ws \<Rightarrow> ws) list \<Rightarrow> server \<Rightarrow> server option" where
  "Close env s =
     (if \<not> serverUp s then Some s
      else let s1 = s\<lparr>serverUp := False, sv_ws := log_action (ShutdownFd (serverFd s)) (sv_ws s)\<rparr>;
               connection = connectionState (sv_ws s1)
           in if connection = CLOSING \<or> connection = CLOSED then Some (CloseServerSocket s1)
              else case WaitConnectingStateEnds env False connection (sv_ws s1) of
                None \<Rightarrow> None
              | Some (connection', w) \<Rightarrow>
                  let s2 = CloseServerSocket (s1\<lparr>sv_ws := w\<rparr>)
                  in if connection' = CLOSING \<or> connection' = CLOSED then Some s2
                     else Some (s2\<lparr>sv_ws := snd (CloseConnection server_vt SERVER_GO_AWAY (sv_ws s2))\<rparr>))"

definition WebSocketServer_destroy :: "server \<Rightarrow> server" where
  "WebSocketServer_destroy s =
     (let s1 = (if serverFd s \<noteq> -1 then CloseServerSocket s else s)
      in s1\<lparr>sv_ws := WebSocketBase_destroy (sv_ws s1)\<rparr>)"

section \<open>The server as an endpoint\<close>

lemma server_vt_simps [simp]:
  "vDecodeMessage server_vt = Server_DecodeMessage"
  "vValidateIncomingFrame server_vt = Server_ValidateIncomingFrame"
  "vCreateFrame server_vt = Server_CreateFrame"
  by (simp_all add: server_vt_def)

interpretation sv: ws_endpoint server_vt
proof
  fix f w ok f' w'
  assume "vDecodeMessage server_vt f w = (ok, f', w')"
  then show "\<exists>es. w' = w\<lparr>rx := es\<rparr>"
    by (auto simp: Server_DecodeMessage_def Let_def split: if_splits prod.splits option.splits
        elim!: RecvUnderLock_keeps RecvUnderLock_string_keeps intro: exI [of _ "rx w"])
next
  fix l t p w fr w'
  assume "vCreateFrame server_vt l t p w = (fr, w')"
  then show "\<exists>n. w' = w\<lparr>maskCtr := n\<rparr>"
    by (auto simp: Server_CreateFrame_def intro: exI [of _ "maskCtr w"])
qed

text \<open>The server decodes a client's frame, whatever the masking key.\<close>

interpretation svw: ws_wire server_vt "client_frame key" "\<lambda>p. payload_len_field (length p) OR 0x80"
  "\<lambda>p. mask_of key @ xor_loop (mask_of key) 0 p" for key
proof
  fix l t p
  show "client_frame key l t p = first_byte l t # (payload_len_field (length p) OR 0x80) #
      ext_length (length p) @ mask_of key @ xor_loop (mask_of key) 0 p"
    by (rule client_frame_layout)
next
  fix h p
  show "payloadLen (frame_of_header h (payload_len_field (length p) OR 0x80)) =
      ucast (payload_len_field (length p))"
    by (simp add: payloadLen_of_field)
next
  fix h p
  show "vValidateIncomingFrame server_vt (frame_of_header h (payload_len_field (length p) OR 0x80))"
    by (simp add: Server_ValidateIncomingFrame_def mask_of_masked_field)
next
  fix p :: "byte list" and f :: WebSocketFrame and w :: ws and rest
  assume p: "p \<noteq> []" "length p < 2 ^ 64" and len: "payloadLen f = of_nat (length p)"
    and fd: "0 \<le> connectionFd w"
    and st: "rx_stream (rx w) = (mask_of key @ xor_loop (mask_of key) 0 p) @ rest"
  have n: "unat (of_nat (length p) :: u64) = length p" "(of_nat (length p) :: u64) \<noteq> 0"
    using p by (simp_all add: unat_of_nat word_unat_eq_iff)
  obtain es where e: "RecvUnderLock 4 w = (Some (mask_of key), w\<lparr>rx := es\<rparr>)"
    "rx_stream es = xor_loop (mask_of key) 0 p @ rest"
    using st fd by (auto elim: RecvUnderLock_stream [of w "mask_of key"])
  obtain es' where e': "RecvUnderLock_string (length p) (w\<lparr>rx := es\<rparr>) =
      (Some (xor_loop (mask_of key) 0 p), w\<lparr>rx := es'\<rparr>)" "rx_stream es' = rest"
    by (rule RecvUnderLock_string_stream [of "w\<lparr>rx := es\<rparr>" "xor_loop (mask_of key) 0 p" rest])
      (use e(2) fd p(1) in auto)
  show "\<exists>f' es. vDecodeMessage server_vt f w = (True, f', w\<lparr>rx := es\<rparr>) \<and> payload f' = p \<and> rx_stream es = rest"
    using n len e e' by (auto simp: Server_DecodeMessage_def Let_def)
qed

end
