(* ===== verification/Ws_Client.thy ===== *)
theory Ws_Client
  imports Ws_Base Handshake
begin

text \<open>
  \<^verbatim>\<open>WebSocketClient\<close> (\<^verbatim>\<open>websocket/client/websocket_client.{h,cpp}\<close>): connecting, the
  client's half of the opening handshake, and the virtual methods it gives
  \<^verbatim>\<open>WebSocketBase\<close>. Masking keys come from the random source of the connection record.
\<close>

section \<open>State\<close>

record client =
  cl_ws :: ws
  secWebSocketKey :: "byte list"

definition WebSocketClient_new :: client where
  "WebSocketClient_new = \<lparr>cl_ws = ws_new, secWebSocketKey = replicate (KEY_LENGTH + 1) 0\<rparr>"

definition CLIENT_WS_UPGRADE_REQ_BEFORE_KEY :: string where
  "CLIENT_WS_UPGRADE_REQ_BEFORE_KEY =
     ''GET / HTTP/1.1'' @ EOL @ ''Connection: Upgrade'' @ EOL @ ''Pragma: no-cache'' @ EOL
     @ ''Cache-Control: no-cache'' @ EOL @ ''Upgrade: websocket'' @ EOL
     @ ''Sec-WebSocket-Version: 13'' @ EOL @ ''Accept-Encoding: gzip, deflate, br'' @ EOL
     @ ''Sec-WebSocket-Key: ''"

definition CLIENT_WS_UPGRADE_REQ_AFTER_KEY :: string where
  "CLIENT_WS_UPGRADE_REQ_AFTER_KEY =
     EOL @ ''Sec-WebSocket-Extensions: permessage-deflate'' @ EOL @ EOL"

fun GetSocketStateString :: "client \<Rightarrow> string" where
  "GetSocketStateString c =
     (case connectionState (cl_ws c) of
        CONNECTING \<Rightarrow> ''connecting'' | OPEN \<Rightarrow> ''open'' | CLOSING \<Rightarrow> ''closing'' | CLOSED \<Rightarrow> ''closed'')"

section \<open>Virtual methods\<close>

definition Client_DecodeMessage :: "WebSocketFrame \<Rightarrow> ws \<Rightarrow> bool \<times> WebSocketFrame \<times> ws" where
  "Client_DecodeMessage wsFrame w =
     (let msgLen = payloadLen wsFrame
      in if msgLen = 0 then (True, wsFrame, w)
         else let f1 = wsFrame\<lparr>payload := str_resize (unat msgLen) (payload wsFrame)\<rparr>
              in case RecvUnderLock_string (length (payload f1)) w of
                (None, w1) \<Rightarrow> (False, f1\<lparr>payload := []\<rparr>, w1)
              | (Some buffer, w1) \<Rightarrow> (True, f1\<lparr>payload := buffer\<rparr>, w1))"

definition Client_ValidateIncomingFrame :: "WebSocketFrame \<Rightarrow> bool" where
  "Client_ValidateIncomingFrame wsFrame \<longleftrightarrow> mask wsFrame = 0"

definition GenerateMaskKey :: "ws \<Rightarrow> byte list \<times> ws" where
  "GenerateMaskKey w = (maskSrc w (maskCtr w), w\<lparr>maskCtr := maskCtr w + 1\<rparr>)"

definition Client_CreateFrame :: "bool \<Rightarrow> FrameType \<Rightarrow> byte list \<Rightarrow> ws \<Rightarrow> byte list \<times> ws" where
  "Client_CreateFrame isLast frameType p w =
     (let (key, w') = GenerateMaskKey w in (client_frame key isLast frameType p, w'))"

text \<open>The overload without a payload.\<close>

definition Client_CreateFrame_empty :: "bool \<Rightarrow> FrameType \<Rightarrow> ws \<Rightarrow> byte list \<times> ws" where
  "Client_CreateFrame_empty isLast frameType w =
     (let (key, w') = GenerateMaskKey w in (Build_Client (ClientFrameBuilder_new isLast frameType key), w'))"

definition client_vt :: vtable where
  "client_vt = \<lparr>vDecodeMessage = Client_DecodeMessage,
     vValidateIncomingFrame = Client_ValidateIncomingFrame, vCreateFrame = Client_CreateFrame\<rparr>"

section \<open>Connecting\<close>

definition CloseOnInitFailure :: "client \<Rightarrow> client" where
  "CloseOnInitFailure c =
     (let (ok, expected, w) = CompareExchangeConnectionState CONNECTING CLOSING (cl_ws c)
      in c\<lparr>cl_ws := CloseConnectionSocket FAIL w\<rparr>)"

text \<open>\<open>net\<close> is the socket that \<open>socket\<close> opens: what it will deliver and accept.\<close>

definition InitToolchainWebSocketForPort ::
  "os_calls \<Rightarrow> rx_event list \<times> int list \<Rightarrow> nat \<Rightarrow> client \<Rightarrow> bool \<times> client" where
  "InitToolchainWebSocketForPort os net timeoutLimit c =
     (if connectionState (cl_ws c) \<noteq> CLOSED then (True, c)
      else if os_socket os < 0 then (False, c)
      else let c1 = c\<lparr>cl_ws := SetConnectionSocket (os_socket os) (fst net) (snd net) (cl_ws c)\<rparr>
           in if \<not> SetWebSocketTimeOut os timeoutLimit then (False, CloseOnInitFailure c1)
              else if os_memset_s os \<noteq> 0 then (False, CloseOnInitFailure c1)
              else if os_inet_pton os \<noteq> 1 then (False, CloseOnInitFailure c1)
              else if os_connect os \<noteq> 0 then (False, CloseOnInitFailure c1)
              else (True, c1\<lparr>cl_ws := snd (SetConnectionState CONNECTING (cl_ws c1))\<rparr>))"

definition InitToolchainWebSocketForSockName ::
  "os_calls \<Rightarrow> rx_event list \<times> int list \<Rightarrow> nat \<Rightarrow> client \<Rightarrow> bool \<times> client" where
  "InitToolchainWebSocketForSockName os net timeoutLimit c =
     (if connectionState (cl_ws c) \<noteq> CLOSED then (True, c)
      else if os_socket os < 0 then (False, c)
      else let c1 = c\<lparr>cl_ws := SetConnectionSocket (os_socket os) (fst net) (snd net) (cl_ws c)\<rparr>
           in if \<not> SetWebSocketTimeOut os timeoutLimit then (False, CloseOnInitFailure c1)
              else if os_memset_s os \<noteq> 0 then (False, CloseOnInitFailure c1)
              else if os_strcpy_s os \<noteq> 0 then (False, CloseOnInitFailure c1)
              else if os_connect os \<noteq> 0 then (False, CloseOnInitFailure c1)
              else (True, c1\<lparr>cl_ws := snd (SetConnectionState CONNECTING (cl_ws c1))\<rparr>))"

section \<open>The opening handshake\<close>

definition ClientSendWSUpgradeReq :: "openssl \<Rightarrow> int \<times> byte list \<Rightarrow> client \<Rightarrow> bool \<times> client" where
  "ClientSendWSUpgradeReq ssl rnd c =
     (let state = connectionState (cl_ws c)
      in if state = CLOSING \<or> state = CLOSED then (False, c)
         else if state = OPEN then (True, c)
         else case GenerateRandomSecWSKey ssl rnd (secWebSocketKey c) of
           (False, key) \<Rightarrow> (False, c\<lparr>secWebSocketKey := key\<rparr>)
         | (True, key) \<Rightarrow>
             let upgradeReq = bytes_of CLIENT_WS_UPGRADE_REQ_BEFORE_KEY @ c_str key
                   @ bytes_of CLIENT_WS_UPGRADE_REQ_AFTER_KEY
             in case SendUnderLock upgradeReq (cl_ws c) of
               (False, w) \<Rightarrow> (False, CloseOnInitFailure (c\<lparr>secWebSocketKey := key, cl_ws := w\<rparr>))
             | (True, w) \<Rightarrow> (True, c\<lparr>secWebSocketKey := key, cl_ws := w\<rparr>))"

definition ValidateServerHandShake :: "openssl \<Rightarrow> HttpResponse \<Rightarrow> client \<Rightarrow> bool" where
  "ValidateServerHandShake ssl response c =
     (if rsp_status response \<noteq> ''101'' then False
      else if ToLowerCase (rsp_upgrade response) \<noteq> ''websocket'' then False
      else if ToLowerCase (rsp_connection response) \<noteq> ''upgrade'' then False
      else case EncodeKey ssl (c_str (secWebSocketKey c)) of
        None \<Rightarrow> False
      | Some expectedSecWebSocketAccept \<Rightarrow>
          let accept = Trim (rsp_secWebSocketAccept response)
          in length accept = ENCODED_KEY_LEN \<and> accept = text_of (c_str expectedSecWebSocketAccept))"

definition ClientRecvWSUpgradeRsp :: "openssl \<Rightarrow> client \<Rightarrow> bool \<times> client" where
  "ClientRecvWSUpgradeRsp ssl c =
     (let state = connectionState (cl_ws c)
      in if state = CLOSING \<or> state = CLOSED then (False, c)
         else if state = OPEN then (True, c)
         else case recv_handshake (cl_ws c) of
           (None, w) \<Rightarrow> (False, CloseOnInitFailure (c\<lparr>cl_ws := w\<rparr>))
         | (Some msgBuf, w) \<Rightarrow>
             (case HttpResponse_Decode (text_of msgBuf) HttpResponse_new of (decoded, response) \<Rightarrow>
                if \<not> decoded \<or> \<not> ValidateServerHandShake ssl response c
                then (False, CloseOnInitFailure (c\<lparr>cl_ws := w\<rparr>))
                else (True, c\<lparr>cl_ws := snd (SetConnectionState OPEN w)\<rparr>)))"

definition Client_Close :: "client \<Rightarrow> client" where
  "Client_Close c = c\<lparr>cl_ws := snd (CloseConnection client_vt SERVER_GO_AWAY (cl_ws c))\<rparr>"

section \<open>The client as an endpoint\<close>

lemma client_vt_simps [simp]:
  "vDecodeMessage client_vt = Client_DecodeMessage"
  "vValidateIncomingFrame client_vt = Client_ValidateIncomingFrame"
  "vCreateFrame client_vt = Client_CreateFrame"
  by (simp_all add: client_vt_def)

interpretation cl: ws_endpoint client_vt
proof
  fix f w ok f' w'
  assume "vDecodeMessage client_vt f w = (ok, f', w')"
  then show "\<exists>es. w' = w\<lparr>rx := es\<rparr>"
    by (auto simp: Client_DecodeMessage_def Let_def split: if_splits prod.splits option.splits
        elim!: RecvUnderLock_string_keeps intro: exI [of _ "rx w"])
next
  fix l t p w fr w'
  assume "vCreateFrame client_vt l t p w = (fr, w')"
  then show "\<exists>n. w' = w\<lparr>maskCtr := n\<rparr>"
    by (auto simp: Client_CreateFrame_def GenerateMaskKey_def)
qed

interpretation clw: ws_wire client_vt server_frame "\<lambda>p. payload_len_field (length p)" "\<lambda>p. p"
proof
  fix l t p
  show "server_frame l t p = first_byte l t # payload_len_field (length p) # ext_length (length p) @ p"
    by (rule server_frame_layout)
next
  fix h :: byte and p :: "byte list"
  show "payloadLen (frame_of_header h (payload_len_field (length p))) = ucast (payload_len_field (length p))"
    by simp
next
  fix h :: byte and p :: "byte list"
  show "vValidateIncomingFrame client_vt (frame_of_header h (payload_len_field (length p)))"
    by (simp add: Client_ValidateIncomingFrame_def)
next
  fix p :: "byte list" and f :: WebSocketFrame and w :: ws and rest
  assume p: "p \<noteq> []" "length p < 2 ^ 64" and len: "payloadLen f = of_nat (length p)"
    and fd: "0 \<le> connectionFd w" and st: "rx_stream (rx w) = p @ rest"
  have n: "unat (of_nat (length p) :: u64) = length p" "(of_nat (length p) :: u64) \<noteq> 0"
    using p by (simp_all add: unat_of_nat word_unat_eq_iff)
  obtain es where "RecvUnderLock_string (length p) w = (Some p, w\<lparr>rx := es\<rparr>)" "rx_stream es = rest"
    by (rule RecvUnderLock_string_stream [of w p rest]) (use st fd p(1) in auto)
  then show "\<exists>f' es. vDecodeMessage client_vt f w = (True, f', w\<lparr>rx := es\<rparr>) \<and> payload f' = p \<and> rx_stream es = rest"
    using n len by (auto simp: Client_DecodeMessage_def Let_def)
qed

end
