(* ===== verification/Base64.thy ===== *)
theory Base64
  imports Prelude
begin

text \<open>
  The base64 coders: \<^verbatim>\<open>PtBase64\<close> (\<^verbatim>\<open>tooling/dynamic/base/pt_base64.{h,cpp}\<close>) and the
  inspector's \<^verbatim>\<open>Base64Decoder\<close> (\<^verbatim>\<open>tooling/static/evaluation/base64.h\<close>). The pointers
  the loops advance are the lists still to read and already written.
\<close>

section \<open>Tables\<close>

definition ENCODE_TABLE :: "byte list" where
  "ENCODE_TABLE = bytes_of ''ABCDEFGHIJKLMNOPQRSTUVWXYZabcdefghijklmnopqrstuvwxyz0123456789+/''"

definition DECODE_TABLE :: "byte list" where
  "DECODE_TABLE = replicate 43 255 @ [62] @ replicate 3 255 @ [63]
     @ [52, 53, 54, 55, 56, 57, 58, 59, 60, 61] @ replicate 7 255
     @ [0, 1, 2, 3, 4, 5, 6, 7, 8, 9, 10, 11, 12, 13, 14, 15, 16, 17, 18, 19, 20, 21, 22, 23, 24, 25]
     @ replicate 6 255
     @ [26, 27, 28, 29, 30, 31, 32, 33, 34, 35, 36, 37, 38, 39, 40, 41, 42, 43, 44, 45, 46, 47, 48, 49, 50, 51]
     @ replicate 133 255"

text \<open>The inspector's table stops at \<open>z\<close>.\<close>

definition DECODE_TABLE_inspector :: "byte list" where
  "DECODE_TABLE_inspector = replicate 43 255 @ [62] @ replicate 3 255 @ [63]
     @ [52, 53, 54, 55, 56, 57, 58, 59, 60, 61] @ replicate 7 255
     @ [0, 1, 2, 3, 4, 5, 6, 7, 8, 9, 10, 11, 12, 13, 14, 15, 16, 17, 18, 19, 20, 21, 22, 23, 24, 25]
     @ replicate 6 255
     @ [26, 27, 28, 29, 30, 31, 32, 33, 34, 35, 36, 37, 38, 39, 40, 41, 42, 43, 44, 45, 46, 47, 48, 49, 50, 51]"

abbreviation (input) PADDING_CHAR :: byte where "PADDING_CHAR \<equiv> 61"
abbreviation (input) INVALID_VALUE :: byte where "INVALID_VALUE \<equiv> 255"

definition encode_char :: "byte \<Rightarrow> byte" where
  "encode_char v = ENCODE_TABLE ! unat v"

definition decode_char :: "byte \<Rightarrow> byte" where
  "decode_char c = DECODE_TABLE ! unat c"

definition DecodeChar :: "byte \<Rightarrow> byte" where
  "DecodeChar encoded =
     (if unat encoded \<ge> length DECODE_TABLE_inspector then INVALID_VALUE
      else DECODE_TABLE_inspector ! unat encoded)"

section \<open>PtBase64\<close>

definition Pt_DecodedSize :: "nat \<Rightarrow> nat" where
  "Pt_DecodedSize n = n div 4 * 3"

definition Pt_EncodedSize :: "nat \<Rightarrow> nat" where
  "Pt_EncodedSize n = 4 * ((n + 2) div 3)"

fun Encode_loop :: "nat \<Rightarrow> byte list \<Rightarrow> byte list \<Rightarrow> byte list \<times> byte list" where
  "Encode_loop 0 src dest = (src, dest)"
| "Encode_loop (Suc n) src dest =
     Encode_loop n (drop 3 src)
       (dest @ [encode_char (drop_bit 2 (src ! 0)),
                encode_char (push_bit 4 (src ! 0 AND 0x03) OR drop_bit 4 (src ! 1)),
                encode_char (push_bit 2 (src ! 1 AND 0x0f) OR drop_bit 6 (src ! 2)),
                encode_char (src ! 2 AND 0x3f)])"

definition Pt_Encode :: "byte list \<Rightarrow> byte list" where
  "Pt_Encode input =
     (if length input = 0 then []
      else let (src, dest) = Encode_loop (length input div 3) input [];
               remainder = length input mod 3;
               paddingCnt = (3 - remainder) mod 3
           in if paddingCnt = 1 then
                dest @ [encode_char (drop_bit 2 (src ! 0)),
                        encode_char (push_bit 4 (src ! 0 AND 0x03) OR drop_bit 4 (src ! 1)),
                        encode_char (push_bit 2 (src ! 1 AND 0x0f)), PADDING_CHAR]
              else if paddingCnt = 2 then
                dest @ [encode_char (drop_bit 2 (src ! 0)),
                        encode_char (push_bit 4 (src ! 0 AND 0x03)), PADDING_CHAR, PADDING_CHAR]
              else dest)"

text \<open>The three bytes of a group of sextets.\<close>

definition sextets_0 :: "byte \<Rightarrow> byte \<Rightarrow> byte" where
  "sextets_0 v0 v1 = push_bit 2 v0 OR drop_bit 4 (v1 AND 0x30)"

definition sextets_1 :: "byte \<Rightarrow> byte \<Rightarrow> byte" where
  "sextets_1 v1 v2 = push_bit 4 v1 OR drop_bit 2 (v2 AND 0x3c)"

definition sextets_2 :: "byte \<Rightarrow> byte \<Rightarrow> byte" where
  "sextets_2 v2 v3 = push_bit 6 v2 OR v3"

definition DecodeSextetsGroup :: "byte list \<Rightarrow> byte list" where
  "DecodeSextetsGroup g =
     [sextets_0 (g ! 0) (g ! 1), sextets_1 (g ! 1) (g ! 2), sextets_2 (g ! 2) (g ! 3)]"

text \<open>
  Of an unfinished group the decoders compute three bytes from what the buffer holds and
  keep one less than there are sextets; these do not depend on the buffer's rest.
\<close>

definition decode_remainder :: "byte list \<Rightarrow> byte list" where
  "decode_remainder g =
     (if length g = 2 then [sextets_0 (g ! 0) (g ! 1)]
      else if length g = 3 then [sextets_0 (g ! 0) (g ! 1), sextets_1 (g ! 1) (g ! 2)]
      else [])"

fun Pt_Decode_loop :: "byte list \<Rightarrow> byte list \<Rightarrow> byte list \<Rightarrow> byte list \<times> byte list \<times> byte list" where
  "Pt_Decode_loop [] chars dest = ([], chars, dest)"
| "Pt_Decode_loop (c # src) chars dest =
     (if c = PADDING_CHAR then (c # src, chars, dest)
      else let v = decode_char c
           in if v = INVALID_VALUE then (c # src, chars, dest)
              else let chars' = chars @ [v]
                   in if length chars' = 4 then Pt_Decode_loop src [] (dest @ DecodeSextetsGroup chars')
                      else Pt_Decode_loop src chars' dest)"

definition only_padding :: "byte list \<Rightarrow> bool" where
  "only_padding src \<longleftrightarrow> length src = 0 \<or> (length src = 1 \<and> src ! 0 = PADDING_CHAR) \<or>
     (length src = 2 \<and> src ! 0 = PADDING_CHAR \<and> src ! 1 = PADDING_CHAR)"

text \<open>What is written to the output, whose length the source returns, and the flag.\<close>

definition Pt_Decode :: "byte list \<Rightarrow> byte list \<times> bool" where
  "Pt_Decode input =
     (if length input < 4 \<or> length input mod 4 \<noteq> 0 then ([], False)
      else case Pt_Decode_loop input [] [] of
        (src, chars, dest) \<Rightarrow> (dest @ decode_remainder chars, only_padding src))"

section \<open>Base64Decoder\<close>

fun count_padding :: "nat \<Rightarrow> byte list \<Rightarrow> nat" where
  "count_padding 0 rinput = 0"
| "count_padding (Suc k) rinput =
     (case rinput of [] \<Rightarrow> 0 | c # cs \<Rightarrow> if c = PADDING_CHAR then Suc (count_padding k cs) else 0)"

definition DecodedSize :: "byte list \<Rightarrow> nat option" where
  "DecodedSize input =
     (if input = [] \<or> length input mod 4 \<noteq> 0 then None
      else Some (length input div 4 * 3 - count_padding 2 (rev input)))"

text \<open>The loop's flag is false when it met a character outside the alphabet.\<close>

fun Base64_loop :: "byte list \<Rightarrow> byte list \<Rightarrow> byte list \<Rightarrow> bool \<times> byte list \<times> byte list \<times> byte list" where
  "Base64_loop [] buf out = (True, [], buf, out)"
| "Base64_loop (c # src) buf out =
     (if c = PADDING_CHAR then (True, c # src, buf, out)
      else let decoded = DecodeChar c
           in if decoded = INVALID_VALUE then (False, c # src, buf, out)
              else let buf' = buf @ [decoded]
                   in if length buf' = 4 then Base64_loop src [] (out @ DecodeSextetsGroup buf')
                      else Base64_loop src buf' out)"

text \<open>The result and the bytes written through the output pointer.\<close>

definition Base64_Decode :: "byte list \<Rightarrow> bool \<times> byte list" where
  "Base64_Decode input =
     (if input = [] \<or> length input mod 4 \<noteq> 0 then (False, [])
      else case Base64_loop input [] [] of
        (False, src, buf, out) \<Rightarrow> (False, out)
      | (True, src, buf, out) \<Rightarrow> (only_padding src, out @ decode_remainder buf))"

definition Base64_Decode_string :: "byte list \<Rightarrow> byte list \<Rightarrow> bool \<times> byte list" where
  "Base64_Decode_string encoded decoded =
     (case DecodedSize encoded of
        None \<Rightarrow> (False, decoded)
      | Some bytecodeSize \<Rightarrow>
          (case Base64_Decode encoded of
             (ok, out) \<Rightarrow> (ok, overwrite 0 out (str_resize bytecodeSize decoded))))"

section \<open>Lemmas: the tables\<close>

lemma decode_table_prefix: "DECODE_TABLE = DECODE_TABLE_inspector @ replicate 133 255"
  by (simp add: DECODE_TABLE_def DECODE_TABLE_inspector_def)

lemma length_tables [simp]: "length DECODE_TABLE_inspector = 123" "length DECODE_TABLE = 256" "length ENCODE_TABLE = 64"
  by (simp_all add: DECODE_TABLE_def DECODE_TABLE_inspector_def ENCODE_TABLE_def)

lemma DecodeChar_eq: "DecodeChar c = decode_char c"
proof -
  have "unat c < 256" using unsigned_less [of c, where 'a = nat] by simp
  then show ?thesis
    by (simp add: DecodeChar_def decode_char_def decode_table_prefix nth_append)
qed

lemma decode_char_cases: "decode_char c < 64 \<or> decode_char c = INVALID_VALUE"
proof -
  have "list_all (\<lambda>v. v < 64 \<or> v = INVALID_VALUE) DECODE_TABLE"
    by (simp add: DECODE_TABLE_def list_all_iff word_less_nat_alt)
  moreover have "unat c < length DECODE_TABLE" using unsigned_less [of c, where 'a = nat] by simp
  ultimately show ?thesis by (auto simp: decode_char_def list_all_iff)
qed

lemma decode_encode_map:
  "map (\<lambda>c. DECODE_TABLE ! of_char c) ''ABCDEFGHIJKLMNOPQRSTUVWXYZabcdefghijklmnopqrstuvwxyz0123456789+/'' =
   map of_nat [0..<64]"
  by (simp add: DECODE_TABLE_def nth_append upt_conv_Cons)

section \<open>Lemmas: sextets\<close>

lemma byte_eq_bits: "(\<And>n. n < 8 \<Longrightarrow> bit a n = bit b n) \<Longrightarrow> a = (b :: byte)"
  by (rule bit_word_eqI) simp

lemma below_8: "n < (8 :: nat) \<longleftrightarrow> n = 0 \<or> n = 1 \<or> n = 2 \<or> n = 3 \<or> n = 4 \<or> n = 5 \<or> n = 6 \<or> n = 7"
  by auto

lemma and_0x03: "(x :: byte) AND 0x03 = take_bit 2 x"
  by (simp add: take_bit_eq_mask mask_eq_exp_minus_1)

lemma and_0x3f: "(x :: byte) AND 0x3f = take_bit 6 x"
  by (simp add: take_bit_eq_mask mask_eq_exp_minus_1)

lemma and_0x30: "drop_bit 4 ((x :: byte) AND 0x30) = take_bit 2 (drop_bit 4 x)"
  by (rule byte_eq_bits) (auto simp: below_8 bit_simps)

lemma and_0x3c: "drop_bit 2 ((x :: byte) AND 0x3c) = take_bit 4 (drop_bit 2 x)"
  by (rule byte_eq_bits) (auto simp: below_8 bit_simps)

lemmas sextet_masks = and_0x03 and_0x3f and_0x30 and_0x3c

definition sextet :: "byte \<Rightarrow> bool" where
  "sextet v \<longleftrightarrow> take_bit 6 v = v"

lemma sextet_less: "sextet v \<longleftrightarrow> v < 64"
proof
  assume "sextet v"
  then have "unat v = take_bit 6 (unat v)" by (metis sextet_def unsigned_take_bit_eq)
  then have "unat v < 2 ^ 6" by (metis take_bit_nat_less_exp)
  then show "v < 64" by (simp add: word_less_nat_alt)
next
  assume "v < 64"
  then have "take_bit 6 (unat v) = unat v" by (simp add: word_less_nat_alt take_bit_nat_eq_self)
  then show "sextet v" by (simp add: sextet_def word_unat_eq_iff unsigned_take_bit_eq)
qed

text \<open>The four sextets of three bytes, and back.\<close>

abbreviation six_0 :: "byte \<Rightarrow> byte" where "six_0 a \<equiv> drop_bit 2 a"
abbreviation six_1 :: "byte \<Rightarrow> byte \<Rightarrow> byte" where "six_1 a b \<equiv> push_bit 4 (take_bit 2 a) OR drop_bit 4 b"
abbreviation six_2 :: "byte \<Rightarrow> byte \<Rightarrow> byte" where "six_2 b c \<equiv> push_bit 2 (take_bit 4 b) OR drop_bit 6 c"
abbreviation six_3 :: "byte \<Rightarrow> byte" where "six_3 c \<equiv> take_bit 6 c"

lemma sextets_valid [simp]: "sextet (six_0 a)" "sextet (six_1 a b)" "sextet (six_2 b c)" "sextet (six_3 c)"
proof -
  show "sextet (six_0 a)" unfolding sextet_def
    by (rule byte_eq_bits) (auto simp: below_8 bit_simps dest: bit_imp_le_length)
  show "sextet (six_1 a b)" unfolding sextet_def
    by (rule byte_eq_bits) (auto simp: below_8 bit_simps dest: bit_imp_le_length)
  show "sextet (six_2 b c)" unfolding sextet_def
    by (rule byte_eq_bits) (auto simp: below_8 bit_simps dest: bit_imp_le_length)
  show "sextet (six_3 c)" by (simp add: sextet_def)
qed

lemma sextets_join_0 [simp]: "sextets_0 (six_0 a) (six_1 a b) = a"
  unfolding sextets_0_def sextet_masks
  by (rule byte_eq_bits, auto simp: below_8 bit_simps) (simp_all add: numeral_2_eq_2 numeral_3_eq_3)

lemma sextets_join_1 [simp]: "sextets_1 (six_1 a b) (six_2 b c) = b"
  unfolding sextets_1_def sextet_masks by (rule byte_eq_bits) (auto simp: below_8 bit_simps)

lemma sextets_join_2 [simp]: "sextets_2 (six_2 b c) (six_3 c) = c"
  unfolding sextets_2_def by (rule byte_eq_bits) (auto simp: below_8 bit_simps)

section \<open>Lemmas: characters\<close>

lemma decode_encode_char [simp]: "sextet v \<Longrightarrow> decode_char (encode_char v) = v"
proof -
  let ?s = "''ABCDEFGHIJKLMNOPQRSTUVWXYZabcdefghijklmnopqrstuvwxyz0123456789+/''"
  assume "sextet v"
  then have i: "unat v < length ?s" by (simp add: sextet_less word_less_nat_alt)
  have "DECODE_TABLE ! of_char (?s ! unat v) = map of_nat [0..<64] ! unat v"
    using i by (simp only: decode_encode_map [symmetric] nth_map)
  also have "\<dots> = v" using i by (simp add: word_unat_eq_iff)
  finally show ?thesis
    using i by (simp only: decode_char_def encode_char_def ENCODE_TABLE_def nth_map unat_byte_of)
qed

lemma decode_char_padding [simp]: "decode_char PADDING_CHAR = INVALID_VALUE"
  by (simp add: decode_char_def DECODE_TABLE_def nth_append)

lemma sextet_not_invalid [simp]: "\<not> sextet INVALID_VALUE"
  by (simp add: sextet_less word_less_nat_alt)

lemma encode_char_ok [simp]:
  assumes "sextet v"
  shows "encode_char v \<noteq> PADDING_CHAR" "v \<noteq> INVALID_VALUE"
  using assms decode_encode_char [OF assms] decode_char_padding sextet_not_invalid by metis+

section \<open>Lemmas: encoding\<close>

text \<open>The encoding as a function of the bytes: whole groups, then the padded rest.\<close>

fun base64_spec :: "byte list \<Rightarrow> byte list" where
  "base64_spec [] = []"
| "base64_spec [a] = [encode_char (six_0 a), encode_char (six_1 a 0), PADDING_CHAR, PADDING_CHAR]"
| "base64_spec [a, b] = [encode_char (six_0 a), encode_char (six_1 a b), encode_char (six_2 b 0), PADDING_CHAR]"
| "base64_spec (a # b # c # bs) =
     encode_char (six_0 a) # encode_char (six_1 a b) # encode_char (six_2 b c) # encode_char (six_3 c) # base64_spec bs"

lemma Encode_loop_acc: "Encode_loop n src dest = (fst (Encode_loop n src []), dest @ snd (Encode_loop n src []))"
proof (induction n arbitrary: src dest)
  case (Suc n)
  show ?case
    unfolding Encode_loop.simps
    by (subst (1 2 3) Suc.IH) simp
qed simp

lemma Pt_Encode_step:
  "Pt_Encode (a # b # c # bs) =
   encode_char (six_0 a) # encode_char (six_1 a b) # encode_char (six_2 b c) # encode_char (six_3 c) # Pt_Encode bs"
proof -
  let ?q = "[encode_char (six_0 a), encode_char (six_1 a b), encode_char (six_2 b c), encode_char (six_3 c)]"
  have "length (a # b # c # bs) div 3 = Suc (length bs div 3)" "length (a # b # c # bs) mod 3 = length bs mod 3"
    by simp_all
  moreover have "Encode_loop (Suc n) (a # b # c # bs) [] = (fst (Encode_loop n bs []), ?q @ snd (Encode_loop n bs []))" for n
    using Encode_loop_acc [of n bs ?q] by (simp add: sextet_masks numeral_3_eq_3 numeral_2_eq_2)
  ultimately show ?thesis
    by (cases "bs = []") (simp_all add: Pt_Encode_def Let_def split: prod.splits del: Encode_loop.simps(2))
qed

lemma Pt_Encode_spec: "Pt_Encode bs = base64_spec bs"
proof (induction bs rule: base64_spec.induct)
  case (4 a b c bs)
  then show ?case by (simp add: Pt_Encode_step)
qed (simp_all add: Pt_Encode_def sextet_masks)

lemma length_base64_spec: "length (base64_spec bs) = 4 * ((length bs + 2) div 3)"
proof (induction bs rule: base64_spec.induct)
  case (4 a b c bs)
  have "(length (a # b # c # bs) + 2) div 3 = Suc ((length bs + 2) div 3)" by simp
  with 4 show ?case by simp
qed auto

section \<open>Lemmas: decoding\<close>

lemma Pt_Decode_loop_group:
  assumes "sextet v0" "sextet v1" "sextet v2" "sextet v3"
  shows "Pt_Decode_loop (encode_char v0 # encode_char v1 # encode_char v2 # encode_char v3 # src) [] dest =
    Pt_Decode_loop src [] (dest @ [sextets_0 v0 v1, sextets_1 v1 v2, sextets_2 v2 v3])"
  using assms by (simp add: DecodeSextetsGroup_def numeral_3_eq_3 numeral_2_eq_2)

lemma Pt_Decode_loop_rest:
  assumes "sextet v0" "sextet v1" "sextet v2"
  shows "Pt_Decode_loop [encode_char v0, encode_char v1, PADDING_CHAR, PADDING_CHAR] [] dest =
      ([PADDING_CHAR, PADDING_CHAR], [v0, v1], dest)"
    "Pt_Decode_loop [encode_char v0, encode_char v1, encode_char v2, PADDING_CHAR] [] dest =
      ([PADDING_CHAR], [v0, v1, v2], dest)"
  using assms by simp_all

lemma decode_remainder_simps:
  "decode_remainder [] = []" "decode_remainder [v0, v1] = [sextets_0 v0 v1]"
  "decode_remainder [v0, v1, v2] = [sextets_0 v0 v1, sextets_1 v1 v2]"
  by (simp_all add: decode_remainder_def)

lemma only_padding_simps:
  "only_padding []" "only_padding [PADDING_CHAR]" "only_padding [PADDING_CHAR, PADDING_CHAR]"
  by (simp_all add: only_padding_def)

lemma Pt_Decode_loop_spec:
  "case Pt_Decode_loop (base64_spec bs) [] dest of
     (src, chars, dest') \<Rightarrow> dest' @ decode_remainder chars = dest @ bs \<and> only_padding src"
proof (induction bs arbitrary: dest rule: base64_spec.induct)
  case (4 a b c bs)
  show ?case
    unfolding base64_spec.simps Pt_Decode_loop_group [OF sextets_valid]
    using 4 [of "dest @ [a, b, c]"] by simp
next
  case (3 a b)
  show ?case
    unfolding base64_spec.simps Pt_Decode_loop_rest(2) [OF sextets_valid(1-3)] prod.case
    by (simp only: decode_remainder_simps only_padding_simps sextets_join_0 sextets_join_1 simp_thms)
next
  case (2 a)
  show ?case
    unfolding base64_spec.simps Pt_Decode_loop_rest(1) [OF sextets_valid(1-3)] prod.case
    by (simp only: decode_remainder_simps only_padding_simps sextets_join_0 simp_thms)
qed (simp add: decode_remainder_simps only_padding_simps)

lemma Base64_loop_eq:
  "Base64_loop src buf out =
   (case Pt_Decode_loop src buf out of (src', buf', out') \<Rightarrow>
      (src' = [] \<or> hd src' = PADDING_CHAR, src', buf', out'))"
  by (induction src buf out rule: Base64_loop.induct) (auto simp: DecodeChar_eq Let_def)

text \<open>What the loop consumes and writes.\<close>

lemma Pt_Decode_loop_lengths:
  "Pt_Decode_loop src chars dest = (src', chars', dest') \<Longrightarrow> length chars < 4 \<Longrightarrow>
   length chars' < 4 \<and>
   4 * length dest' + 3 * length chars' + 3 * length src' = 4 * length dest + 3 * length chars + 3 * length src \<and>
   (\<exists>used. src = used @ src' \<and> PADDING_CHAR \<notin> set used)"
proof (induction src chars dest rule: Pt_Decode_loop.induct)
  case (2 c src chars dest)
  show ?case
  proof (cases "c = PADDING_CHAR \<or> decode_char c = INVALID_VALUE")
    case True
    with "2.prems" show ?thesis by (auto simp: Let_def split: if_splits)
  next
    case False
    let ?full = "length (chars @ [decode_char c]) = 4"
    have "length chars' < 4 \<and> 4 * length dest' + 3 * length chars' + 3 * length src' =
        4 * length dest + 3 * length chars + 3 * length (c # src) \<and>
        (\<exists>used. src = used @ src' \<and> PADDING_CHAR \<notin> set used)"
    proof (cases ?full)
      case full: True
      with "2.prems" False have "Pt_Decode_loop src [] (dest @ DecodeSextetsGroup (chars @ [decode_char c])) = (src', chars', dest')"
        by (simp add: Let_def)
      with "2.IH"(1) [OF _ refl _ refl full] False full show ?thesis
        by (auto simp: DecodeSextetsGroup_def)
    next
      case more: False
      with "2.prems" False have "Pt_Decode_loop src (chars @ [decode_char c]) dest = (src', chars', dest')"
        by (simp add: Let_def)
      with "2.IH"(2) [OF _ refl _ refl more] False more "2.prems"(2) show ?thesis by auto
    qed
    then show ?thesis using False by (metis append_Cons set_ConsD)
  qed
qed auto

lemma count_padding_le: "count_padding k xs \<le> k"
  by (induction k xs rule: count_padding.induct) (auto split: list.splits)

lemma count_padding_suffix:
  "\<exists>pre. rev xs = pre @ replicate (count_padding k xs) PADDING_CHAR"
proof (induction k xs rule: count_padding.induct)
  case (2 k xs)
  show ?case
  proof (cases "\<exists>cs. xs = PADDING_CHAR # cs")
    case True
    then obtain cs where xs: "xs = PADDING_CHAR # cs" by blast
    then obtain pre where "rev cs = pre @ replicate (count_padding k cs) PADDING_CHAR" using 2 by blast
    with xs show ?thesis by (simp add: replicate_append_same)
  qed (auto split: list.splits)
qed simp

lemma count_padding_exact:
  assumes "k \<le> m" "\<not> (\<exists>pre. xs = pre @ [PADDING_CHAR])"
  shows "count_padding m (rev (xs @ replicate k PADDING_CHAR)) = k"
  using assms(1)
proof (induction k arbitrary: m)
  case 0
  show ?case using assms(2) by (cases m; cases "rev xs") auto
next
  case (Suc k)
  then show ?case by (cases m) (auto simp: replicate_app_Cons_same)
qed

lemma used_padding:
  assumes "input = used @ src" "PADDING_CHAR \<notin> set used" "input = pre @ replicate k PADDING_CHAR"
  shows "k \<le> length src"
proof (rule ccontr)
  assume "\<not> k \<le> length src"
  then have less: "length src < k" by simp
  have "length used + length src = length pre + k"
    using assms(1,3) by (metis length_append length_replicate)
  with less have pre: "length pre < length used" by linarith
  then have "used ! length pre = input ! length pre" using assms(1) by (simp add: nth_append)
  also have "\<dots> = PADDING_CHAR" using assms(3) less by (simp add: nth_append)
  finally show False using assms(2) pre by (metis nth_mem)
qed

text \<open>The arithmetic of groups: \<open>n\<close> characters of which \<open>s\<close> are left, \<open>k\<close> in an open group.\<close>

lemma group_arith:
  fixes n d k s p :: nat
  assumes "4 * d + 3 * k + 3 * s = 3 * n" "k < 4" "n mod 4 = 0" "p \<le> s" "p \<le> 2"
  shows "d + (k - 1) \<le> n div 4 * 3 - p"
proof -
  obtain m where n: "n = 4 * m" using assms(3) by (auto elim: dvdE simp: mod_eq_0_iff_dvd)
  consider "k = 0" | "k = 1" | "k = 2" | "k = 3" using assms(2) by linarith
  then have "d + (k - 1) + p \<le> 3 * m"
    using assms(1,4,5) unfolding n by cases simp_all
  then show ?thesis by (simp add: n)
qed

lemma length_decode_remainder: "length g < 4 \<Longrightarrow> length (decode_remainder g) = length g - 1"
  by (auto simp: decode_remainder_def)

lemma Pt_Decode_run:
  assumes "4 \<le> length input" "length input mod 4 = 0"
  obtains src g d used where "Pt_Decode_loop input [] [] = (src, g, d)" "length g < 4"
    "4 * length d + 3 * length g + 3 * length src = 3 * length input"
    "input = used @ src" "PADDING_CHAR \<notin> set used"
proof -
  obtain src g d where "Pt_Decode_loop input [] [] = (src, g, d)" by (metis prod_cases3)
  with Pt_Decode_loop_lengths [OF this] that show ?thesis by auto
qed

lemma Pt_Decode_fits: "length (fst (Pt_Decode input)) \<le> Pt_DecodedSize (length input)"
proof (cases "length input < 4 \<or> length input mod 4 \<noteq> 0")
  case False
  then obtain src g d where r: "Pt_Decode_loop input [] [] = (src, g, d)" "length g < 4"
    "4 * length d + 3 * length g + 3 * length src = 3 * length input"
    using Pt_Decode_run [of input] by (metis not_less)
  with False group_arith [OF r(3,2), of 0] show ?thesis
    by (simp add: Pt_Decode_def Pt_DecodedSize_def length_decode_remainder)
qed (auto simp: Pt_Decode_def)

lemma Base64_Decode_fits:
  assumes "DecodedSize input = Some n"
  shows "length (snd (Base64_Decode input)) \<le> n"
proof -
  let ?p = "count_padding 2 (rev input)"
  have i: "input \<noteq> []" "length input mod 4 = 0" and n: "n = length input div 4 * 3 - ?p"
    using assms by (auto simp: DecodedSize_def split: if_splits)
  then have "4 \<le> length input" by (intro dvd_imp_le) auto
  with i obtain src g d used where r: "Pt_Decode_loop input [] [] = (src, g, d)" "length g < 4"
    "4 * length d + 3 * length g + 3 * length src = 3 * length input"
    and u: "input = used @ src" "PADDING_CHAR \<notin> set used"
    using Pt_Decode_run [of input] by metis
  obtain pre where "input = pre @ replicate ?p PADDING_CHAR"
    using count_padding_suffix [of "rev input" 2] by auto
  then have "?p \<le> length src" using used_padding [OF u] by blast
  with group_arith [OF r(3,2) i(2)] count_padding_le [of 2 "rev input"] n
  have "length d + (length g - 1) \<le> n" by simp
  with i r show ?thesis
    by (auto simp: Base64_Decode_def Base64_loop_eq length_decode_remainder split: bool.splits)
qed

lemma Base64_Decode_agrees:
  "fst (Base64_Decode input) = snd (Pt_Decode input)"
  "fst (Base64_Decode input) \<Longrightarrow> snd (Base64_Decode input) = fst (Pt_Decode input)"
proof -
  have e: "input = [] \<or> length input mod 4 \<noteq> 0 \<longleftrightarrow> length input < 4 \<or> length input mod 4 \<noteq> 0"
    by (cases input) auto
  obtain src g d where r: "Pt_Decode_loop input [] [] = (src, g, d)" by (metis prod_cases3)
  have p: "only_padding src \<Longrightarrow> src = [] \<or> hd src = PADDING_CHAR"
    by (cases src) (auto simp: only_padding_def)
  show "fst (Base64_Decode input) = snd (Pt_Decode input)"
    using p by (auto simp: Base64_Decode_def Pt_Decode_def e r Base64_loop_eq split: bool.splits)
  show "fst (Base64_Decode input) \<Longrightarrow> snd (Base64_Decode input) = fst (Pt_Decode input)"
    using p by (auto simp: Base64_Decode_def Pt_Decode_def e r Base64_loop_eq split: bool.splits if_splits)
qed

lemma Pt_Decode_Encode:
  assumes "bs \<noteq> []"
  shows "Pt_Decode (Pt_Encode bs) = (bs, True)"
proof -
  have "4 \<le> length (base64_spec bs)" "length (base64_spec bs) mod 4 = 0"
    using assms by (cases bs; simp add: length_base64_spec)+
  with Pt_Decode_loop_spec [where bs = bs and dest = "[]"] show ?thesis
    by (auto simp: Pt_Decode_def Pt_Encode_spec split: prod.splits)
qed

lemma only_padding_replicate: "only_padding src \<longleftrightarrow> length src \<le> 2 \<and> src = replicate (length src) PADDING_CHAR"
proof -
  consider "src = []" | a where "src = [a]" | a b where "src = [a, b]" | a b c s where "src = a # b # c # s"
    by (metis neq_Nil_conv)
  then show ?thesis by cases (auto simp: only_padding_def)
qed

lemma group_arith_exact:
  fixes n d k s :: nat
  assumes "4 * d + 3 * k + 3 * s = 3 * n" "k < 4" "n mod 4 = 0" "s \<le> 2"
  shows "d + (k - 1) = n div 4 * 3 - s"
proof -
  obtain m where n: "n = 4 * m" using assms(3) by (auto elim: dvdE simp: mod_eq_0_iff_dvd)
  have "k = 0 \<or> k = 1 \<or> k = 2 \<or> k = 3" "s = 0 \<or> s = 1 \<or> s = 2" using assms(2,4) by linarith+
  then have "d + (k - 1) + s = 3 * m"
    using assms(1) unfolding n by (elim disjE; presburger)
  then show ?thesis by (simp add: n)
qed

text \<open>A successful run fills the buffer the size was computed for.\<close>

lemma Base64_Decode_exact:
  assumes "DecodedSize input = Some n" "fst (Base64_Decode input)"
  shows "length (snd (Base64_Decode input)) = n"
proof -
  let ?p = "count_padding 2 (rev input)"
  have i: "input \<noteq> []" "length input mod 4 = 0" and n: "n = length input div 4 * 3 - ?p"
    using assms by (auto simp: DecodedSize_def split: if_splits)
  then have "4 \<le> length input" by (intro dvd_imp_le) auto
  with i obtain src g d used where r: "Pt_Decode_loop input [] [] = (src, g, d)" "length g < 4"
    "4 * length d + 3 * length g + 3 * length src = 3 * length input"
    and u: "input = used @ src" "PADDING_CHAR \<notin> set used"
    using Pt_Decode_run [of input] by metis
  have ok: "only_padding src" "src = [] \<or> hd src = PADDING_CHAR"
    using assms(2) i r(1) by (auto simp: Base64_Decode_def Base64_loop_eq split: bool.splits)
  then have src: "length src \<le> 2" "src = replicate (length src) PADDING_CHAR"
    by (simp_all add: only_padding_replicate)
  have "?p = length src"
    unfolding u(1) by (subst src(2), rule count_padding_exact) (use src(1) u(2) in auto)
  with group_arith_exact [OF r(3,2) i(2) src(1)] n have "length d + (length g - 1) = n" by simp
  with i r ok show ?thesis
    by (simp add: Base64_Decode_def Base64_loop_eq length_decode_remainder)
qed

section \<open>Properties\<close>



text \<open>
  C20. \<open>Encode\<close>, with its loop over whole groups and its padding switch, is the base64
  encoding defined group by group, and writes exactly \<open>EncodedSize\<close> characters.
\<close>

theorem base64_encode_correct:
  "Pt_Encode bs = base64_spec bs \<and> length (Pt_Encode bs) = Pt_EncodedSize (length bs)"
  by (simp add: Pt_Encode_spec length_base64_spec Pt_EncodedSize_def)

text \<open>
  C21. The two decoders agree: on every input the inspector's succeeds exactly when the
  other reports a complete decoding, and then they write the same bytes.
\<close>

theorem base64_decoders_agree:
  "fst (Base64_Decode input) = snd (Pt_Decode input) \<and>
   (if fst (Base64_Decode input) then snd (Base64_Decode input) = fst (Pt_Decode input) else True)"
  using Base64_Decode_agrees by simp



end
