(* ===== verification/Ws_Session.thy ===== *)
theory Ws_Session
  imports Ws_Server Ws_Client Base64
begin

text \<open>
  The two endpoints together: the opening handshake from the client's request to the
  client's acceptance of the server's answer, and messages from each to the other.
\<close>

section \<open>The server reads the client's request\<close>

abbreviation upgrade_request :: "string \<Rightarrow> string" where
  "upgrade_request k \<equiv> CLIENT_WS_UPGRADE_REQ_BEFORE_KEY @ k @ CLIENT_WS_UPGRADE_REQ_AFTER_KEY"

lemmas request_texts = CLIENT_WS_UPGRADE_REQ_BEFORE_KEY_def CLIENT_WS_UPGRADE_REQ_AFTER_KEY_def

lemma request_key_header:
  assumes "CHR 0x0D \<notin> set k" "k \<noteq> []"
  shows "DecodeHeader (upgrade_request k) SEC_WEBSOCKET_KEY = k"
proof -
  obtain pre where pre: "CLIENT_WS_UPGRADE_REQ_BEFORE_KEY = pre @ SEC_WEBSOCKET_KEY"
    and first: "\<And>r. find_sub SEC_WEBSOCKET_KEY (pre @ SEC_WEBSOCKET_KEY @ r) = Some (length pre)"
  proof
    show "CLIENT_WS_UPGRADE_REQ_BEFORE_KEY =
        (''GET / HTTP/1.1'' @ EOL @ ''Connection: Upgrade'' @ EOL @ ''Pragma: no-cache'' @ EOL
        @ ''Cache-Control: no-cache'' @ EOL @ ''Upgrade: websocket'' @ EOL
        @ ''Sec-WebSocket-Version: 13'' @ EOL @ ''Accept-Encoding: gzip, deflate, br'' @ EOL) @ SEC_WEBSOCKET_KEY"
      by (simp add: request_texts header_texts)
  qed (simp add: header_texts)
  obtain post where post: "CLIENT_WS_UPGRADE_REQ_AFTER_KEY = EOL @ post"
    by (simp add: request_texts)
  show ?thesis
    unfolding pre post append_assoc
    by (rule DecodeHeader_value [OF first]) (use assms in \<open>simp_all add: SEC_WEBSOCKET_KEY_def\<close>)
qed

lemma request_connection_header: "DecodeHeader (upgrade_request k) CONNECTION = ''Upgrade''"
proof -
  obtain r where r: "upgrade_request k = (''GET / HTTP/1.1'' @ EOL) @ CONNECTION @ ''Upgrade'' @ EOL @ r"
    by (simp add: request_texts header_texts)
  show ?thesis unfolding r by (rule DecodeHeader_value) (simp_all add: header_texts)
qed

lemma request_upgrade_header: "DecodeHeader (upgrade_request k) UPGRADE = ''websocket''"
proof -
  obtain r where r: "upgrade_request k = (''GET / HTTP/1.1'' @ EOL @ ''Connection: Upgrade'' @ EOL
      @ ''Pragma: no-cache'' @ EOL @ ''Cache-Control: no-cache'' @ EOL) @ UPGRADE @ ''websocket'' @ EOL @ r"
    by (simp add: request_texts header_texts)
  show ?thesis unfolding r by (rule DecodeHeader_value) (simp_all add: header_texts)
qed

lemma request_origin_header:
  assumes "CHR '':'' \<notin> set k"
  shows "DecodeHeader (upgrade_request k) ORIGIN = []"
proof (rule DecodeHeader_absent)
  have "find_sub ORIGIN CLIENT_WS_UPGRADE_REQ_AFTER_KEY = None"
    by (simp add: request_texts header_texts)
  moreover have "find_sub ORIGIN (k @ CLIENT_WS_UPGRADE_REQ_AFTER_KEY) =
      map_option ((+) (length k)) (find_sub ORIGIN CLIENT_WS_UPGRADE_REQ_AFTER_KEY)"
    by (rule find_sub_skip_char [of 6]) (use assms in \<open>simp_all add: request_texts header_texts\<close>)
  moreover have "find_sub ORIGIN (CLIENT_WS_UPGRADE_REQ_BEFORE_KEY @ r) =
      map_option ((+) (length CLIENT_WS_UPGRADE_REQ_BEFORE_KEY)) (find_sub ORIGIN r)" for r
    by (rule find_sub_skip_char [of 0]) (simp_all add: request_texts header_texts)
  ultimately show "find_sub ORIGIN (upgrade_request k) = None" by simp
qed

lemma request_version:
  "find_from GET (upgrade_request k) 0 = Some 0"
  "HttpRequest_DecodeVersion (upgrade_request k) 0 = ''HTTP/1.1''"
proof -
  obtain r where r: "upgrade_request k = ''GET / HTTP/1.1'' @ EOL @ r"
    by (simp add: request_texts)
  show "find_from GET (upgrade_request k) 0 = Some 0"
    unfolding r by (simp add: find_from_def header_texts)
  show "HttpRequest_DecodeVersion (upgrade_request k) 0 = ''HTTP/1.1''"
    unfolding r by (simp add: HttpRequest_DecodeVersion_def find_from_def substr_upto_def before_def header_texts)
qed

lemma request_decoded:
  assumes "CHR 0x0D \<notin> set k" "CHR '':'' \<notin> set k" "k \<noteq> []"
  shows "HttpRequest_Decode (upgrade_request k) p =
    (True, p\<lparr>req_version := ''HTTP/1.1'', req_connection := ''Upgrade'', req_upgrade := ''websocket'',
       req_secWebSocketKey := k, req_origin := []\<rparr>)"
  using assms
  by (simp add: HttpRequest_Decode_def request_version request_key_header request_connection_header
      request_upgrade_header request_origin_header ValidateHttpRequestOrigin_def)

section \<open>The handshake\<close>

text \<open>One message that arrives in one piece.\<close>

abbreviation delivers :: "byte list \<Rightarrow> rx_event list" where
  "delivers bs \<equiv> push_back_chunk bs []"

lemma recv_handshake_chunk:
  "0 \<le> connectionFd w \<Longrightarrow> rx w = delivers bs \<Longrightarrow> bs \<noteq> [] \<Longrightarrow> length bs \<le> 1024 \<Longrightarrow>
   recv_handshake w = (Some bs, w\<lparr>rx := []\<rparr>)"
  by (cases bs) (auto simp: recv_handshake_def)

lemma alphabet_text:
  assumes "set enc \<subseteq> set base64_alphabet"
  shows "CHR 0x0D \<notin> set (text_of enc)" "CHR '':'' \<notin> set (text_of enc)" "Trim (text_of enc) = text_of enc"
proof -
  show "CHR 0x0D \<notin> set (text_of enc)" "CHR '':'' \<notin> set (text_of enc)"
    using assms base64_alphabet_free(2,3) by fastforce+
  have sp: "\<not> std_isspace c" if "c \<in> set (text_of enc)" for c
    using that assms base64_alphabet_free(4) by auto
  have "dropWhile std_isspace xs = xs" if "set xs \<subseteq> set (text_of enc)" for xs
    using that sp by (cases xs) auto
  then show "Trim (text_of enc) = text_of enc"
    by (simp add: Trim_def TrimLeft_def TrimRight_def)
qed

lemma client_request_sent:
  assumes "evp_contract (EVP_EncodeBlock ssl)" "length bs = SEC_WEBSOCKET_KEY_BYTES_LEN"
    and "connectionState (cl_ws c) = CONNECTING" "can_send (cl_ws c)" "tx (cl_ws c) = []"
    "length (secWebSocketKey c) = KEY_LENGTH + 1"
  obtains key outs where "ClientSendWSUpgradeReq ssl (1, bs) c =
      (True, c\<lparr>secWebSocketKey := key @ [0],
        cl_ws := (cl_ws c)\<lparr>tx := bytes_of (upgrade_request (text_of key)), sx := outs\<rparr>\<rparr>)"
    "length key = KEY_LENGTH" "set key \<subseteq> set base64_alphabet" "0 \<notin> set key"
proof -
  obtain key where g: "GenerateRandomSecWSKey ssl (1, bs) (secWebSocketKey c) = (True, key @ [0])"
    and k: "length key = KEY_LENGTH" "set key \<subseteq> set base64_alphabet" "0 \<notin> set key"
    using GenerateRandomSecWSKey_ok [OF assms(1,2,6)] by blast
  have "c_str (key @ [0]) = key" using c_str_terminated [OF k(3), of "[]"] by simp
  moreover obtain outs where "SendUnderLock (bytes_of (upgrade_request (text_of key))) (cl_ws c) =
      (True, (cl_ws c)\<lparr>tx := bytes_of (upgrade_request (text_of key)), sx := outs\<rparr>)"
    using SendUnderLock_all [OF assms(4)] assms(5) by (metis append_Nil)
  ultimately have "ClientSendWSUpgradeReq ssl (1, bs) c =
      (True, c\<lparr>secWebSocketKey := key @ [0],
        cl_ws := (cl_ws c)\<lparr>tx := bytes_of (upgrade_request (text_of key)), sx := outs\<rparr>\<rparr>)"
    using g assms(3) by (simp add: ClientSendWSUpgradeReq_def Let_def comp_def)
  with k that show ?thesis by blast
qed

lemma length_upgrade_request: "length (upgrade_request k) = length k + 232"
  by (simp add: request_texts header_texts)

definition accepted_request :: "string \<Rightarrow> HttpRequest" where
  "accepted_request k = \<lparr>req_version = ''HTTP/1.1'', req_connection = ''Upgrade'',
     req_upgrade = ''websocket'', req_secWebSocketKey = k, req_origin = []\<rparr>"

lemma ValidateHandShakeMessage_accepted: "ValidateHandShakeMessage (accepted_request k)"
proof -
  have "ToLowerCase ''Upgrade'' = ''upgrade''" "ToLowerCase ''websocket'' = ''websocket''"
    by code_simp+
  then show ?thesis
    by (simp add: ValidateHandShakeMessage_def accepted_request_def find_from_def)
qed

lemma server_handshake:
  assumes "sha1_contract (SHA1 ssl)" "evp_contract (EVP_EncodeBlock ssl)"
    and key: "length key = KEY_LENGTH" "set key \<subseteq> set base64_alphabet"
    and w: "can_send (sv_ws s)"
    and rx: "rx (sv_ws s) = delivers (bytes_of (upgrade_request (text_of key)))"
    and cb: "\<And>cb. validateCb s = Some cb \<Longrightarrow> cb (accepted_request (text_of key))"
  obtains enc outs where "EncodeKey ssl key = Some (enc @ [0])" "length enc = ENCODED_KEY_LEN"
    "set enc \<subseteq> set base64_alphabet" "0 \<notin> set enc"
    "HttpHandShake ssl s = (True, s\<lparr>sv_ws := (sv_ws s)\<lparr>rx := [],
       tx := tx (sv_ws s) @ upgrade_head @ enc @ EOL_bytes @ EOL_bytes, sx := outs\<rparr>\<rparr>)"
proof -
  let ?k = "text_of key"
  obtain enc where enc: "EncodeKey ssl key = Some (enc @ [0])" "length enc = ENCODED_KEY_LEN"
    "set enc \<subseteq> set base64_alphabet" "0 \<notin> set enc"
    by (rule EncodeKey_total [OF assms(1,2)])
  have "?k \<noteq> []" using key(1) by auto
  then have d: "HttpRequest_Decode (upgrade_request ?k) HttpRequest_new = (True, accepted_request ?k)"
    using request_decoded [OF alphabet_text(1,2) [OF key(2)]]
    by (simp add: accepted_request_def HttpRequest_new_def)
  have r: "recv_handshake (sv_ws s) = (Some (bytes_of (upgrade_request ?k)), (sv_ws s)\<lparr>rx := []\<rparr>)"
    by (rule recv_handshake_chunk)
      (use w rx key(1) length_upgrade_request [of ?k] in \<open>auto simp: request_texts simp del: map_append\<close>)
  obtain outs where "SendUnderLock (upgrade_head @ enc @ EOL_bytes @ EOL_bytes) ((sv_ws s)\<lparr>rx := []\<rparr>) =
      (True, (sv_ws s)\<lparr>rx := [], tx := tx (sv_ws s) @ upgrade_head @ enc @ EOL_bytes @ EOL_bytes, sx := outs\<rparr>)"
    using SendUnderLock_all [of "(sv_ws s)\<lparr>rx := []\<rparr>" "upgrade_head @ enc @ EOL_bytes @ EOL_bytes"] w by auto
  then have "ProtocolUpgrade ssl (accepted_request ?k) ((sv_ws s)\<lparr>rx := []\<rparr>) =
      (True, (sv_ws s)\<lparr>rx := [], tx := tx (sv_ws s) @ upgrade_head @ enc @ EOL_bytes @ EOL_bytes, sx := outs\<rparr>)"
    by (simp only: ProtocolUpgrade_def accepted_request_def HttpRequest.simps bytes_of_text_of option.case
        enc(1) ProtocolUpgradeBuilder_key_layout [OF enc(2)] GetUpgradeMessage_layout [OF enc(2)])
  with r d cb have "HttpHandShake ssl s = (True, s\<lparr>sv_ws := (sv_ws s)\<lparr>rx := [],
       tx := tx (sv_ws s) @ upgrade_head @ enc @ EOL_bytes @ EOL_bytes, sx := outs\<rparr>\<rparr>)"
    unfolding HttpHandShake_def r option.case prod.case text_of_bytes_of d
    by (auto simp: ValidateHandShakeMessage_accepted split: option.splits)
  with enc that show ?thesis by blast
qed

lemma length_upgrade_head: "length upgrade_head = 97"
  by (simp add: upgrade_head_def SWITCHING_PROTOCOLS_def CONNECTION_UPGRADE_def UPGRADE_WEBSOCKET_def
      ACCEPT_KEY_def EOL_def)

lemma client_accepts:
  assumes enc: "EncodeKey ssl key = Some (enc @ [0])" "length enc = ENCODED_KEY_LEN"
      "set enc \<subseteq> set base64_alphabet" "0 \<notin> set enc"
    and key: "secWebSocketKey c = key @ [0]" "0 \<notin> set key"
    and c: "connectionState (cl_ws c) = CONNECTING" "0 \<le> connectionFd (cl_ws c)"
    and rx: "rx (cl_ws c) = delivers (upgrade_head @ enc @ EOL_bytes @ EOL_bytes)"
  shows "ClientRecvWSUpgradeRsp ssl c = (True, c\<lparr>cl_ws := (cl_ws c)\<lparr>rx := [], connectionState := OPEN\<rparr>\<rparr>)"
proof -
  let ?m = "upgrade_head @ enc @ EOL_bytes @ EOL_bytes"
  let ?rsp = "HttpResponse_new\<lparr>rsp_version := ''HTTP/1.1'', rsp_status := ''101'', rsp_connection := ''Upgrade'',
       rsp_upgrade := ''websocket'', rsp_secWebSocketAccept := text_of enc\<rparr>"
  have r: "recv_handshake (cl_ws c) = (Some ?m, (cl_ws c)\<lparr>rx := []\<rparr>)"
    by (rule recv_handshake_chunk) (use c rx enc(2) in \<open>auto simp: length_upgrade_head EOL_def\<close>)
  have d: "HttpResponse_Decode (text_of ?m) HttpResponse_new = (True, ?rsp)"
    unfolding upgrade_message_text
    by (rule upgrade_response_decoded) (use alphabet_text(1) [OF enc(3)] enc(2) in auto)
  have "ToLowerCase ''Upgrade'' = ''upgrade''" "ToLowerCase ''websocket'' = ''websocket''"
    by code_simp+
  moreover have "c_str (key @ [0]) = key" "c_str (enc @ [0]) = enc"
    using c_str_terminated [of _ "[]"] key(2) enc(4) by auto
  ultimately have "ValidateServerHandShake ssl ?rsp c"
    using enc key(1) alphabet_text(3) [OF enc(3)] by (simp add: ValidateServerHandShake_def Let_def)
  with c(1) show ?thesis
    unfolding ClientRecvWSUpgradeRsp_def r option.case prod.case d Let_def
    by (simp add: SetConnectionState_def)
qed

definition connecting_server :: "int \<Rightarrow> rx_event list \<Rightarrow> int list \<Rightarrow> server \<Rightarrow> server" where
  "connecting_server fd es outs s =
     s\<lparr>sv_ws := (log_action (OwnFd fd) (sv_ws s))\<lparr>connectionState := CONNECTING, connectionFd := fd,
        rx := es, sx := outs, tx := []\<rparr>\<rparr>"

lemma AcceptNewConnection_handshake:
  assumes "serverUp s" "connectionState (sv_ws s) = CLOSED" "0 \<le> fd"
  shows "AcceptNewConnection ssl (fd, es, outs) s =
    (case HttpHandShake ssl (connecting_server fd es outs s) of
       (True, s2) \<Rightarrow> (True, OnNewConnection s2)
     | (False, s2) \<Rightarrow> (False, s2\<lparr>sv_ws := CloseConnectionSocket FAIL ((sv_ws s2)\<lparr>connectionState := CLOSING\<rparr>)\<rparr>))"
proof -
  have "MoveToConnectingState s = (True, s\<lparr>sv_ws := (sv_ws s)\<lparr>connectionState := CONNECTING\<rparr>\<rparr>)"
    using assms by (simp add: MoveToConnectingState_def CompareExchangeConnectionState_def)
  moreover have "s\<lparr>sv_ws := SetConnectionSocket fd es outs ((sv_ws s)\<lparr>connectionState := CONNECTING\<rparr>)\<rparr> =
      connecting_server fd es outs s"
    by (simp add: SetConnectionSocket_def log_action_def connecting_server_def)
  ultimately show ?thesis
    using assms(3) by (simp add: AcceptNewConnection_def SetConnectionState_def split: prod.splits bool.splits)
qed


text \<open>
  A library that meets the contract: the sources' own base64 encoder, and a digest of the
  right length.
\<close>

definition sample_ssl :: openssl where
  "sample_ssl = \<lparr>SHA1 = (\<lambda>bs. replicate 20 (of_nat (length bs))),
     EVP_EncodeBlock = (\<lambda>bs. (Pt_Encode bs @ [0], int (length (Pt_Encode bs))))\<rparr>"

definition sample_client :: client where
  "sample_client = WebSocketClient_new\<lparr>cl_ws := ws_new\<lparr>connectionState := CONNECTING, connectionFd := 3\<rparr>\<rparr>"

definition sample_server :: server where
  "sample_server = WebSocketServer_new\<lparr>serverUp := True, serverFd := 4\<rparr>"

definition sample_ws :: "rx_event list \<Rightarrow> ws" where
  "sample_ws es = ws_new\<lparr>connectionState := OPEN, connectionFd := 3, rx := es\<rparr>"

lemma base64_alphabet_table: "base64_alphabet = ENCODE_TABLE @ [PADDING_CHAR]"
  by (simp add: base64_alphabet_def ENCODE_TABLE_def byte_of_def)

lemma base64_alphabet_encode: "sextet v \<Longrightarrow> encode_char v \<in> set base64_alphabet"
  by (simp add: base64_alphabet_table encode_char_def sextet_less word_less_nat_alt)

lemma base64_spec_alphabet: "set (base64_spec bs) \<subseteq> set base64_alphabet"
proof -
  have "PADDING_CHAR \<in> set base64_alphabet" by (simp add: base64_alphabet_table)
  then show ?thesis
    by (induction bs rule: base64_spec.induct)
      (use base64_alphabet_encode [OF sextets_valid(1)] base64_alphabet_encode [OF sextets_valid(2)]
        base64_alphabet_encode [OF sextets_valid(3)] base64_alphabet_encode [OF sextets_valid(4)] in
        \<open>simp_all del: or.right_neutral drop_bit_of_0\<close>)
qed

lemma sample_ssl_contract: "sha1_contract (SHA1 sample_ssl)" "evp_contract (EVP_EncodeBlock sample_ssl)"
  using base64_spec_alphabet
  by (simp_all add: sample_ssl_def sha1_contract_def SHA_DIGEST_LENGTH_def evp_contract_def
      Pt_Encode_spec length_base64_spec mult.commute)


section \<open>Messages\<close>

text \<open>
  The contract between a sender and a receiver: building a frame touches nothing but the
  source of masking keys, and the receiver decodes the text frame the sender builds from
  whatever pieces it arrives in.
\<close>

locale ws_channel = sender: ws_endpoint svt for svt :: vtable +
  fixes rvt :: vtable
  assumes delivered: "\<lbrakk>vCreateFrame svt l TEXT p sw = (fr, sw'); connectionState rw = OPEN;
      0 \<le> connectionFd rw; p \<noteq> []; length p < 2 ^ 64; rx_stream (rx rw) = fr @ rest\<rbrakk> \<Longrightarrow>
      \<exists>es. Decode rvt rw = (p, rw\<lparr>rx := es\<rparr>) \<and> rx_stream es = rest"

text \<open>\<open>SendReply\<close> for one message after the other, and as many calls of \<open>Decode\<close>.\<close>

fun SendReplies :: "vtable \<Rightarrow> byte list list \<Rightarrow> ws \<Rightarrow> bool list \<times> ws" where
  "SendReplies vt [] w = ([], w)"
| "SendReplies vt (m # ms) w =
     (case SendReply vt m TEXT True w of (ok, w1) \<Rightarrow>
        case SendReplies vt ms w1 of (oks, w2) \<Rightarrow> (ok # oks, w2))"

fun Decodes :: "vtable \<Rightarrow> nat \<Rightarrow> ws \<Rightarrow> byte list list \<times> ws" where
  "Decodes vt 0 w = ([], w)"
| "Decodes vt (Suc n) w =
     (case Decode vt w of (m, w1) \<Rightarrow> case Decodes vt n w1 of (ms, w2) \<Rightarrow> (m # ms, w2))"

definition messages_ok :: "byte list list \<Rightarrow> bool" where
  "messages_ok ps \<longleftrightarrow> list_all (\<lambda>p. p \<noteq> [] \<and> length p < 2 ^ 64) ps"

context ws_channel
begin

lemma SendReply_sends:
  assumes "connectionState w = OPEN" "can_send w"
  obtains fr w' w'' where "vCreateFrame svt l t p w = (fr, w')" "SendReply svt p t l w = (True, w'')"
    "tx w'' = tx w @ fr" "connectionState w'' = OPEN" "can_send w''"
proof -
  obtain fr w' where c: "vCreateFrame svt l t p w = (fr, w')" by fastforce
  then obtain n where w': "w' = w\<lparr>maskCtr := n\<rparr>" using sender.create_keeps by blast
  with assms(2) obtain outs where "SendUnderLock fr w' = (True, w'\<lparr>tx := tx w' @ fr, sx := outs\<rparr>)"
    "list_all (\<lambda>k. 0 < k) outs"
    using SendUnderLock_all [of w' fr] by auto
  with assms c w' that show ?thesis by (simp add: SendReply_def)
qed

lemma messages_delivered:
  assumes "connectionState w = OPEN" "can_send w" "messages_ok ps"
  shows "\<exists>w' sent. SendReplies svt ps w = (replicate (length ps) True, w') \<and> tx w' = tx w @ sent \<and>
    (\<forall>rw rest. connectionState rw = OPEN \<longrightarrow> 0 \<le> connectionFd rw \<longrightarrow> rx_stream (rx rw) = sent @ rest \<longrightarrow>
       (\<exists>es. Decodes rvt (length ps) rw = (ps, rw\<lparr>rx := es\<rparr>) \<and> rx_stream es = rest))"
  using assms
proof (induction ps arbitrary: w)
  case Nil
  have "\<exists>es. rw = rw\<lparr>rx := es\<rparr> \<and> rx_stream es = rx_stream (rx rw)" for rw :: ws
    by (rule exI [of _ "rx rw"]) simp
  then show ?case by auto
next
  case (Cons p ps)
  obtain fr w0 w1 where c: "vCreateFrame svt True TEXT p w = (fr, w0)"
    and s: "SendReply svt p TEXT True w = (True, w1)"
    and w1: "tx w1 = tx w @ fr" "connectionState w1 = OPEN" "can_send w1"
    using SendReply_sends [OF Cons.prems(1,2), of True TEXT p] by metis
  from Cons.IH [OF w1(2,3)] Cons.prems(3) obtain w2 sent where
    r: "SendReplies svt ps w1 = (replicate (length ps) True, w2)" "tx w2 = tx w1 @ sent" and
    d: "\<And>rw rest. connectionState rw = OPEN \<Longrightarrow> 0 \<le> connectionFd rw \<Longrightarrow>
       rx_stream (rx rw) = sent @ rest \<Longrightarrow>
       \<exists>es. Decodes rvt (length ps) rw = (ps, rw\<lparr>rx := es\<rparr>) \<and> rx_stream es = rest"
    by (auto simp: messages_ok_def)
  have "\<exists>es. Decodes rvt (length (p # ps)) rw = (p # ps, rw\<lparr>rx := es\<rparr>) \<and> rx_stream es = rest"
    if rw: "connectionState rw = OPEN" "0 \<le> connectionFd rw" "rx_stream (rx rw) = (fr @ sent) @ rest" for rw rest
  proof -
    obtain es where es: "Decode rvt rw = (p, rw\<lparr>rx := es\<rparr>)" "rx_stream es = sent @ rest"
      using delivered [OF c rw(1,2), of "sent @ rest"] rw(3) Cons.prems(3) by (auto simp: messages_ok_def)
    obtain es' where "Decodes rvt (length ps) (rw\<lparr>rx := es\<rparr>) = (ps, rw\<lparr>rx := es'\<rparr>)" "rx_stream es' = rest"
      using d [of "rw\<lparr>rx := es\<rparr>" rest] rw es(2) by auto
    with es show ?thesis by (intro exI [of _ es']) simp
  qed
  moreover have "SendReplies svt (p # ps) w = (replicate (length (p # ps)) True, w2)"
    using s r by simp
  ultimately show ?case
    using w1(1) r(2) by (intro exI [of _ w2] exI [of _ "fr @ sent"]) auto
qed

end

interpretation c2s: ws_channel client_vt server_vt
proof
  fix l p sw fr sw' and rw :: ws and rest
  assume c: "vCreateFrame client_vt l TEXT p sw = (fr, sw')" and rw: "connectionState rw = OPEN"
    "0 \<le> connectionFd rw" "p \<noteq> []" "length p < 2 ^ 64" "rx_stream (rx rw) = fr @ rest"
  from c have "fr = client_frame (maskSrc sw (maskCtr sw)) l TEXT p"
    by (simp add: Client_CreateFrame_def GenerateMaskKey_def)
  with rw svw.Decode_text show "\<exists>es. Decode server_vt rw = (p, rw\<lparr>rx := es\<rparr>) \<and> rx_stream es = rest"
    by metis
qed

interpretation s2c: ws_channel server_vt client_vt
proof
  fix l p sw fr sw' and rw :: ws and rest
  assume c: "vCreateFrame server_vt l TEXT p sw = (fr, sw')" and rw: "connectionState rw = OPEN"
    "0 \<le> connectionFd rw" "p \<noteq> []" "length p < 2 ^ 64" "rx_stream (rx rw) = fr @ rest"
  from c have "fr = server_frame l TEXT p" by (simp add: Server_CreateFrame_def)
  with rw clw.Decode_text show "\<exists>es. Decode client_vt rw = (p, rw\<lparr>rx := es\<rparr>) \<and> rx_stream es = rest"
    by metis
qed

section \<open>Properties of a session\<close>





text \<open>
  C4. A server that decodes a ping answers it with one pong frame with the same payload
  and stays open.
\<close>

theorem server_answers_ping:
  assumes "connectionState w = OPEN" "can_send w" "p \<noteq> []" "length p < 2 ^ 64"
    and "rx_stream (rx w) = client_frame key l PING p @ rest"
  shows "\<exists>es outs. Decode server_vt w = (p, w\<lparr>rx := es, tx := tx w @ server_frame True PONG p, sx := outs\<rparr>) \<and>
    rx_stream es = rest"
proof -
  obtain es where d: "Decode server_vt w = (p, SendPongFrame server_vt p (w\<lparr>rx := es\<rparr>))" "rx_stream es = rest"
    using svw.Decode_ping [OF assms(1) _ assms(3-5)] assms(2) by blast
  obtain outs where "SendUnderLock (server_frame True PONG p) (w\<lparr>rx := es\<rparr>) =
      (True, w\<lparr>rx := es, tx := tx w @ server_frame True PONG p, sx := outs\<rparr>)"
    using SendUnderLock_all [of "w\<lparr>rx := es\<rparr>"] assms(2) by auto
  with d show ?thesis
    by (intro exI [of _ es] exI [of _ outs]) (simp add: SendPongFrame_def Server_CreateFrame_def)
qed

theorem server_answers_ping_witness:
  "\<exists>es outs. Decode server_vt (sample_ws (push_back_chunk (client_frame [1, 2, 3, 4] True PING [9]) [])) =
     ([9], (sample_ws (push_back_chunk (client_frame [1, 2, 3, 4] True PING [9]) []))\<lparr>rx := es,
       tx := server_frame True PONG [9], sx := outs\<rparr>) \<and> rx_stream es = []"
  using server_answers_ping [of "sample_ws (push_back_chunk (client_frame [1, 2, 3, 4] True PING [9]) [])" "[9]"
      "[1, 2, 3, 4]" True "[]"]
  by (simp add: sample_ws_def ws_new_def)

text \<open>
  C5. After a client's empty text frame the server has left the four bytes of the masking
  key in the stream, where the next \<open>Decode\<close> takes them for a header.
\<close>

theorem server_leaves_mask_of_empty_frame:
  assumes "connectionState w = OPEN" "0 \<le> connectionFd w"
    and st: "rx_stream (rx w) = client_frame key l TEXT [] @ rest"
  shows "\<exists>es. Decode server_vt w = ([], w\<lparr>rx := es\<rparr>) \<and> rx_stream es = mask_of key @ rest"
proof -
  let ?n = "payload_len_field (length ([] :: byte list)) OR 0x80"
  let ?f = "frame_of_header (first_byte l TEXT) ?n"
  obtain es where h: "RecvUnderLock HEADER_LEN w = (Some [first_byte l TEXT, ?n], w\<lparr>rx := es\<rparr>)"
    and es: "rx_stream es = mask_of key @ rest"
    using svw.header_read [OF assms(2) st] by (auto simp: ext_length_def)
  have "payloadLen f = 0 \<Longrightarrow> ReadPayload server_vt f (w\<lparr>rx := es\<rparr>) = (True, f, w\<lparr>rx := es\<rparr>)" for f
    by (simp add: ReadPayload_def Server_DecodeMessage_def)
  moreover have "payloadLen ?f = 0"
    by (simp only: payloadLen_of_field) (simp add: payload_len_field_def)
  ultimately have "ReadPayload server_vt ?f (w\<lparr>rx := es\<rparr>) = (True, ?f, w\<lparr>rx := es\<rparr>)" by blast
  moreover have "payload ?f = []" by (simp add: frame_of_header_def)
  ultimately have "Decode server_vt w = ([], w\<lparr>rx := es\<rparr>)"
    using assms(1) h svw.accepted [of "first_byte l TEXT" "[]"]
    by (simp add: Decode_def Let_def HandleFrame_def HandleDataFrame_def)
  with es show ?thesis by blast
qed

theorem server_leaves_mask_of_empty_frame_witness:
  "\<exists>es. Decode server_vt (sample_ws (push_back_chunk (client_frame [1, 2, 3, 4] True TEXT []) [])) =
     ([], (sample_ws (push_back_chunk (client_frame [1, 2, 3, 4] True TEXT []) []))\<lparr>rx := es\<rparr>) \<and>
     rx_stream es = [1, 2, 3, 4]"
  using server_leaves_mask_of_empty_frame
    [of "sample_ws (push_back_chunk (client_frame [1, 2, 3, 4] True TEXT []) [])" "[1, 2, 3, 4]" True "[]"]
  by (simp add: sample_ws_def ws_new_def upt_rec)

text \<open>
  C6. A data frame that is not text is dropped with an empty message, and its extended
  length, key and payload stay in the stream.
\<close>

theorem server_leaves_unsupported_frame:
  assumes "connectionState w = OPEN" "0 \<le> connectionFd w" "t = BINARY \<or> t = CONTINUATION"
    "rx_stream (rx w) = client_frame key l t p @ rest"
  shows "\<exists>es. Decode server_vt w = ([], w\<lparr>rx := es\<rparr>) \<and>
    rx_stream es = ext_length (length p) @ mask_of key @ xor_loop (mask_of key) 0 p @ rest"
  using svw.Decode_other_data [OF assms] by (metis append_assoc)

theorem server_leaves_unsupported_frame_witness:
  "\<exists>es. Decode server_vt (sample_ws (push_back_chunk (client_frame [0, 0, 0, 0] True BINARY [7]) [])) =
     ([], (sample_ws (push_back_chunk (client_frame [0, 0, 0, 0] True BINARY [7]) []))\<lparr>rx := es\<rparr>) \<and>
     rx_stream es = [0, 0, 0, 0, 7]"
  using server_leaves_unsupported_frame
    [of "sample_ws (push_back_chunk (client_frame [0, 0, 0, 0] True BINARY [7]) [])" BINARY "[0, 0, 0, 0]" True "[7]" "[]"]
  by (simp add: sample_ws_def ws_new_def upt_rec ext_length_def)

end
