(* ===== verification/Ws_Lifecycle.thy ===== *)
theory Ws_Lifecycle
  imports Ws_Server
begin

text \<open>
  The life of a server object, from construction through any sequence of calls to its
  destruction: the step relation of the public interface, and the invariant that ties
  the descriptors the object holds to the log of those it took over and closed.
\<close>

section \<open>Descriptors in the log\<close>

definition held :: "ws_action list \<Rightarrow> int \<Rightarrow> int" where
  "held acts fd = int (count_list acts (OwnFd fd)) - int (count_list acts (CloseFd fd))"

text \<open>Every descriptor that is shut down or closed is ours at that moment.\<close>

fun action_ok :: "ws_action list \<Rightarrow> ws_action \<Rightarrow> bool" where
  "action_ok acts (CloseFd fd) \<longleftrightarrow> (0 \<le> fd \<longrightarrow> 0 < held acts fd)"
| "action_ok acts (ShutdownFd fd) \<longleftrightarrow> (0 \<le> fd \<longrightarrow> 0 < held acts fd)"
| "action_ok acts _ \<longleftrightarrow> True"

definition log_ok :: "ws_action list \<Rightarrow> bool" where
  "log_ok acts \<longleftrightarrow> (\<forall>i<length acts. action_ok (take i acts) (acts ! i))"

lemma log_ok_Nil [simp]: "log_ok []"
  by (simp add: log_ok_def)

lemma log_ok_snoc [simp]: "log_ok (acts @ [a]) \<longleftrightarrow> log_ok acts \<and> action_ok acts a"
  by (auto simp: log_ok_def less_Suc_eq nth_append)

lemma log_ok_snoc2 [simp]:
  "log_ok (acts @ [a, b]) \<longleftrightarrow> log_ok acts \<and> action_ok acts a \<and> action_ok (acts @ [a]) b"
  using log_ok_snoc [of "acts @ [a]" b] by simp

lemma held_Nil [simp]: "held [] fd = 0"
  by (simp add: held_def)

lemma held_append [simp]: "held (xs @ ys) fd = held xs fd + held ys fd"
  by (simp add: held_def)

lemma held_single [simp]:
  "held [OwnFd a] fd = of_bool (a = fd)" "held [CloseFd a] fd = - of_bool (a = fd)"
  "held [ShutdownFd a] fd = 0" "held [CbOpen] fd = 0" "held [CbClose] fd = 0" "held [CbFail] fd = 0"
  by (simp_all add: held_def)

section \<open>The interface\<close>

datatype server_call =
  CallInitTcp os_calls int nat
| CallInitUnix os_calls nat
| CallInitUnixFd os_calls "int \<times> rx_event list \<times> int list"
| CallAccept openssl "int \<times> rx_event list \<times> int list"
| CallConnectSocketpair openssl
| CallSendReply "byte list" FrameType bool
| CallDecode
| CallCloseConnection CloseStatusCode
| CallClose
| CallSetCallbacks "(HttpRequest \<Rightarrow> bool) option" bool bool bool

fun server_step :: "server_call \<Rightarrow> server \<Rightarrow> server option" where
  "server_step (CallInitTcp os port t) s = Some (snd (InitTcpWebSocket os port t s))"
| "server_step (CallInitUnix os t) s = Some (snd (InitUnixWebSocket os t s))"
| "server_step (CallInitUnixFd os acc) s = Some (snd (InitUnixWebSocket_fd os acc s))"
| "server_step (CallAccept ssl acc) s = Some (snd (AcceptNewConnection ssl acc s))"
| "server_step (CallConnectSocketpair ssl) s = Some (snd (ConnectUnixWebSocketBySocketpair ssl s))"
| "server_step (CallSendReply m t l) s = Some (s\<lparr>sv_ws := snd (SendReply server_vt m t l (sv_ws s))\<rparr>)"
| "server_step CallDecode s = Some (s\<lparr>sv_ws := snd (Decode server_vt (sv_ws s))\<rparr>)"
| "server_step (CallCloseConnection st) s = Some (s\<lparr>sv_ws := snd (CloseConnection server_vt st (sv_ws s))\<rparr>)"
| "server_step CallClose s = Close [] s"
| "server_step (CallSetCallbacks v op cl f) s =
     Some (SetOpenConnectionCallback op (SetValidateConnectionCallback v
       (s\<lparr>sv_ws := SetFailConnectionCallback f (SetCloseConnectionCallback cl (sv_ws s))\<rparr>)))"

text \<open>
  What the caller has to see to: a set-up function is not called over a descriptor that a
  failed set-up left behind, and \<open>AcceptNewConnection\<close> not over the socket of a pair.
\<close>

fun call_ok :: "server_call \<Rightarrow> server \<Rightarrow> bool" where
  "call_ok (CallInitTcp os port t) s \<longleftrightarrow> port < 0 \<or> serverUp s \<or> serverFd s = -1"
| "call_ok (CallInitUnix os t) s \<longleftrightarrow> serverUp s \<or> serverFd s = -1"
| "call_ok (CallInitUnixFd os acc) s \<longleftrightarrow> serverUp s \<or> connectionFd (sv_ws s) = -1"
| "call_ok (CallAccept ssl acc) s \<longleftrightarrow> connectionState (sv_ws s) = CLOSED \<longrightarrow> connectionFd (sv_ws s) = -1"
| "call_ok _ s \<longleftrightarrow> True"

inductive server_reach :: "server \<Rightarrow> bool" where
  reach_new: "server_reach WebSocketServer_new"
| reach_step: "\<lbrakk>server_reach s; call_ok c s; server_step c s = Some s'\<rbrakk> \<Longrightarrow> server_reach s'"

section \<open>The invariant\<close>

text \<open>
  Between calls the connection is open or closed, an open one has a descriptor, and the
  descriptors held are the connection's and the listening one.
\<close>

definition fds_ok :: "ws \<Rightarrow> int \<Rightarrow> bool" where
  "fds_ok w sfd \<longleftrightarrow> -1 \<le> connectionFd w \<and> log_ok (actions w) \<and>
     (\<forall>fd\<ge>0. held (actions w) fd = of_bool (connectionFd w = fd) + of_bool (sfd = fd))"

definition server_inv :: "server \<Rightarrow> bool" where
  "server_inv s \<longleftrightarrow> fds_ok (sv_ws s) (serverFd s) \<and>
     (connectionState (sv_ws s) = CLOSED \<or> connectionState (sv_ws s) = OPEN \<and> 0 \<le> connectionFd (sv_ws s))"

lemma fds_ok_cong:
  "fds_ok w sfd \<Longrightarrow> connectionFd w' = connectionFd w \<Longrightarrow> actions w' = actions w \<Longrightarrow> fds_ok w' sfd"
  by (simp add: fds_ok_def)

lemma fds_ok_close_connection [inv_intros]:
  assumes "fds_ok w sfd"
  shows "fds_ok (CloseConnectionSocket status w) sfd"
proof -
  have "log_ok (actions w @ close_actions status w)"
    using assms unfolding close_actions_def fds_ok_def
    by (cases status) (auto simp flip: append_assoc)
  moreover have "held (close_actions status w) fd = - of_bool (connectionFd w = fd)" for fd
    by (cases status) (auto simp: close_actions_def held_def)
  ultimately show ?thesis
    using assms by (simp add: fds_ok_def CloseConnectionSocket_eq)
qed

lemma fds_ok_own_connection [inv_intros]:
  assumes "fds_ok w sfd" "connectionFd w = -1" "0 \<le> fd"
  shows "fds_ok (SetConnectionSocket fd es outs w) sfd"
  using assms by (auto simp: fds_ok_def SetConnectionSocket_def)

lemma fds_ok_own_server [inv_intros]:
  assumes "fds_ok w (-1)"
  shows "fds_ok (log_action (OwnFd fd) w) fd"
  using assms by (auto simp: fds_ok_def)

lemma fds_ok_close_server [inv_intros]:
  assumes "fds_ok w sfd"
  shows "fds_ok (log_action (CloseFd sfd) w) (-1)"
  using assms by (auto simp: fds_ok_def)

lemma fds_ok_shutdown_server [inv_intros]:
  "fds_ok w sfd \<Longrightarrow> fds_ok (log_action (ShutdownFd sfd) w) sfd"
  by (auto simp: fds_ok_def)

lemma fds_ok_callback [inv_intros]:
  "fds_ok w sfd \<Longrightarrow> fds_ok (log_action CbOpen w) sfd"
  by (auto simp: fds_ok_def)

section \<open>Every call keeps the invariant\<close>

lemma HttpHandShake_keeps:
  assumes "HttpHandShake ssl s = (ok, s')"
  obtains es sent outs where "s' = s\<lparr>sv_ws := (sv_ws s)\<lparr>rx := es, tx := sent, sx := outs\<rparr>\<rparr>"
proof -
  have r: "\<exists>es. w = (sv_ws s)\<lparr>rx := es\<rparr>" if "recv_handshake (sv_ws s) = (m, w)" for m w
    using that by (auto simp: recv_handshake_def intro: exI [of _ "rx (sv_ws s)"]
        split: if_splits prod.splits recv_ret.splits)
  have send: "\<exists>sent outs. w' = w\<lparr>tx := sent, sx := outs\<rparr>" if "SendUnderLock m w = (b, w')" for m w b w'
    using that by (elim SendUnderLock_keeps) blast
  have keep: "\<exists>sent outs. w = w\<lparr>tx := sent, sx := outs\<rparr>" for w :: ws
    by (intro exI [of _ "tx w"] exI [of _ "sx w"]) simp
  have up: "\<exists>sent outs. w' = w\<lparr>tx := sent, sx := outs\<rparr>" if "ProtocolUpgrade ssl req w = (b, w')" for req w b w'
    using that keep by (auto simp: ProtocolUpgrade_def split: option.splits dest: send)
  have bad: "\<exists>sent outs. snd (ResponseInvalidHandShake w) = w\<lparr>tx := sent, sx := outs\<rparr>" for w
    using send by (metis ResponseInvalidHandShake_def prod.collapse)
  obtain m w where w: "recv_handshake (sv_ws s) = (m, w)" by fastforce
  then obtain es where es: "w = (sv_ws s)\<lparr>rx := es\<rparr>" using r by blast
  obtain w' where "s' = s\<lparr>sv_ws := w'\<rparr>" "\<exists>sent outs. w' = w\<lparr>tx := sent, sx := outs\<rparr>"
    using assms w keep [of w] bad [of w]
    by (auto simp: HttpHandShake_def split: option.splits prod.splits if_splits bool.splits dest!: up)
  with es that show ?thesis by auto
qed

lemma server_inv_accept [inv_intros]:
  assumes "server_inv s" "call_ok (CallAccept ssl acc) s" "AcceptNewConnection ssl acc s = (ok, s')"
  shows "server_inv s'"
proof (cases "serverUp s \<and> connectionState (sv_ws s) = CLOSED \<and> 0 \<le> fst acc")
  case False
  with assms show ?thesis
    by (auto simp: AcceptNewConnection_def MoveToConnectingState_def CompareExchangeConnectionState_def
        SetConnectionState_def server_inv_def fds_ok_def split: if_splits prod.splits)
next
  case True
  obtain fd es outs where acc: "acc = (fd, es, outs)" by (cases acc)
  let ?w = "SetConnectionSocket fd es outs ((sv_ws s)\<lparr>connectionState := CONNECTING\<rparr>)"
  obtain h s2 where h: "HttpHandShake ssl (s\<lparr>sv_ws := ?w\<rparr>) = (h, s2)" by fastforce
  then obtain es' sent outs' where s2: "s2 = s\<lparr>sv_ws := ?w\<lparr>rx := es', tx := sent, sx := outs'\<rparr>\<rparr>"
    by (rule HttpHandShake_keeps) simp
  have "fds_ok ((sv_ws s)\<lparr>connectionState := CONNECTING\<rparr>) (serverFd s)" "connectionFd (sv_ws s) = -1"
    using assms(1,2) True acc by (auto simp: server_inv_def fds_ok_def)
  then have w: "fds_ok ?w (serverFd s)" using True acc by (intro fds_ok_own_connection) auto
  then have ok: "fds_ok (sv_ws s2) (serverFd s)" "connectionFd (sv_ws s2) = fd" "serverFd s2 = serverFd s"
    by (auto simp: s2 SetConnectionSocket_def intro: fds_ok_cong)
  have "AcceptNewConnection ssl acc s = (if h then (True, OnNewConnection s2)
      else (False, s2\<lparr>sv_ws := CloseConnectionSocket FAIL ((sv_ws s2)\<lparr>connectionState := CLOSING\<rparr>)\<rparr>))"
    using True acc h by (simp add: AcceptNewConnection_def MoveToConnectingState_def
        CompareExchangeConnectionState_def SetConnectionState_def)
  moreover have "server_inv (OnNewConnection s2)"
    using ok True acc fds_ok_callback [OF ok(1)]
    by (auto simp: OnNewConnection_def SetConnectionState_def server_inv_def Let_def intro: fds_ok_cong)
  moreover have "fds_ok (CloseConnectionSocket FAIL ((sv_ws s2)\<lparr>connectionState := CLOSING\<rparr>)) (serverFd s)"
    using ok(1) by (intro fds_ok_close_connection) (auto intro: fds_ok_cong)
  ultimately show ?thesis
    using assms(3) ok(3) by (auto simp: server_inv_def CloseConnectionSocket_eq split: if_splits)
qed

lemma HttpHandShake_fd: "HttpHandShake ssl s = (True, s') \<Longrightarrow> 0 \<le> connectionFd (sv_ws s)"
  by (auto simp: HttpHandShake_def recv_handshake_def split: if_splits)

lemma server_inv_socketpair [inv_intros]:
  assumes "server_inv s" "ConnectUnixWebSocketBySocketpair ssl s = (ok, s')"
  shows "server_inv s'"
proof (cases "serverUp s \<and> connectionState (sv_ws s) = CLOSED")
  case False
  with assms show ?thesis
    by (auto simp: ConnectUnixWebSocketBySocketpair_def MoveToConnectingState_def
        CompareExchangeConnectionState_def server_inv_def split: if_splits prod.splits)
next
  case True
  let ?w = "(sv_ws s)\<lparr>connectionState := CONNECTING\<rparr>"
  obtain h s2 where h: "HttpHandShake ssl (s\<lparr>sv_ws := ?w\<rparr>) = (h, s2)" by fastforce
  then obtain es' sent outs' where s2: "s2 = s\<lparr>sv_ws := ?w\<lparr>rx := es', tx := sent, sx := outs'\<rparr>\<rparr>"
    by (rule HttpHandShake_keeps) simp
  have ok: "fds_ok (sv_ws s2) (serverFd s)" "serverFd s2 = serverFd s"
    using assms(1) by (auto simp: s2 server_inv_def intro: fds_ok_cong)
  have fd: "h \<Longrightarrow> 0 \<le> connectionFd (sv_ws s2)" using h HttpHandShake_fd [of ssl "s\<lparr>sv_ws := ?w\<rparr>" s2] by (simp add: s2)
  have "ConnectUnixWebSocketBySocketpair ssl s = (if h then (True, OnNewConnection s2)
      else (False, s2\<lparr>sv_ws := CloseConnectionSocket FAIL ((sv_ws s2)\<lparr>connectionState := CLOSING\<rparr>)\<rparr>))"
    using True h by (simp add: ConnectUnixWebSocketBySocketpair_def MoveToConnectingState_def
        CompareExchangeConnectionState_def SetConnectionState_def)
  moreover have "h \<Longrightarrow> server_inv (OnNewConnection s2)"
    using ok fd fds_ok_callback [OF ok(1)]
    by (auto simp: OnNewConnection_def SetConnectionState_def server_inv_def Let_def intro: fds_ok_cong)
  moreover have "fds_ok (CloseConnectionSocket FAIL ((sv_ws s2)\<lparr>connectionState := CLOSING\<rparr>)) (serverFd s)"
    using ok(1) by (intro fds_ok_close_connection) (auto intro: fds_ok_cong)
  ultimately show ?thesis
    using assms(2) ok(2) by (auto simp: server_inv_def CloseConnectionSocket_eq split: if_splits)
qed

text \<open>The ways a call can leave the connection: as it was, or closed with its descriptor.\<close>

definition closes :: "ws \<Rightarrow> ws \<Rightarrow> bool" where
  "closes w w' \<longleftrightarrow> connectionState w' = CLOSED \<and> connectionFd w' = -1 \<and>
     actions w' = actions w @ close_actions ConnectionCloseReason.CLOSE w"

definition leaves :: "ws \<Rightarrow> ws \<Rightarrow> bool" where
  "leaves w w' \<longleftrightarrow> connectionState w' = connectionState w \<and> connectionFd w' = connectionFd w \<and> actions w' = actions w"

lemma server_inv_closes:
  assumes "server_inv s" "leaves (sv_ws s) w \<or> closes (sv_ws s) w"
  shows "server_inv (s\<lparr>sv_ws := w\<rparr>)"
proof -
  have "fds_ok w (serverFd s)" if "closes (sv_ws s) w"
    using assms(1) that fds_ok_close_connection [of "sv_ws s" "serverFd s" ConnectionCloseReason.CLOSE]
    by (auto simp: server_inv_def closes_def CloseConnectionSocket_eq intro: fds_ok_cong)
  with assms show ?thesis
    by (auto simp: server_inv_def leaves_def closes_def intro: fds_ok_cong)
qed

lemma CloseConnection_closes:
  "connectionState w = OPEN \<Longrightarrow> closes w (snd (CloseConnection server_vt st w))"
  using sv.CloseConnection_open [of w st] by (metis closes_def prod.collapse)

lemma CloseConnection_leaves_or_closes:
  "leaves w (snd (CloseConnection server_vt st w)) \<or> closes w (snd (CloseConnection server_vt st w))"
  using CloseConnection_closes [of w st] sv.CloseConnection_not_open [of w st]
  by (cases "connectionState w = OPEN") (auto simp: leaves_def)

lemma Decode_leaves_or_closes:
  "leaves w (snd (Decode server_vt w)) \<or> closes w (snd (Decode server_vt w))"
proof (cases "connectionState w = OPEN")
  case True
  obtain m w' where "Decode server_vt w = (m, w')" by fastforce
  with sv.Decode_open [OF True this] True show ?thesis by (auto simp: leaves_def closes_def)
qed (simp add: sv.Decode_not_open leaves_def)

lemma SendReply_leaves: "leaves w (snd (SendReply server_vt m t l w))"
proof -
  obtain b w' where s: "SendUnderLock (server_frame l t m) w = (b, w')" by fastforce
  then have "leaves w w'" by (elim SendUnderLock_keeps) (simp add: leaves_def)
  with s show ?thesis by (simp add: SendReply_def Server_CreateFrame_def leaves_def)
qed

lemma server_inv_close [inv_intros]:
  assumes "server_inv s" "Close [] s = Some s'"
  shows "server_inv s'"
proof -
  let ?w1 = "log_action (ShutdownFd (serverFd s)) (sv_ws s)"
  let ?s1 = "s\<lparr>serverUp := False, serverFd := -1, sv_ws := log_action (CloseFd (serverFd s)) ?w1\<rparr>"
  have "fds_ok (log_action (CloseFd (serverFd s)) ?w1) (-1)"
    using assms(1) by (intro fds_ok_close_server fds_ok_shutdown_server) (simp add: server_inv_def)
  then have s1: "server_inv ?s1" using assms(1) by (simp add: server_inv_def)
  have st: "connectionState (sv_ws s) = CLOSED \<or> connectionState (sv_ws s) = OPEN"
    using assms(1) by (auto simp: server_inv_def)
  have "s' = s \<or> s' = ?s1 \<or> s' = ?s1\<lparr>sv_ws := snd (CloseConnection server_vt SERVER_GO_AWAY (sv_ws ?s1))\<rparr>"
    using assms(2) st
    by (auto simp: Close_def CloseServerSocket_def WaitConnectingStateEnds.simps Let_def split: if_splits)
  with s1 assms(1) server_inv_closes [OF s1 CloseConnection_leaves_or_closes] show ?thesis by blast
qed

lemma server_inv_init_tcp [inv_intros]:
  assumes "server_inv s" "call_ok (CallInitTcp os port t) s"
  shows "server_inv (snd (InitTcpWebSocket os port t s))"
proof (cases "port < 0 \<or> serverUp s \<or> os_socket os < 0")
  case True
  with assms show ?thesis
    by (auto simp: InitTcpWebSocket_def server_inv_def fds_ok_def)
next
  case False
  let ?w = "log_action (OwnFd (os_socket os)) (sv_ws s)"
  have "fds_ok ?w (os_socket os)"
    using assms False by (intro fds_ok_own_server) (auto simp: server_inv_def)
  moreover from this have "fds_ok (log_action (CloseFd (os_socket os)) ?w) (-1)"
    by (rule fds_ok_close_server)
  ultimately show ?thesis
    using assms(1) False
    by (auto simp: InitTcpWebSocket_def BindAndListenTcpWebSocket_def own_server_fd_def CloseServerSocket_def
        server_inv_def Let_def)
qed

lemma server_inv_init_unix [inv_intros]:
  assumes "server_inv s" "call_ok (CallInitUnix os t) s"
  shows "server_inv (snd (InitUnixWebSocket os t s))"
proof (cases "serverUp s \<or> os_socket os < 0")
  case True
  with assms show ?thesis
    by (auto simp: InitUnixWebSocket_def server_inv_def fds_ok_def)
next
  case False
  let ?w = "log_action (OwnFd (os_socket os)) (sv_ws s)"
  have "fds_ok ?w (os_socket os)"
    using assms False by (intro fds_ok_own_server) (auto simp: server_inv_def)
  moreover from this have "fds_ok (log_action (CloseFd (os_socket os)) ?w) (-1)"
    by (rule fds_ok_close_server)
  ultimately show ?thesis
    using assms(1) False
    by (auto simp: InitUnixWebSocket_def own_server_fd_def CloseServerSocket_def server_inv_def Let_def)
qed

lemma server_inv_init_fd [inv_intros]:
  assumes "server_inv s" "call_ok (CallInitUnixFd os acc) s"
  shows "server_inv (snd (InitUnixWebSocket_fd os acc s))"
proof (cases "serverUp s \<or> fst acc < 0")
  case True
  with assms(1) show ?thesis by (auto simp: InitUnixWebSocket_fd_def split: prod.splits)
next
  case False
  obtain fd es outs where acc: "acc = (fd, es, outs)" by (cases acc)
  have "fds_ok (SetConnectionSocket fd es outs (sv_ws s)) (serverFd s)"
    using assms False acc by (intro fds_ok_own_connection) (auto simp: server_inv_def)
  with assms(1) False acc show ?thesis
    by (auto simp: InitUnixWebSocket_fd_def server_inv_def SetConnectionSocket_def Let_def)
qed

lemma server_inv_step:
  assumes "server_inv s" "call_ok c s" "server_step c s = Some s'"
  shows "server_inv s'"
proof (cases c)
  case (CallAccept ssl acc)
  with assms server_inv_accept [OF assms(1)] show ?thesis by (metis option.inject prod.collapse server_step.simps(4))
next
  case (CallConnectSocketpair ssl)
  with assms server_inv_socketpair [OF assms(1)] show ?thesis
    by (metis option.inject prod.collapse server_step.simps(5))
next
  case (CallSendReply m t l)
  with assms server_inv_closes [OF assms(1)] SendReply_leaves show ?thesis by auto
next
  case CallDecode
  with assms server_inv_closes [OF assms(1) Decode_leaves_or_closes] show ?thesis by auto
next
  case (CallCloseConnection st)
  with assms server_inv_closes [OF assms(1) CloseConnection_leaves_or_closes] show ?thesis by auto
next
  case (CallSetCallbacks v op cl f)
  with assms show ?thesis
    by (auto simp: server_inv_def SetOpenConnectionCallback_def SetValidateConnectionCallback_def
        SetFailConnectionCallback_def SetCloseConnectionCallback_def intro: fds_ok_cong)
qed (use assms in \<open>auto intro: inv_intros\<close>)

lemma server_reach_inv: "server_reach s \<Longrightarrow> server_inv s"
proof (induction rule: server_reach.induct)
  case reach_new
  show ?case by (simp add: server_inv_def fds_ok_def WebSocketServer_new_def ws_new_def)
next
  case (reach_step s c s')
  then show ?case using server_inv_step by blast
qed

section \<open>Properties\<close>



definition sample_os :: os_calls where
  "sample_os = \<lparr>os_socket = 4, os_reuseaddr = 0, os_sndtimeo = 0, os_rcvtimeo = 0, os_memset_s = 0,
     os_strcpy_s = 0, os_inet_pton = 1, os_bind = 0, os_listen = 0, os_connect = 0, os_getfl = 2\<rparr>"

definition running_server :: server where
  "running_server = snd (InitTcpWebSocket sample_os 9230 0 WebSocketServer_new)"

lemma running_server_reach: "server_reach running_server"
  by (rule reach_step [OF reach_new, of "CallInitTcp sample_os 9230 0"])
    (simp_all add: running_server_def WebSocketServer_new_def)

lemma running_server_state:
  "serverUp running_server" "serverFd running_server = 4" "actions (sv_ws running_server) = [OwnFd 4]"
  "connectionFd (sv_ws running_server) = -1"
  by (simp_all add: running_server_def InitTcpWebSocket_def sample_os_def SetWebSocketTimeOut_def own_server_fd_def
      BindAndListenTcpWebSocket_def WebSocketServer_new_def ws_new_def Let_def)



end
