(* ===== verification/Ws_Concurrent.thy ===== *)
theory Ws_Concurrent
  imports Ws_Base
begin

text \<open>
  Interleavings of \<open>AcceptNewConnection\<close>, \<open>Close\<close> and \<open>CloseConnection\<close>
  (\<^verbatim>\<open>websocket/server/websocket_server.cpp\<close>, \<^verbatim>\<open>websocket/websocket_base.cpp\<close>), each called
  again and again by its own thread. A thread is a program counter; a step is one access
  to an atomic variable or one section under \<^verbatim>\<open>connectionMutex_\<close>, whose exclusive sections
  (setting and closing the descriptor) exclude the shared ones (shutting it down, sending).
  \<open>accept\<close> and the handshake succeed or fail as they like.
\<close>

section \<open>Threads\<close>

datatype sub_pc = SShutdown | SClose | SDone

datatype acc_pc = AIdle | ACas | ARecheck | AAbort | AAccept | AInstall int | AHandshake | AOpen | AReject | AClose sub_pc

datatype close_pc = CIdle | CShutdown | CLoad | CWait bool | CReload bool | CServer ConnectionState | CEarly
  | CCas | CSend | CSub sub_pc

datatype user_pc = UIdle | USend | USub sub_pc

datatype use = Own int | Shut int | Closed int | Accepted int | Sent int

record conc =
  cst :: ConnectionState
  cfd :: int
  up :: bool
  sfd :: int
  apc :: acc_pc
  cpc :: close_pc
  upc :: user_pc
  uses :: "use list"

definition use_fd :: "use \<Rightarrow> conc \<Rightarrow> conc" where
  "use_fd u s = s\<lparr>uses := uses s @ [u]\<rparr>"

text \<open>
  \<open>CloseConnectionSocket\<close> after its callback: shut down, close and forget, then \<open>CLOSING\<close>
  to \<open>CLOSED\<close>. The next counter is \<open>None\<close> when it returns.
\<close>

fun sub_step :: "sub_pc \<Rightarrow> conc \<Rightarrow> sub_pc option \<times> conc" where
  "sub_step SShutdown s = (Some SClose, use_fd (Shut (cfd s)) s)"
| "sub_step SClose s = (Some SDone, (use_fd (Closed (cfd s)) s)\<lparr>cfd := -1\<rparr>)"
| "sub_step SDone s = (None, if cst s = CLOSING then s\<lparr>cst := CLOSED\<rparr> else s)"

text \<open>\<open>AcceptNewConnection\<close>, with \<open>MoveToConnectingState\<close> and \<open>OnNewConnection\<close> in line.\<close>

inductive acc_step :: "conc \<Rightarrow> conc \<Rightarrow> bool" where
  acc_up: "apc s = AIdle \<Longrightarrow> up s \<Longrightarrow> acc_step s (s\<lparr>apc := ACas\<rparr>)"
| acc_cas: "apc s = ACas \<Longrightarrow> cst s = CLOSED \<Longrightarrow> acc_step s (s\<lparr>cst := CONNECTING, apc := ARecheck\<rparr>)"
| acc_busy: "apc s = ACas \<Longrightarrow> cst s \<noteq> CLOSED \<Longrightarrow> acc_step s (s\<lparr>apc := AIdle\<rparr>)"
| acc_recheck: "apc s = ARecheck \<Longrightarrow> acc_step s (s\<lparr>apc := (if up s then AAccept else AAbort)\<rparr>)"
| acc_abort: "apc s = AAbort \<Longrightarrow> acc_step s (s\<lparr>cst := CLOSED, apc := AIdle\<rparr>)"
| acc_accept: "apc s = AAccept \<Longrightarrow> 0 \<le> fd \<Longrightarrow> acc_step s ((use_fd (Accepted (sfd s)) s)\<lparr>apc := AInstall fd\<rparr>)"
| acc_accept_fails: "apc s = AAccept \<Longrightarrow> acc_step s ((use_fd (Accepted (sfd s)) s)\<lparr>apc := AAbort\<rparr>)"
| acc_install: "apc s = AInstall fd \<Longrightarrow> acc_step s ((use_fd (Own fd) s)\<lparr>cfd := fd, apc := AHandshake\<rparr>)"
| acc_handshake: "apc s = AHandshake \<Longrightarrow> pc = AOpen \<or> pc = AReject \<Longrightarrow>
    acc_step s ((use_fd (Sent (cfd s)) s)\<lparr>apc := pc\<rparr>)"
| acc_open: "apc s = AOpen \<Longrightarrow> acc_step s (s\<lparr>cst := OPEN, apc := AIdle\<rparr>)"
| acc_reject: "apc s = AReject \<Longrightarrow> acc_step s (s\<lparr>cst := CLOSING, apc := AClose SShutdown\<rparr>)"
| acc_close: "apc s = AClose p \<Longrightarrow> sub_step p s = (q, s1) \<Longrightarrow>
    acc_step s (s1\<lparr>apc := (case q of None \<Rightarrow> AIdle | Some p' \<Rightarrow> AClose p')\<rparr>)"

text \<open>\<open>Close\<close>, with \<open>WaitConnectingStateEnds\<close> and the final \<open>CloseConnection\<close> in line.\<close>

inductive close_step :: "conc \<Rightarrow> conc \<Rightarrow> bool" where
  close_down: "cpc s = CIdle \<Longrightarrow> up s \<Longrightarrow> close_step s (s\<lparr>up := False, cpc := CShutdown\<rparr>)"
| close_shutdown: "cpc s = CShutdown \<Longrightarrow> close_step s ((use_fd (Shut (sfd s)) s)\<lparr>cpc := CLoad\<rparr>)"
| close_load: "cpc s = CLoad \<Longrightarrow> close_step s (s\<lparr>cpc :=
    (if cst s = CLOSING \<or> cst s = CLOSED then CEarly else if cst s = CONNECTING then CWait False else CServer (cst s))\<rparr>)"
| close_wait_shut: "cpc s = CWait False \<Longrightarrow> cfd s \<noteq> -1 \<Longrightarrow>
    close_step s ((use_fd (Shut (cfd s)) s)\<lparr>cpc := CReload True\<rparr>)"
| close_wait_none: "cpc s = CWait False \<Longrightarrow> cfd s = -1 \<Longrightarrow> close_step s (s\<lparr>cpc := CReload False\<rparr>)"
| close_wait_again: "cpc s = CWait True \<Longrightarrow> close_step s (s\<lparr>cpc := CReload True\<rparr>)"
| close_reload: "cpc s = CReload b \<Longrightarrow>
    close_step s (s\<lparr>cpc := (if cst s = CONNECTING then CWait b else CServer (cst s))\<rparr>)"
| close_server: "cpc s = CServer st \<Longrightarrow> close_step s ((use_fd (Closed (sfd s)) s)\<lparr>sfd := -1,
    cpc := (if st = CLOSING \<or> st = CLOSED then CIdle else CCas)\<rparr>)"
| close_early: "cpc s = CEarly \<Longrightarrow> close_step s ((use_fd (Closed (sfd s)) s)\<lparr>sfd := -1, cpc := CIdle\<rparr>)"
| close_cas: "cpc s = CCas \<Longrightarrow> cst s = OPEN \<Longrightarrow> close_step s (s\<lparr>cst := CLOSING, cpc := CSend\<rparr>)"
| close_lost: "cpc s = CCas \<Longrightarrow> cst s \<noteq> OPEN \<Longrightarrow> close_step s (s\<lparr>cpc := CIdle\<rparr>)"
| close_send: "cpc s = CSend \<Longrightarrow> close_step s ((use_fd (Sent (cfd s)) s)\<lparr>cpc := CSub SShutdown\<rparr>)"
| close_sub: "cpc s = CSub p \<Longrightarrow> sub_step p s = (q, s1) \<Longrightarrow>
    close_step s (s1\<lparr>cpc := (case q of None \<Rightarrow> CIdle | Some p' \<Rightarrow> CSub p')\<rparr>)"

text \<open>\<open>CloseConnection\<close>, as the user or \<open>Decode\<close> calls it.\<close>

inductive user_step :: "conc \<Rightarrow> conc \<Rightarrow> bool" where
  user_cas: "upc s = UIdle \<Longrightarrow> cst s = OPEN \<Longrightarrow> user_step s (s\<lparr>cst := CLOSING, upc := USend\<rparr>)"
| user_send: "upc s = USend \<Longrightarrow> user_step s ((use_fd (Sent (cfd s)) s)\<lparr>upc := USub SShutdown\<rparr>)"
| user_sub: "upc s = USub p \<Longrightarrow> sub_step p s = (q, s1) \<Longrightarrow>
    user_step s (s1\<lparr>upc := (case q of None \<Rightarrow> UIdle | Some p' \<Rightarrow> USub p')\<rparr>)"

inductive conc_reach :: "int \<Rightarrow> conc \<Rightarrow> bool" for lfd where
  conc_start: "conc_reach lfd \<lparr>cst = CLOSED, cfd = -1, up = True, sfd = lfd, apc = AIdle, cpc = CIdle, upc = UIdle,
     uses = [Own lfd]\<rparr>"
| conc_step: "conc_reach lfd s \<Longrightarrow> acc_step s s' \<or> close_step s s' \<or> user_step s s' \<Longrightarrow> conc_reach lfd s'"

section \<open>The invariant\<close>

definition owned :: "use list \<Rightarrow> int \<Rightarrow> int" where
  "owned us fd = int (count_list us (Own fd)) - int (count_list us (Closed fd))"

text \<open>A descriptor is used only while it is owned.\<close>

fun use_ok :: "use list \<Rightarrow> use \<Rightarrow> bool" where
  "use_ok us (Own fd) \<longleftrightarrow> True"
| "use_ok us (Shut fd) \<longleftrightarrow> 0 \<le> fd \<and> 0 < owned us fd"
| "use_ok us (Closed fd) \<longleftrightarrow> 0 \<le> fd \<and> 0 < owned us fd"
| "use_ok us (Accepted fd) \<longleftrightarrow> 0 \<le> fd \<and> 0 < owned us fd"
| "use_ok us (Sent fd) \<longleftrightarrow> 0 \<le> fd \<and> 0 < owned us fd"

definition uses_ok :: "use list \<Rightarrow> bool" where
  "uses_ok us \<longleftrightarrow> (\<forall>i<length us. use_ok (take i us) (us ! i))"

text \<open>Which counters lie between \<open>CONNECTING\<close> and leaving it, and inside a close.\<close>

fun connecting :: "acc_pc \<Rightarrow> bool" where
  "connecting ARecheck \<longleftrightarrow> True" | "connecting AAbort \<longleftrightarrow> True" | "connecting AAccept \<longleftrightarrow> True"
| "connecting (AInstall fd) \<longleftrightarrow> True" | "connecting AHandshake \<longleftrightarrow> True" | "connecting AOpen \<longleftrightarrow> True"
| "connecting AReject \<longleftrightarrow> True" | "connecting _ \<longleftrightarrow> False"

fun installed :: "acc_pc \<Rightarrow> bool" where
  "installed AHandshake \<longleftrightarrow> True" | "installed AOpen \<longleftrightarrow> True" | "installed AReject \<longleftrightarrow> True"
| "installed _ \<longleftrightarrow> False"

fun acc_closing :: "acc_pc \<Rightarrow> sub_pc option" where
  "acc_closing (AClose p) = Some p" | "acc_closing _ = None"

fun close_closing :: "close_pc \<Rightarrow> sub_pc option" where
  "close_closing CSend = Some SShutdown" | "close_closing (CSub p) = Some p" | "close_closing _ = None"

fun user_closing :: "user_pc \<Rightarrow> sub_pc option" where
  "user_closing USend = Some SShutdown" | "user_closing (USub p) = Some p" | "user_closing UIdle = None"

definition closers :: "conc \<Rightarrow> sub_pc list" where
  "closers s = concat (map (\<lambda>p. case p of None \<Rightarrow> [] | Some q \<Rightarrow> [q])
     [acc_closing (apc s), close_closing (cpc s), user_closing (upc s)])"

text \<open>How far \<open>Close\<close> is: whether it may still have to wait for the acceptor.\<close>

fun before_wait_ends :: "close_pc \<Rightarrow> bool" where
  "before_wait_ends CShutdown \<longleftrightarrow> True" | "before_wait_ends CLoad \<longleftrightarrow> True"
| "before_wait_ends (CWait b) \<longleftrightarrow> True" | "before_wait_ends (CReload b) \<longleftrightarrow> True" | "before_wait_ends _ \<longleftrightarrow> False"

fun before_server_close :: "close_pc \<Rightarrow> bool" where
  "before_server_close (CServer st) \<longleftrightarrow> True" | "before_server_close CEarly \<longleftrightarrow> True"
| "before_server_close p \<longleftrightarrow> before_wait_ends p"

fun may_be_open :: "close_pc \<Rightarrow> bool" where
  "may_be_open (CServer st) \<longleftrightarrow> st = OPEN" | "may_be_open CCas \<longleftrightarrow> True" | "may_be_open p \<longleftrightarrow> before_wait_ends p"

fun quiet :: "acc_pc \<Rightarrow> bool" where
  "quiet AIdle \<longleftrightarrow> True" | "quiet ACas \<longleftrightarrow> True" | "quiet ARecheck \<longleftrightarrow> True" | "quiet AAbort \<longleftrightarrow> True"
| "quiet (AClose p) \<longleftrightarrow> True" | "quiet _ \<longleftrightarrow> False"

definition inv_fds :: "conc \<Rightarrow> bool" where
  "inv_fds s \<longleftrightarrow> uses_ok (uses s) \<and> -1 \<le> cfd s \<and> -1 \<le> sfd s \<and>
     (\<forall>fd\<ge>0. owned (uses s) fd = of_bool (cfd s = fd) + of_bool (sfd s = fd))"

definition inv_state :: "conc \<Rightarrow> bool" where
  "inv_state s \<longleftrightarrow>
     (case cst s of
        CONNECTING \<Rightarrow> connecting (apc s) \<and> (0 \<le> cfd s \<longleftrightarrow> installed (apc s)) \<and> closers s = []
      | OPEN \<Rightarrow> \<not> connecting (apc s) \<and> 0 \<le> cfd s \<and> closers s = []
      | CLOSING \<Rightarrow> \<not> connecting (apc s) \<and> (\<exists>p. closers s = [p] \<and> (0 \<le> cfd s \<longleftrightarrow> p \<noteq> SDone))
      | CLOSED \<Rightarrow> \<not> connecting (apc s) \<and> cfd s = -1 \<and> closers s = []) \<and>
     (\<forall>fd. apc s = AInstall fd \<longrightarrow> 0 \<le> fd)"

definition inv_server :: "conc \<Rightarrow> bool" where
  "inv_server s \<longleftrightarrow>
     (up s \<longrightarrow> cpc s = CIdle) \<and>
     (0 \<le> sfd s \<longleftrightarrow> up s \<or> before_server_close (cpc s)) \<and>
     (\<not> up s \<and> \<not> before_wait_ends (cpc s) \<longrightarrow> quiet (apc s)) \<and>
     (\<not> up s \<and> \<not> may_be_open (cpc s) \<longrightarrow> cst s \<noteq> OPEN)"

definition conc_inv :: "conc \<Rightarrow> bool" where
  "conc_inv s \<longleftrightarrow> inv_fds s \<and> inv_state s \<and> inv_server s"

lemma uses_ok_snoc [simp]: "uses_ok (us @ [u]) \<longleftrightarrow> uses_ok us \<and> use_ok us u"
  by (auto simp: uses_ok_def less_Suc_eq nth_append)

lemma owned_snoc [simp]:
  "owned (us @ [Own a]) fd = owned us fd + of_bool (a = fd)"
  "owned (us @ [Closed a]) fd = owned us fd - of_bool (a = fd)"
  "owned (us @ [Shut a]) fd = owned us fd" "owned (us @ [Accepted a]) fd = owned us fd"
  "owned (us @ [Sent a]) fd = owned us fd"
  by (auto simp: owned_def)

lemma use_fd_simps [simp]:
  "cst (use_fd u s) = cst s" "cfd (use_fd u s) = cfd s" "up (use_fd u s) = up s" "sfd (use_fd u s) = sfd s"
  "apc (use_fd u s) = apc s" "cpc (use_fd u s) = cpc s" "upc (use_fd u s) = upc s"
  "uses (use_fd u s) = uses s @ [u]"
  by (simp_all add: use_fd_def)

text \<open>The effect of the steps on the descriptors.\<close>

lemma inv_fds_sub:
  assumes "inv_fds s" "sub_step p s = (q, s1)" "p \<noteq> SDone \<Longrightarrow> 0 \<le> cfd s"
  shows "inv_fds s1"
  using assms by (cases p) (auto simp: inv_fds_def split: if_splits)

lemma inv_state_closing:
  assumes "inv_state s" "acc_closing (apc s) = Some p \<or> close_closing (cpc s) = Some p \<or> user_closing (upc s) = Some p"
  shows "cst s = CLOSING" "0 \<le> cfd s \<longleftrightarrow> p \<noteq> SDone"
  using assms by (auto simp: inv_state_def closers_def split: ConnectionState.splits option.splits)

lemma before_wait_endsD [simp]: "before_wait_ends p \<Longrightarrow> before_server_close p" "before_wait_ends p \<Longrightarrow> may_be_open p"
  by (cases p; simp)+

lemmas conc_defs = conc_inv_def inv_server_def inv_state_def closers_def

lemma inv_fds_closing:
  assumes "conc_inv s" "sub_step p s = (q, s1)"
    and "acc_closing (apc s) = Some p \<or> close_closing (cpc s) = Some p \<or> user_closing (upc s) = Some p"
  shows "inv_fds s1"
proof -
  have i: "inv_fds s" "inv_state s" using assms(1) by (simp_all add: conc_inv_def)
  show ?thesis by (rule inv_fds_sub [OF i(1) assms(2)]) (simp add: inv_state_closing(2) [OF i(2) assms(3)])
qed

lemma inv_fds_acc:
  assumes "conc_inv s" "acc_step s s'"
  shows "inv_fds s'"
  using assms(2,1)
proof (cases rule: acc_step.cases)
  case (acc_accept fd)
  then have "0 \<le> sfd s" using assms(1) by (auto simp: conc_inv_def inv_server_def)
  with acc_accept assms(1) show ?thesis by (auto simp: conc_inv_def inv_fds_def)
next
  case acc_accept_fails
  then have "0 \<le> sfd s" using assms(1) by (auto simp: conc_inv_def inv_server_def)
  with acc_accept_fails assms(1) show ?thesis by (auto simp: conc_inv_def inv_fds_def)
next
  case (acc_install fd)
  then have "cfd s = -1" "0 \<le> fd" "inv_fds s" using assms(1)
    by (auto simp: conc_inv_def inv_state_def inv_fds_def split: ConnectionState.splits)
  with acc_install show ?thesis by (auto simp: inv_fds_def)
next
  case (acc_handshake pc)
  then have "0 \<le> cfd s" using assms(1) by (auto simp: conc_inv_def inv_state_def split: ConnectionState.splits)
  with acc_handshake assms(1) show ?thesis by (auto simp: conc_inv_def inv_fds_def)
next
  case (acc_close p q s1)
  have "inv_fds s1" by (rule inv_fds_closing [OF assms(1) acc_close(3)]) (simp add: acc_close(2))
  with acc_close show ?thesis by (simp add: inv_fds_def)
qed (simp_all add: conc_inv_def inv_fds_def)

lemma inv_fds_close:
  assumes "conc_inv s" "close_step s s'"
  shows "inv_fds s'"
  using assms(2,1)
proof (cases rule: close_step.cases)
  case close_shutdown
  then have "0 \<le> sfd s" using assms(1) by (auto simp: conc_inv_def inv_server_def)
  with close_shutdown assms(1) show ?thesis by (auto simp: conc_inv_def inv_fds_def)
next
  case close_wait_shut
  then have "0 \<le> cfd s" using assms(1) by (auto simp: conc_inv_def inv_fds_def)
  with close_wait_shut assms(1) show ?thesis by (auto simp: conc_inv_def inv_fds_def)
next
  case (close_server st)
  then have "0 \<le> sfd s" "inv_fds s" using assms(1) by (auto simp: conc_inv_def inv_server_def)
  with close_server show ?thesis by (auto simp: inv_fds_def)
next
  case close_early
  then have "0 \<le> sfd s" "inv_fds s" using assms(1) by (auto simp: conc_inv_def inv_server_def)
  with close_early show ?thesis by (auto simp: inv_fds_def)
next
  case close_send
  then have "0 \<le> cfd s" using assms(1) inv_state_closing(2) [of s SShutdown] by (auto simp: conc_inv_def)
  with close_send assms(1) show ?thesis by (auto simp: conc_inv_def inv_fds_def)
next
  case (close_sub p q s1)
  have "inv_fds s1" by (rule inv_fds_closing [OF assms(1) close_sub(3)]) (simp add: close_sub(2))
  with close_sub show ?thesis by (simp add: inv_fds_def)
qed (simp_all add: conc_inv_def inv_fds_def)

lemma inv_fds_user:
  assumes "conc_inv s" "user_step s s'"
  shows "inv_fds s'"
  using assms(2,1)
proof (cases rule: user_step.cases)
  case user_send
  then have "0 \<le> cfd s" using assms(1) inv_state_closing(2) [of s SShutdown] by (auto simp: conc_inv_def)
  with user_send assms(1) show ?thesis by (auto simp: conc_inv_def inv_fds_def)
next
  case (user_sub p q s1)
  have "inv_fds s1" by (rule inv_fds_closing [OF assms(1) user_sub(3)]) (simp add: user_sub(2))
  with user_sub show ?thesis by (simp add: inv_fds_def)
qed (simp_all add: conc_inv_def inv_fds_def)

text \<open>What one step of a close does, in the state \<open>CLOSING\<close>.\<close>

fun next_sub :: "sub_pc \<Rightarrow> sub_pc option" where
  "next_sub SShutdown = Some SClose" | "next_sub SClose = Some SDone" | "next_sub SDone = None"

definition after_sub :: "sub_pc \<Rightarrow> use list \<Rightarrow> conc \<Rightarrow> conc" where
  "after_sub p us s = s\<lparr>cst := (if p = SDone then CLOSED else CLOSING), cfd := (if p = SClose then -1 else cfd s),
     uses := us\<rparr>"

lemma sub_step_closing:
  assumes "conc_inv s" "sub_step p s = (q, s1)"
    and "acc_closing (apc s) = Some p \<or> close_closing (cpc s) = Some p \<or> user_closing (upc s) = Some p"
  obtains us where "cst s = CLOSING" "0 \<le> cfd s \<longleftrightarrow> p \<noteq> SDone" "q = next_sub p" "s1 = after_sub p us s"
proof -
  have i: "inv_state s" using assms(1) by (simp add: conc_inv_def)
  note c = inv_state_closing [OF i assms(3)]
  then have "q = next_sub p" "s1 = after_sub p (uses s1) s"
    using assms(2) by (cases p; cases s; auto simp: use_fd_def after_sub_def)+
  with c that show ?thesis by blast
qed

lemma conc_inv_cfd: "conc_inv s \<Longrightarrow> -1 \<le> cfd s"
  by (simp add: conc_inv_def inv_fds_def)

lemma inv_state_acc:
  assumes "conc_inv s" "acc_step s s'"
  shows "inv_state s'"
  using assms(2,1)
proof (cases rule: acc_step.cases)
  case (acc_close p q s1)
  obtain us where
    "cst s = CLOSING" "0 \<le> cfd s \<longleftrightarrow> p \<noteq> SDone" "q = next_sub p" "s1 = after_sub p us s"
    by (rule sub_step_closing [OF assms(1) acc_close(3)]) (use acc_close(2) in simp_all)
  with acc_close assms(1) show ?thesis
    by (cases p) (auto simp: inv_state_def closers_def conc_inv_def inv_fds_def after_sub_def)
qed (use conc_inv_cfd [OF assms(1)] in
    \<open>auto simp: conc_inv_def inv_state_def closers_def split: ConnectionState.splits\<close>)

lemma inv_state_close:
  assumes "conc_inv s" "close_step s s'"
  shows "inv_state s'"
  using assms(2,1)
proof (cases rule: close_step.cases)
  case (close_sub p q s1)
  obtain us where
    "cst s = CLOSING" "0 \<le> cfd s \<longleftrightarrow> p \<noteq> SDone" "q = next_sub p" "s1 = after_sub p us s"
    by (rule sub_step_closing [OF assms(1) close_sub(3)]) (use close_sub(2) in simp_all)
  with close_sub assms(1) conc_inv_cfd [OF assms(1)] show ?thesis
    by (cases p)
      (auto simp: inv_state_def closers_def conc_inv_def after_sub_def append_eq_Cons_conv split: option.splits)
qed (use conc_inv_cfd [OF assms(1)] in
    \<open>auto simp: conc_inv_def inv_state_def closers_def append_eq_Cons_conv split: ConnectionState.splits option.splits\<close>)

lemma inv_state_user:
  assumes "conc_inv s" "user_step s s'"
  shows "inv_state s'"
  using assms(2,1)
proof (cases rule: user_step.cases)
  case (user_sub p q s1)
  obtain us where
    "cst s = CLOSING" "0 \<le> cfd s \<longleftrightarrow> p \<noteq> SDone" "q = next_sub p" "s1 = after_sub p us s"
    by (rule sub_step_closing [OF assms(1) user_sub(3)]) (use user_sub(2) in simp_all)
  with user_sub assms(1) conc_inv_cfd [OF assms(1)] show ?thesis
    by (cases p)
      (auto simp: inv_state_def closers_def conc_inv_def after_sub_def append_eq_Cons_conv split: option.splits)
qed (use conc_inv_cfd [OF assms(1)] in
    \<open>auto simp: conc_inv_def inv_state_def closers_def append_eq_Cons_conv split: ConnectionState.splits option.splits\<close>)

lemma inv_server_acc:
  assumes "conc_inv s" "acc_step s s'"
  shows "inv_server s'"
  using assms(2,1)
proof (cases rule: acc_step.cases)
  case (acc_close p q s1)
  obtain us where "cst s = CLOSING" "0 \<le> cfd s \<longleftrightarrow> p \<noteq> SDone" "q = next_sub p" "s1 = after_sub p us s"
    by (rule sub_step_closing [OF assms(1) acc_close(3)]) (use acc_close(2) in simp_all)
  with acc_close assms(1) show ?thesis by (cases p) (auto simp: conc_inv_def inv_server_def after_sub_def)
qed (auto simp: conc_inv_def inv_server_def)

lemma inv_server_close:
  assumes "conc_inv s" "close_step s s'"
  shows "inv_server s'"
  using assms(2,1)
proof (cases rule: close_step.cases)
  case (close_sub p q s1)
  obtain us where "cst s = CLOSING" "0 \<le> cfd s \<longleftrightarrow> p \<noteq> SDone" "q = next_sub p" "s1 = after_sub p us s"
    by (rule sub_step_closing [OF assms(1) close_sub(3)]) (use close_sub(2) in simp_all)
  with close_sub assms(1) show ?thesis by (cases p) (auto simp: conc_inv_def inv_server_def after_sub_def)
next
  case close_load
  with assms(1) show ?thesis
    by (cases "apc s"; cases "cst s") (auto simp: conc_inv_def inv_server_def inv_state_def)
next
  case (close_reload b)
  with assms(1) show ?thesis
    by (cases "apc s"; cases "cst s") (auto simp: conc_inv_def inv_server_def inv_state_def)
qed (auto simp: conc_inv_def inv_server_def)

lemma inv_server_user:
  assumes "conc_inv s" "user_step s s'"
  shows "inv_server s'"
  using assms(2,1)
proof (cases rule: user_step.cases)
  case (user_sub p q s1)
  obtain us where "cst s = CLOSING" "0 \<le> cfd s \<longleftrightarrow> p \<noteq> SDone" "q = next_sub p" "s1 = after_sub p us s"
    by (rule sub_step_closing [OF assms(1) user_sub(3)]) (use user_sub(2) in simp_all)
  with user_sub assms(1) show ?thesis by (cases p) (auto simp: conc_inv_def inv_server_def after_sub_def)
qed (auto simp: conc_inv_def inv_server_def)

lemma conc_reach_inv:
  assumes "conc_reach lfd s" "0 \<le> lfd"
  shows "conc_inv s"
  using assms(1)
proof (induction rule: conc_reach.induct)
  case conc_start
  show ?case
    using assms(2) by (simp add: conc_inv_def inv_fds_def inv_state_def inv_server_def closers_def uses_ok_def owned_def)
next
  case (conc_step s s')
  then show ?case
    using inv_fds_acc inv_fds_close inv_fds_user inv_state_acc inv_state_close inv_state_user
      inv_server_acc inv_server_close inv_server_user
    unfolding conc_inv_def by metis
qed

section \<open>Properties\<close>

text \<open>
  C9. Under every interleaving of an accepting thread, a thread that calls \<open>Close\<close> and a
  thread that calls \<open>CloseConnection\<close>, each descriptor that is accepted on, sent on, shut
  down or closed is one that was taken over and has not been closed since: no double
  close, and no use after close.
\<close>

theorem concurrent_descriptor_use:
  assumes "conc_reach lfd s" "0 \<le> lfd"
  shows "uses_ok (uses s)"
  using conc_reach_inv [OF assms] by (simp add: conc_inv_def inv_fds_def)

text \<open>
  C10. \<open>Close\<close> is final. Once it has returned and no other call is under way (an acceptor
  may still be about to try the state), the connection is closed, both descriptors are
  gone, and every descriptor taken over has been closed.
\<close>

theorem concurrent_close_complete:
  assumes "conc_reach lfd s" "0 \<le> lfd" "\<not> up s" "cpc s = CIdle" "upc s = UIdle" "apc s = AIdle \<or> apc s = ACas"
  shows "cst s = CLOSED \<and> cfd s = -1 \<and> sfd s = -1 \<and> (\<forall>fd\<ge>0. owned (uses s) fd = 0)"
proof -
  have i: "inv_fds s" "inv_state s" "inv_server s"
    using conc_reach_inv [OF assms(1,2)] by (simp_all add: conc_inv_def)
  have c: "cst s = CLOSED" "cfd s = -1"
    using i(2,3) assms(3-6)
    by (cases "cst s"; auto simp: inv_state_def inv_server_def closers_def)+
  moreover have "sfd s = -1"
    using i(1,3) assms(3,4) by (auto simp: inv_server_def inv_fds_def)
  ultimately show ?thesis using i(1) by (auto simp: inv_fds_def)
qed

fun acc_left :: "acc_pc \<Rightarrow> nat" where
  "acc_left ARecheck = 5" | "acc_left AAccept = 4" | "acc_left (AInstall fd) = 3" | "acc_left AHandshake = 2"
| "acc_left _ = 1"


definition conc_closed :: conc where
  "conc_closed = \<lparr>cst = CLOSED, cfd = -1, up = False, sfd = -1, apc = AIdle, cpc = CIdle, upc = UIdle,
     uses = [Own 4, Shut 4, Closed 4]\<rparr>"

lemma conc_closed_reach: "conc_reach 4 conc_closed"
proof -
  let ?s = "\<lambda>b fd pc us. \<lparr>cst = CLOSED, cfd = -1, up = b, sfd = fd, apc = AIdle, cpc = pc, upc = UIdle, uses = us\<rparr>"
  have "conc_reach 4 (?s True 4 CIdle [Own 4])" by (rule conc_start)
  then have "conc_reach 4 (?s False 4 CShutdown [Own 4])"
    by (rule conc_step) (use close_down [of "?s True 4 CIdle [Own 4]"] in simp)
  then have "conc_reach 4 (?s False 4 CLoad [Own 4, Shut 4])"
    by (rule conc_step) (use close_shutdown [of "?s False 4 CShutdown [Own 4]"] in \<open>simp add: use_fd_def\<close>)
  then have "conc_reach 4 (?s False 4 CEarly [Own 4, Shut 4])"
    by (rule conc_step) (use close_load [of "?s False 4 CLoad [Own 4, Shut 4]"] in simp)
  then show ?thesis
    by (rule conc_step)
      (use close_early [of "?s False 4 CEarly [Own 4, Shut 4]"] in \<open>simp add: use_fd_def conc_closed_def\<close>)
qed

lemma conc_connecting_reach:
  "conc_reach 4 \<lparr>cst = CONNECTING, cfd = -1, up = True, sfd = 4, apc = ARecheck, cpc = CIdle, upc = UIdle, uses = [Own 4]\<rparr>"
proof -
  let ?s = "\<lambda>st pc. \<lparr>cst = st, cfd = -1, up = True, sfd = 4, apc = pc, cpc = CIdle, upc = UIdle, uses = [Own 4]\<rparr>"
  have "conc_reach 4 (?s CLOSED AIdle)" by (rule conc_start)
  then have "conc_reach 4 (?s CLOSED ACas)"
    by (rule conc_step) (use acc_up [of "?s CLOSED AIdle"] in simp)
  then show ?thesis
    by (rule conc_step) (use acc_cas [of "?s CLOSED ACas"] in simp)
qed

theorem concurrent_descriptor_use_witness: "uses_ok (uses conc_closed) \<and> Closed 4 \<in> set (uses conc_closed)"
  using concurrent_descriptor_use [OF conc_closed_reach] by (simp add: conc_closed_def)

theorem concurrent_close_complete_witness:
  "cst conc_closed = CLOSED \<and> sfd conc_closed = -1 \<and> owned (uses conc_closed) 4 = 0"
  using concurrent_close_complete [OF conc_closed_reach] by (simp add: conc_closed_def)


end
