(* ===== verification/Debug_Info.thy ===== *)
theory Debug_Info
  imports Std_String
begin

text \<open>
  The debug-info cache of the static inspector (tooling/static/debugger/debug_info_cache.h and
  debug_info_cache.cpp): which bytecode locations a source line stands for, and which line a
  bytecode offset belongs to.

  The panda file, its debug-info extractor, the method and the frame are objects of the runtime,
  not of these sources. Each is here the record of what the cache asks it for, so a lemma holds
  for every answer the runtime may give; where one is needed (a line table sorted by offset) it is
  a hypothesis. The \<^verbatim>\<open>unordered_map\<close>s are association lists in the order of the iteration, which
  the standard leaves open; the sets that are computed do not depend on it.
\<close>

section \<open>What the runtime provides\<close>

type_synonym EntityId = u32

record pt_location =
  loc_pandaFile :: string
  loc_methodId :: EntityId
  loc_offset :: u32

record line_entry =
  le_offset :: u32
  le_line :: int

record panda_file =
  pf_addr :: nat
  pf_filename :: string
  pf_codeSize :: "EntityId \<Rightarrow> u32 option"

datatype type_id = INVALID | VOID | U1 | I8 | U8 | I16 | U16 | I32 | U32 | F32 | F64 | I64 | U64 | REFERENCE | TAGGED

datatype register_kind = PRIMITIVE | REFERENCE_KIND | TAGGED_KIND

record parameter_info =
  pi_name :: string
  pi_signature :: string

record variable_info =
  vi_name :: string
  vi_typeSignature :: string
  vi_regNumber :: int
  vi_accessible :: "u32 \<Rightarrow> bool"

record extractor =
  xt_methods :: "EntityId list"
  xt_sourceFile :: "EntityId \<Rightarrow> string"
  xt_sourceCode :: "EntityId \<Rightarrow> string"
  xt_lines :: "EntityId \<Rightarrow> line_entry list"
  xt_parameters :: "EntityId \<Rightarrow> parameter_info list"
  xt_variables :: "EntityId \<Rightarrow> variable_info list"
  xt_isUser :: bool

record pt_method =
  m_pandaFile :: panda_file
  m_fileId :: EntityId
  m_name :: string
  m_codeSize :: u32

record pt_frame =
  fr_method :: pt_method
  fr_offset :: u32
  fr_argument :: "nat \<Rightarrow> u64 \<times> register_kind"
  fr_vreg :: "int \<Rightarrow> u64 \<times> register_kind"
  fr_accumulator :: "u64 \<times> register_kind"

section \<open>The cache\<close>

type_synonym source_file_filter = "string \<Rightarrow> string \<Rightarrow> bool"
type_synonym source_file_set = "(string \<times> string) set"

record debug_info_cache =
  debugInfos :: "(panda_file \<times> extractor) list"
  disassemblies :: "(string \<times> panda_file \<times> EntityId) list"
  fileToSourceCode :: "(string \<times> string) list"

definition DebugInfoCache_new :: debug_info_cache where
  "DebugInfoCache_new = \<lparr>debugInfos = [], disassemblies = [], fileToSourceCode = []\<rparr>"

text \<open>\<^verbatim>\<open>emplace\<close> and \<^verbatim>\<open>try_emplace\<close> leave an entry that is there.\<close>

definition emplace :: "'k \<Rightarrow> 'v \<Rightarrow> ('k \<times> 'v) list \<Rightarrow> ('k \<times> 'v) list" where
  "emplace k v m = (if k \<in> fst ` set m then m else m @ [(k, v)])"

definition IsSelectedPandaFile :: "panda_file \<Rightarrow> string \<Rightarrow> bool" where
  "IsSelectedPandaFile file scriptIdentity \<longleftrightarrow> scriptIdentity = [] \<or> pf_filename file = scriptIdentity"

fun FindSourceCode_loop :: "extractor \<Rightarrow> string \<Rightarrow> EntityId list \<Rightarrow> string" where
  "FindSourceCode_loop debugInfo sourceFile [] = []"
| "FindSourceCode_loop debugInfo sourceFile (methodId # ms) =
     (if xt_sourceCode debugInfo methodId \<noteq> [] \<and> xt_sourceFile debugInfo methodId = sourceFile
      then xt_sourceCode debugInfo methodId
      else FindSourceCode_loop debugInfo sourceFile ms)"

definition FindSourceCode :: "extractor \<Rightarrow> string \<Rightarrow> string" where
  "FindSourceCode debugInfo sourceFile = FindSourceCode_loop debugInfo sourceFile (xt_methods debugInfo)"

text \<open>The entry of a file is found by its address.\<close>

fun find_info :: "(panda_file \<times> extractor) list \<Rightarrow> panda_file \<Rightarrow> extractor option" where
  "find_info [] file = None"
| "find_info ((f, x) # rest) file = (if pf_addr f = pf_addr file then Some x else find_info rest file)"

definition GetDebugInfo :: "debug_info_cache \<Rightarrow> panda_file \<Rightarrow> extractor option" where
  "GetDebugInfo c file = find_info (debugInfos c) file"

fun set_user :: "panda_file \<Rightarrow> bool \<Rightarrow> (panda_file \<times> extractor) list \<Rightarrow> (panda_file \<times> extractor) list" where
  "set_user file b [] = []"
| "set_user file b ((f, x) # rest) =
     (if pf_addr f = pf_addr file then (f, x\<lparr>xt_isUser := b\<rparr>) # rest else (f, x) # set_user file b rest)"

fun add_source_code :: "extractor \<Rightarrow> EntityId list \<Rightarrow> (string \<times> string) list \<Rightarrow> (string \<times> string) list" where
  "add_source_code debugInfo [] m = m"
| "add_source_code debugInfo (methodId # ms) m =
     add_source_code debugInfo ms
       (if xt_sourceCode debugInfo methodId \<noteq> []
        then emplace (xt_sourceFile debugInfo methodId) (xt_sourceCode debugInfo methodId) m else m)"

text \<open>\<open>built\<close> is the extractor the runtime constructs for the file; it is dropped when the
  file is known already.\<close>

definition AddPandaFile :: "debug_info_cache \<Rightarrow> panda_file \<Rightarrow> extractor \<Rightarrow> bool \<Rightarrow> debug_info_cache" where
  "AddPandaFile c file built isUserPandafile =
     (let infos = (if find_info (debugInfos c) file = None then debugInfos c @ [(file, built)] else debugInfos c);
          infos = set_user file isUserPandafile infos
      in case find_info infos file of
           None \<Rightarrow> c\<lparr>debugInfos := infos\<rparr>
         | Some debugInfo \<Rightarrow>
             c\<lparr>debugInfos := infos,
               fileToSourceCode := add_source_code debugInfo (xt_methods debugInfo) (fileToSourceCode c)\<rparr>)"

text \<open>The callback the extractor is built with, called when it disassembles a method.\<close>

definition OnDisassembled :: "debug_info_cache \<Rightarrow> panda_file \<Rightarrow> EntityId \<Rightarrow> string \<Rightarrow> debug_info_cache" where
  "OnDisassembled c file methodId sourceName =
     c\<lparr>disassemblies := emplace sourceName (file, methodId) (disassemblies c)\<rparr>"

section \<open>Searching a line table\<close>

text \<open>\<^verbatim>\<open>std::upper_bound\<close> on the \<open>len\<close> entries from \<open>first\<close>; \<open>p\<close> is \<open>value < entry\<close>.\<close>

fun upper_bound :: "('a \<Rightarrow> bool) \<Rightarrow> 'a list \<Rightarrow> nat \<Rightarrow> nat \<Rightarrow> nat" where
  "upper_bound p xs first len =
     (if len = 0 then first
      else let half = len div 2; mid = first + half
           in if p (xs ! mid) then upper_bound p xs first half
              else upper_bound p xs (Suc mid) (len - (half + 1)))"

declare upper_bound.simps [simp del]

definition line_index :: "line_entry list \<Rightarrow> u32 \<Rightarrow> nat" where
  "line_index table off = upper_bound (\<lambda>e. off < le_offset e) table 0 (length table)"

text \<open>
  The out-parameters of the source are the triple; a table whose first entry lies after the
  offset makes the code step before the first entry, which is \<open>None\<close>.
\<close>

definition GetSourceLocation :: "debug_info_cache \<Rightarrow> pt_frame \<Rightarrow> string \<times> string \<times> int \<Rightarrow> (string \<times> string \<times> int) option" where
  "GetSourceLocation c frame out =
     (case GetDebugInfo c (m_pandaFile (fr_method frame)) of
        None \<Rightarrow> Some (fst out, fst (snd out), 1)
      | Some debugInfo \<Rightarrow>
          if \<not> xt_isUser debugInfo then Some (fst out, fst (snd out), 1)
          else let table = xt_lines debugInfo (m_fileId (fr_method frame));
                   i = line_index table (fr_offset frame)
               in if i = 0 then None
                  else Some (xt_sourceFile debugInfo (m_fileId (fr_method frame)),
                             m_name (fr_method frame), le_line (table ! (i - 1))))"

fun GetAsyncFrame_loop ::
  "(panda_file \<times> extractor) list \<Rightarrow> string \<Rightarrow> EntityId \<Rightarrow> u32 \<Rightarrow> (string \<times> int) option" where
  "GetAsyncFrame_loop [] pandaFile methodId off = None"
| "GetAsyncFrame_loop ((file, debugInfo) # rest) pandaFile methodId off =
     (if pf_filename file \<noteq> pandaFile \<or> \<not> xt_isUser debugInfo then GetAsyncFrame_loop rest pandaFile methodId off
      else if methodId \<notin> set (xt_methods debugInfo) then GetAsyncFrame_loop rest pandaFile methodId off
      else let table = xt_lines debugInfo methodId; i = line_index table off
           in if i = 0 then GetAsyncFrame_loop rest pandaFile methodId off
              else Some (xt_sourceFile debugInfo methodId, le_line (table ! (i - 1))))"

definition GetAsyncFrameSourceLocation :: "debug_info_cache \<Rightarrow> string \<Rightarrow> u64 \<Rightarrow> u32 \<Rightarrow> (string \<times> int) option" where
  "GetAsyncFrameSourceLocation c pandaFile methodId bytecodeOffset =
     (if 0xFFFFFFFF < methodId then None
      else GetAsyncFrame_loop (debugInfos c) pandaFile (ucast methodId) bytecodeOffset)"

section \<open>Locations of a line\<close>

text \<open>\<open>for (auto o = a; o < b; o++)\<close>\<close>

definition offsets_between :: "u32 \<Rightarrow> u32 \<Rightarrow> u32 list" where
  "offsets_between a b = map of_nat [unat a..<unat b]"

fun line_offsets :: "int \<Rightarrow> u32 \<Rightarrow> line_entry list \<Rightarrow> u32 list" where
  "line_offsets line codeSize [] = []"
| "line_offsets line codeSize (e # es) =
     (if le_line e \<noteq> line then []
      else offsets_between (le_offset e) (case es of [] \<Rightarrow> codeSize | n # _ \<Rightarrow> le_offset n))
     @ line_offsets line codeSize es"

definition GetCurrentLineLocations :: "debug_info_cache \<Rightarrow> pt_frame \<Rightarrow> pt_location set" where
  "GetCurrentLineLocations c frame =
     (let method = fr_method frame; pandaFile = m_pandaFile method; methodId = m_fileId method
      in case GetDebugInfo c pandaFile of
           None \<Rightarrow> {}
         | Some debugInfo \<Rightarrow>
             let table = xt_lines debugInfo methodId; i = line_index table (fr_offset frame)
             in if i = 0 then {}
                else set (map (\<lambda>off. \<lparr>loc_pandaFile = pf_filename pandaFile, loc_methodId = methodId, loc_offset = off\<rparr>)
                       (line_offsets (le_line (table ! (i - 1))) (m_codeSize method) table)))"

text \<open>
  The three overloads of \<^verbatim>\<open>EnumerateLineEntries\<close>: a handler is given an entry and the next one,
  changes the caller's variables and says whether to go on with the method.
\<close>

fun enumerate_entries :: "(line_entry \<Rightarrow> line_entry option \<Rightarrow> 's \<Rightarrow> bool \<times> 's) \<Rightarrow> line_entry list \<Rightarrow> 's \<Rightarrow> 's" where
  "enumerate_entries h [] s = s"
| "enumerate_entries h (e # es) s =
     (case h e (case es of [] \<Rightarrow> None | n # _ \<Rightarrow> Some n) s of
        (False, s') \<Rightarrow> s'
      | (True, s') \<Rightarrow> enumerate_entries h es s')"

fun enumerate_methods ::
  "(EntityId \<Rightarrow> bool) \<Rightarrow> (EntityId \<Rightarrow> line_entry \<Rightarrow> line_entry option \<Rightarrow> 's \<Rightarrow> bool \<times> 's) \<Rightarrow>
   extractor \<Rightarrow> EntityId list \<Rightarrow> 's \<Rightarrow> 's" where
  "enumerate_methods mf h debugInfo [] s = s"
| "enumerate_methods mf h debugInfo (methodId # ms) s =
     enumerate_methods mf h debugInfo ms
       (if mf methodId then enumerate_entries (h methodId) (xt_lines debugInfo methodId) s else s)"

fun EnumerateLineEntries ::
  "(panda_file \<Rightarrow> bool) \<Rightarrow> (panda_file \<Rightarrow> extractor \<Rightarrow> EntityId \<Rightarrow> bool) \<Rightarrow>
   (panda_file \<Rightarrow> extractor \<Rightarrow> EntityId \<Rightarrow> line_entry \<Rightarrow> line_entry option \<Rightarrow> 's \<Rightarrow> bool \<times> 's) \<Rightarrow>
   (panda_file \<times> extractor) list \<Rightarrow> 's \<Rightarrow> 's" where
  "EnumerateLineEntries pff mf h [] s = s"
| "EnumerateLineEntries pff mf h ((file, debugInfo) # rest) s =
     EnumerateLineEntries pff mf h rest
       (if pff file then enumerate_methods (mf file debugInfo) (h file debugInfo) debugInfo (xt_methods debugInfo) s else s)"

definition GetContinueToLocations :: "debug_info_cache \<Rightarrow> string \<Rightarrow> string \<Rightarrow> int \<Rightarrow> pt_location set" where
  "GetContinueToLocations c sourceFile scriptIdentity lineNumber =
     EnumerateLineEntries
       (\<lambda>pandaFile. IsSelectedPandaFile pandaFile scriptIdentity)
       (\<lambda>_ debugInfo methodId. xt_sourceFile debugInfo methodId = sourceFile)
       (\<lambda>pandaFile _ methodId entry next locations.
          if le_line entry \<noteq> lineNumber then (True, locations)
          else let nextOffset =
                     (case next of
                        None \<Rightarrow> (case pf_codeSize pandaFile methodId of Some n \<Rightarrow> n | None \<Rightarrow> 0)
                      | Some n \<Rightarrow> le_offset n)
               in (True, locations \<union>
                     set (map (\<lambda>off. \<lparr>loc_pandaFile = pf_filename pandaFile, loc_methodId = methodId, loc_offset = off\<rparr>)
                       (offsets_between (le_offset entry) nextOffset))))
       (debugInfos c) {}"

text \<open>The locations come with the source files they are in.\<close>

definition GetBreakpointLocations ::
  "debug_info_cache \<Rightarrow> source_file_filter \<Rightarrow> int \<Rightarrow> pt_location list \<times> source_file_set" where
  "GetBreakpointLocations c sourceFileFilter lineNumber =
     EnumerateLineEntries
       (\<lambda>_. True)
       (\<lambda>file debugInfo methodId. sourceFileFilter (xt_sourceFile debugInfo methodId) (pf_filename file))
       (\<lambda>pandaFile debugInfo methodId entry _ (locations, sourceFiles).
          if le_line entry = lineNumber
          then (False, List.insert \<lparr>loc_pandaFile = pf_filename pandaFile, loc_methodId = methodId, loc_offset = le_offset entry\<rparr> locations,
                insert (xt_sourceFile debugInfo methodId, pf_filename pandaFile) sourceFiles)
          else (True, locations, sourceFiles))
       (debugInfos c) ([], {})"

text \<open>The loop over a method's lines stops as soon as both flags are set.\<close>

fun spans_loop :: "int \<Rightarrow> line_entry list \<Rightarrow> bool \<Rightarrow> bool \<Rightarrow> bool" where
  "spans_loop startLine [] hasLess hasGreater = (hasLess \<and> hasGreater)"
| "spans_loop startLine (entry # es) hasLess hasGreater =
     (let hasLess = (if le_line entry \<le> startLine then True else hasLess);
          hasGreater = (if le_line entry \<ge> startLine then True else hasGreater)
      in if hasLess \<and> hasGreater then True else spans_loop startLine es hasLess hasGreater)"

definition GetValidLineNumbers :: "debug_info_cache \<Rightarrow> string \<Rightarrow> string \<Rightarrow> int \<Rightarrow> int \<Rightarrow> bool \<Rightarrow> int set" where
  "GetValidLineNumbers c sourceFile scriptIdentity startLine endLine restrictToFunction =
     (let lineHandler = (\<lambda>_ _ _ entry _ lineNumbers.
            (True, if le_line entry \<ge> startLine \<and> le_line entry < endLine
                   then insert (le_line entry) lineNumbers else lineNumbers))
      in if \<not> restrictToFunction
         then EnumerateLineEntries (\<lambda>pandaFile. IsSelectedPandaFile pandaFile scriptIdentity)
                (\<lambda>_ debugInfo methodId. xt_sourceFile debugInfo methodId = sourceFile)
                lineHandler (debugInfos c) {}
         else EnumerateLineEntries (\<lambda>pandaFile. IsSelectedPandaFile pandaFile scriptIdentity)
                (\<lambda>_ debugInfo methodId.
                   if xt_sourceFile debugInfo methodId \<noteq> sourceFile then False
                   else spans_loop startLine (xt_lines debugInfo methodId) False False)
                lineHandler (debugInfos c) {})"

definition GetPandaFiles :: "debug_info_cache \<Rightarrow> source_file_filter \<Rightarrow> panda_file list" where
  "GetPandaFiles c sourceFileFilter =
     EnumerateLineEntries
       (\<lambda>_. True)
       (\<lambda>file debugInfo methodId. sourceFileFilter (xt_sourceFile debugInfo methodId) (pf_filename file))
       (\<lambda>pf _ _ _ _ files.
          (False, if pf_addr pf \<in> pf_addr ` set files then files else files @ [pf]))
       (debugInfos c) []"

section \<open>Local variables\<close>

text \<open>A floating-point value is kept as its bits; \<^verbatim>\<open>UNREACHABLE\<close> is \<open>None\<close>.\<close>

datatype typed_value =
    TV_Invalid | TV_Void | TV_U1 bool
  | TV_I8 "8 word" | TV_U8 "8 word" | TV_I16 u16 | TV_U16 u16 | TV_I32 u32 | TV_U32 u32
  | TV_F32 u32 | TV_F64 u64 | TV_I64 u64 | TV_U64 u64 | TV_Reference u64 | TV_Tagged u64

text \<open>The three special tagged values of the runtime (undefined, hole, null) are a parameter.\<close>

fun CreateTypedValueFromReg :: "u64 set \<Rightarrow> u64 \<Rightarrow> type_id \<Rightarrow> typed_value" where
  "CreateTypedValueFromReg special reg INVALID = TV_Invalid"
| "CreateTypedValueFromReg special reg VOID = TV_Void"
| "CreateTypedValueFromReg special reg U1 = TV_U1 (take_bit 1 reg \<noteq> 0)"
| "CreateTypedValueFromReg special reg I8 = TV_I8 (ucast (take_bit 8 reg))"
| "CreateTypedValueFromReg special reg U8 = TV_U8 (ucast (take_bit 8 reg))"
| "CreateTypedValueFromReg special reg I16 = TV_I16 (ucast (take_bit 16 reg))"
| "CreateTypedValueFromReg special reg U16 = TV_U16 (ucast (take_bit 16 reg))"
| "CreateTypedValueFromReg special reg I32 = TV_I32 (ucast (take_bit 32 reg))"
| "CreateTypedValueFromReg special reg U32 = TV_U32 (ucast (take_bit 32 reg))"
| "CreateTypedValueFromReg special reg F32 = TV_F32 (ucast (take_bit 32 reg))"
| "CreateTypedValueFromReg special reg F64 = TV_F64 reg"
| "CreateTypedValueFromReg special reg I64 = TV_I64 reg"
| "CreateTypedValueFromReg special reg U64 = TV_U64 reg"
| "CreateTypedValueFromReg special reg REFERENCE = (if reg \<in> special then TV_Tagged reg else TV_Reference reg)"
| "CreateTypedValueFromReg special reg TAGGED = TV_Tagged reg"

definition GetTypeIdBySignature :: "char \<Rightarrow> type_id" where
  "GetTypeIdBySignature signature =
     (if signature = CHR ''V'' then VOID
      else if signature = CHR ''Z'' then U1
      else if signature = CHR ''B'' then I8
      else if signature = CHR ''H'' then U8
      else if signature = CHR ''S'' then I16
      else if signature = CHR ''C'' then U16
      else if signature = CHR ''I'' then I32
      else if signature = CHR ''U'' then U32
      else if signature = CHR ''F'' then F32
      else if signature = CHR ''D'' then F64
      else if signature = CHR ''J'' then I64
      else if signature = CHR ''Q'' then U64
      else if signature = CHR ''A'' then TAGGED
      else if signature = CHR ''L'' \<or> signature = CHR ''['' then REFERENCE
      else INVALID)"

fun kind_type :: "register_kind \<Rightarrow> type_id" where
  "kind_type PRIMITIVE = U64"
| "kind_type REFERENCE_KIND = REFERENCE"
| "kind_type TAGGED_KIND = TAGGED"

definition local_value :: "u64 set \<Rightarrow> string \<Rightarrow> u64 \<times> register_kind \<Rightarrow> typed_value" where
  "local_value special signature r =
     (let type = (case signature of [] \<Rightarrow> INVALID | s # _ \<Rightarrow> GetTypeIdBySignature s);
          type = (if type = INVALID then kind_type (snd r) else type)
      in CreateTypedValueFromReg special (fst r) type)"

fun parameter_locals ::
  "u64 set \<Rightarrow> pt_frame \<Rightarrow> nat \<Rightarrow> parameter_info list \<Rightarrow> (string \<times> typed_value) list \<Rightarrow> (string \<times> typed_value) list" where
  "parameter_locals special frame i [] result = result"
| "parameter_locals special frame i (p # ps) result =
     parameter_locals special frame (Suc i) ps
       (emplace (pi_name p) (local_value special (pi_signature p) (fr_argument frame i)) result)"

fun variable_locals ::
  "u64 set \<Rightarrow> pt_frame \<Rightarrow> variable_info list \<Rightarrow> (string \<times> typed_value) list \<Rightarrow> (string \<times> typed_value) list" where
  "variable_locals special frame [] result = result"
| "variable_locals special frame (v # vs) result =
     variable_locals special frame vs
       (if vi_accessible v (fr_offset frame)
        then emplace (vi_name v)
               (local_value special (vi_typeSignature v)
                 (if vi_regNumber v = -1 then fr_accumulator frame else fr_vreg frame (vi_regNumber v))) result
        else result)"

definition GetLocals :: "u64 set \<Rightarrow> debug_info_cache \<Rightarrow> pt_frame \<Rightarrow> (string \<times> typed_value) list" where
  "GetLocals special c frame =
     (let methodId = m_fileId (fr_method frame)
      in case GetDebugInfo c (m_pandaFile (fr_method frame)) of
           None \<Rightarrow> []
         | Some debugInfo \<Rightarrow>
             variable_locals special frame (xt_variables debugInfo methodId)
               (parameter_locals special frame 0 (xt_parameters debugInfo methodId) []))"

section \<open>Source code and source files\<close>

fun GetSourceCodeByIdentity_loop :: "(panda_file \<times> extractor) list \<Rightarrow> string \<Rightarrow> string \<Rightarrow> string" where
  "GetSourceCodeByIdentity_loop [] sourceFile scriptIdentity = []"
| "GetSourceCodeByIdentity_loop ((file, debugInfo) # rest) sourceFile scriptIdentity =
     (if pf_filename file \<noteq> scriptIdentity then GetSourceCodeByIdentity_loop rest sourceFile scriptIdentity
      else let sourceCode = FindSourceCode debugInfo sourceFile
           in if sourceCode \<noteq> [] then sourceCode
              else GetSourceCodeByIdentity_loop rest sourceFile scriptIdentity)"

definition GetSourceCodeByIdentity :: "debug_info_cache \<Rightarrow> string \<Rightarrow> string \<Rightarrow> string" where
  "GetSourceCodeByIdentity c sourceFile scriptIdentity =
     GetSourceCodeByIdentity_loop (debugInfos c) sourceFile scriptIdentity"

definition GetDisassemblySourceCode :: "debug_info_cache \<Rightarrow> string \<Rightarrow> string" where
  "GetDisassemblySourceCode c sourceFile =
     (case map_of (disassemblies c) sourceFile of
        None \<Rightarrow> []
      | Some (pandaFile, methodId) \<Rightarrow>
          (case GetDebugInfo c pandaFile of None \<Rightarrow> [] | Some debugInfo \<Rightarrow> xt_sourceCode debugInfo methodId))"

definition GetCachedSourceCode :: "debug_info_cache \<Rightarrow> string \<Rightarrow> string" where
  "GetCachedSourceCode c sourceFile =
     (case map_of (fileToSourceCode c) sourceFile of None \<Rightarrow> [] | Some s \<Rightarrow> s)"

text \<open>\<open>fs\<close> is the file system: the content of a regular file.\<close>

definition GetFileSourceCode :: "(string \<Rightarrow> string option) \<Rightarrow> string \<Rightarrow> string" where
  "GetFileSourceCode fs sourceFile =
     (case fs sourceFile of
        None \<Rightarrow> []
      | Some text \<Rightarrow> if text \<noteq> [] \<and> last text \<noteq> CHR 0x0A then text @ [CHR 0x0A] else text)"

definition DebugInfoCache_GetSourceCode ::
  "(string \<Rightarrow> string option) \<Rightarrow> debug_info_cache \<Rightarrow> string \<Rightarrow> string \<Rightarrow> string" where
  "DebugInfoCache_GetSourceCode fs c sourceFile scriptIdentity =
     (if scriptIdentity \<noteq> [] then GetSourceCodeByIdentity c sourceFile scriptIdentity
      else let sourceCode = GetDisassemblySourceCode c sourceFile
           in if sourceCode \<noteq> [] then sourceCode
              else let sourceCode = GetCachedSourceCode c sourceFile
                   in if sourceCode \<noteq> [] then sourceCode else GetFileSourceCode fs sourceFile)"

definition DebugInfoCache_GetSourceFile :: "debug_info_cache \<Rightarrow> pt_method \<Rightarrow> string option" where
  "DebugInfoCache_GetSourceFile c method =
     (case GetDebugInfo c (m_pandaFile method) of
        None \<Rightarrow> None
      | Some debugInfo \<Rightarrow> Some (xt_sourceFile debugInfo (m_fileId method)))"

definition GetUserSourceFile :: "debug_info_cache \<Rightarrow> pt_method \<Rightarrow> string option" where
  "GetUserSourceFile c method =
     (case GetDebugInfo c (m_pandaFile method) of
        None \<Rightarrow> None
      | Some debugInfo \<Rightarrow> if \<not> xt_isUser debugInfo then None else Some (xt_sourceFile debugInfo (m_fileId method)))"

section \<open>The line of an offset\<close>

text \<open>
  The reference: the line of an offset is the one of the last entry that does not start after it.
\<close>

fun line_at :: "line_entry list \<Rightarrow> u32 \<Rightarrow> int option" where
  "line_at [] off = None"
| "line_at (e # es) off =
     (if off < le_offset e then None
      else case line_at es off of None \<Rightarrow> Some (le_line e) | Some l \<Rightarrow> Some l)"

abbreviation sorted_table :: "line_entry list \<Rightarrow> bool" where
  "sorted_table table \<equiv> sorted (map le_offset table)"

lemma upper_bound_0: "upper_bound p xs first 0 = first"
  by (subst upper_bound.simps) simp

lemma upper_bound_step:
  "len \<noteq> 0 \<Longrightarrow> upper_bound p xs first len =
     (if p (xs ! (first + len div 2)) then upper_bound p xs first (len div 2)
      else upper_bound p xs (Suc (first + len div 2)) (len - (len div 2 + 1)))"
  by (subst upper_bound.simps) (simp only: Let_def if_False)

text \<open>The binary search finds the boundary of a predicate that, once true, stays true.\<close>

lemma upper_bound_spec:
  assumes mono: "\<And>i j. i \<le> j \<Longrightarrow> j < length xs \<Longrightarrow> p (xs ! i) \<Longrightarrow> p (xs ! j)"
  assumes "first + len \<le> length xs"
    and "\<And>i. i < first \<Longrightarrow> \<not> p (xs ! i)" and "\<And>i. first + len \<le> i \<Longrightarrow> i < length xs \<Longrightarrow> p (xs ! i)"
  shows "upper_bound p xs first len \<le> length xs \<and>
    (\<forall>i < length xs. p (xs ! i) \<longleftrightarrow> upper_bound p xs first len \<le> i)"
  using assms(2-)
proof (induction len arbitrary: first rule: less_induct)
  case (less len)
  define mid where "mid = first + len div 2"
  show ?case
  proof (cases "len = 0")
    case True
    then have "p (xs ! i) \<longleftrightarrow> first \<le> i" if "i < length xs" for i
      using less.prems(2) [of i] less.prems(3) [of i] that by (cases "i < first") simp_all
    then show ?thesis using True less.prems(1) by (simp add: upper_bound_0)
  next
    case False
    then have len: "mid < length xs" "len div 2 < len" "len - (len div 2 + 1) < len"
      "Suc mid + (len - (len div 2 + 1)) = first + len"
      using less.prems(1) by (auto simp: mid_def)
    show ?thesis
    proof (cases "p (xs ! mid)")
      case True
      have "p (xs ! i)" if "first + len div 2 \<le> i" "i < length xs" for i
        using mono [of mid i] that True by (simp add: mid_def)
      note * = less.IH [OF len(2) _ less.prems(2) this]
      show ?thesis
        unfolding upper_bound_step [OF False] if_P [OF True [unfolded mid_def]]
        by (rule *) (use less.prems(1) in auto)
    next
      case p: False
      have "\<not> p (xs ! i)" if "i < Suc mid" for i
        using mono [of i mid] that p len(1) by auto
      note * = less.IH [OF len(3) _ this]
      show ?thesis
        unfolding upper_bound_step [OF False] if_not_P [OF p [unfolded mid_def]]
        by (rule * [unfolded mid_def]) (use less.prems(1,3) len(4) in \<open>auto simp: mid_def\<close>)
    qed
  qed
qed

lemma line_index_spec:
  assumes "sorted_table table"
  shows "line_index table off \<le> length table"
    and "i < length table \<Longrightarrow> off < le_offset (table ! i) \<longleftrightarrow> line_index table off \<le> i"
proof -
  have "off < le_offset (table ! j)" if "i \<le> j" "j < length table" "off < le_offset (table ! i)" for i j
    using that sorted_nth_mono [OF assms, of i j] by (simp add: order_less_le_trans)
  then have *: "line_index table off \<le> length table \<and>
    (\<forall>i < length table. off < le_offset (table ! i) \<longleftrightarrow> line_index table off \<le> i)"
    unfolding line_index_def by (intro upper_bound_spec) auto
  then show "line_index table off \<le> length table"
    and "i < length table \<Longrightarrow> off < le_offset (table ! i) \<longleftrightarrow> line_index table off \<le> i"
    by auto
qed

lemma line_at_index:
  assumes "sorted_table table" "n \<le> length table"
    and "\<And>i. i < length table \<Longrightarrow> off < le_offset (table ! i) \<longleftrightarrow> n \<le> i"
  shows "line_at table off = (if n = 0 then None else Some (le_line (table ! (n - 1))))"
  using assms
proof (induction table arbitrary: n)
  case (Cons e es)
  show ?case
  proof (cases n)
    case 0
    then show ?thesis using Cons.prems(3) [of 0] by simp
  next
    case (Suc m)
    have "line_at es off = (if m = 0 then None else Some (le_line (es ! (m - 1))))"
    proof (rule Cons.IH)
      show "off < le_offset (es ! i) \<longleftrightarrow> m \<le> i" if "i < length es" for i
        using Cons.prems(3) [of "Suc i"] that Suc by simp
    qed (use Cons.prems Suc in auto)
    then show ?thesis using Cons.prems(3) [of 0] Suc by (cases m) auto
  qed
qed simp

lemma line_at_search:
  assumes "sorted_table table"
  shows "line_at table off =
    (if line_index table off = 0 then None else Some (le_line (table ! (line_index table off - 1))))"
  by (rule line_at_index [OF assms line_index_spec(1) [OF assms] line_index_spec(2) [OF assms]])

section \<open>Offsets of a line\<close>

lemma set_offsets_between [simp]: "set (offsets_between a b) = {a..<b}"
proof -
  have "off \<in> of_nat ` {unat a..<unat b} \<longleftrightarrow> off \<in> {a..<b}" for off :: u32
  proof
    assume "off \<in> of_nat ` {unat a..<unat b}"
    then obtain n where n: "off = of_nat n" "unat a \<le> n" "n < unat b" by auto
    then have "unat off = n"
      using unsigned_less [of b, where 'a = nat] by (simp add: unsigned_of_nat take_bit_eq_mod)
    then show "off \<in> {a..<b}" using n by (simp add: word_le_nat_alt word_less_nat_alt)
  next
    assume "off \<in> {a..<b}"
    then have "unat off \<in> {unat a..<unat b}" by (simp add: word_le_nat_alt word_less_nat_alt)
    then show "off \<in> of_nat ` {unat a..<unat b}" by (rule rev_image_eqI) simp
  qed
  then show ?thesis unfolding offsets_between_def set_map set_upt by blast
qed

lemma line_at_None_iff: "line_at es off = None \<longleftrightarrow> (case es of [] \<Rightarrow> True | e # _ \<Rightarrow> off < le_offset e)"
  by (cases es) (auto split: option.splits)

text \<open>In a sorted table the ranges of the entries of a line are the offsets that have that line.\<close>

definition wf_table :: "u32 \<Rightarrow> line_entry list \<Rightarrow> bool" where
  "wf_table codeSize table \<longleftrightarrow> sorted_table table \<and> list_all (\<lambda>e. le_offset e \<le> codeSize) table"

lemma line_offsets_iff:
  "wf_table codeSize table \<Longrightarrow>
     off \<in> set (line_offsets line codeSize table) \<longleftrightarrow> off < codeSize \<and> line_at table off = Some line"
proof (induction table)
  case (Cons e es)
  have IH: "off \<in> set (line_offsets line codeSize es) \<longleftrightarrow> off < codeSize \<and> line_at es off = Some line"
    using Cons by (simp add: wf_table_def)
  show ?case
  proof (cases es)
    case Nil
    then show ?thesis using Cons.prems by auto
  next
    case (Cons n ns)
    have n: "le_offset e \<le> le_offset n" "le_offset n \<le> codeSize"
      using Cons.prems Cons by (auto simp: wf_table_def)
    show ?thesis
    proof (cases "off < le_offset n")
      case True
      then have "line_at es off = None" using Cons by (simp add: line_at_None_iff)
      then show ?thesis using IH True order_less_le_trans [OF True n(2)] Cons by (auto simp: not_less)
    next
      case False
      then have "line_at es off \<noteq> None" using Cons by (simp only: line_at_None_iff list.case not_False_eq_True)
      then obtain l where "line_at es off = Some l" by blast
      then show ?thesis using IH False order_less_le_trans [OF _ n(1), of off] Cons by (auto simp: not_less)
    qed
  qed
qed simp

section \<open>What the enumerations collect\<close>

abbreviation location_of :: "panda_file \<Rightarrow> EntityId \<Rightarrow> u32 \<Rightarrow> pt_location" where
  "location_of file methodId off \<equiv>
     \<lparr>loc_pandaFile = pf_filename file, loc_methodId = methodId, loc_offset = off\<rparr>"

lemma enumerate_entries_collect:
  assumes "\<And>e n s. h e n s = (True, if Q e then insert (g e) s else s)"
  shows "enumerate_entries h es s = s \<union> g ` {e \<in> set es. Q e}"
  by (induction es arbitrary: s) (auto simp: assms)

lemma enumerate_entries_first:
  assumes "\<And>e n s. h e n s = (if Q e then (False, f e s) else (True, s))"
  shows "enumerate_entries h es s = (case List.find Q es of None \<Rightarrow> s | Some e \<Rightarrow> f e s)"
  by (induction es arbitrary: s) (auto simp: assms)

text \<open>An enumeration whose work on a method adds to a set adds the union over the selected methods.\<close>

lemma enumerate_methods_collect:
  assumes "\<And>m s. mf m \<Longrightarrow> r (enumerate_entries (h m) (xt_lines x m) s) = r s \<union> A m"
  shows "r (enumerate_methods mf h x ms s) = r s \<union> (\<Union>m \<in> {m \<in> set ms. mf m}. A m)"
  by (induction ms arbitrary: s) (auto simp: assms)

lemma EnumerateLineEntries_collect:
  assumes "\<And>file x m s. mf file x m \<Longrightarrow> r (enumerate_entries (h file x m) (xt_lines x m) s) = r s \<union> A file x m"
  shows "r (EnumerateLineEntries pff mf h infos s) =
    r s \<union> (\<Union>(file, x) \<in> {i \<in> set infos. pff (fst i)}. \<Union>m \<in> {m \<in> set (xt_methods x). mf file x m}. A file x m)"
proof (induction infos arbitrary: s)
  case (Cons i infos)
  obtain "file" x where i: "i = (file, x)" by fastforce
  have "r (enumerate_methods (mf file x) (h file x) x (xt_methods x) s) =
      r s \<union> (\<Union>m \<in> {m \<in> set (xt_methods x). mf file x m}. A file x m)" for s
    by (rule enumerate_methods_collect) (rule assms)
  then show ?case using Cons.IH by (auto simp: i)
qed simp

lemma GetBreakpointLocations_set:
  "set (fst (GetBreakpointLocations c sourceFileFilter line)) =
     {location_of file m (le_offset e) | file x m e. (file, x) \<in> set (debugInfos c) \<and> m \<in> set (xt_methods x) \<and>
        sourceFileFilter (xt_sourceFile x m) (pf_filename file) \<and>
        List.find (\<lambda>e. le_line e = line) (xt_lines x m) = Some e}"
proof -
  let ?h = "\<lambda>pandaFile debugInfo methodId entry (_ :: line_entry option) (locations, sourceFiles).
          if le_line entry = line
          then (False, List.insert (location_of pandaFile methodId (le_offset entry)) locations,
                insert (xt_sourceFile debugInfo methodId, pf_filename pandaFile) sourceFiles)
          else (True, locations, sourceFiles)"
  have *: "(set \<circ> fst) (enumerate_entries (?h file x m) (xt_lines x m) s) = (set \<circ> fst) s \<union>
      (case List.find (\<lambda>e. le_line e = line) (xt_lines x m) of None \<Rightarrow> {} | Some e \<Rightarrow> {location_of file m (le_offset e)})"
    for "file" x m s
    by (subst enumerate_entries_first [where Q = "\<lambda>e. le_line e = line" and
          f = "\<lambda>e (ls, fs). (List.insert (location_of file m (le_offset e)) ls, insert (xt_sourceFile x m, pf_filename file) fs)"])
       (auto split: option.splits prod.splits)
  have "(set \<circ> fst) (GetBreakpointLocations c sourceFileFilter line) =
    (\<Union>(file, x) \<in> set (debugInfos c). \<Union>m \<in> {m \<in> set (xt_methods x). sourceFileFilter (xt_sourceFile x m) (pf_filename file)}.
       case List.find (\<lambda>e. le_line e = line) (xt_lines x m) of None \<Rightarrow> {} | Some e \<Rightarrow> {location_of file m (le_offset e)})"
    unfolding GetBreakpointLocations_def by (subst EnumerateLineEntries_collect [where r = "set \<circ> fst", OF *]) simp
  then show ?thesis by (fastforce split: option.splits)
qed

lemma GetValidLineNumbers_subset:
  "l \<in> GetValidLineNumbers c sourceFile scriptIdentity startLine endLine b \<Longrightarrow> startLine \<le> l \<and> l < endLine"
proof -
  let ?h = "\<lambda>_ _ _ entry _ lineNumbers.
      (True, if le_line entry \<ge> startLine \<and> le_line entry < endLine then insert (le_line entry) lineNumbers else lineNumbers)"
  have *: "id (enumerate_entries (?h file x m) (xt_lines x m) s) =
      id s \<union> le_line ` {e \<in> set (xt_lines x m). le_line e \<ge> startLine \<and> le_line e < endLine}" for "file" x m s
    by (subst enumerate_entries_collect) auto
  have "id (EnumerateLineEntries pff mf ?h infos {}) \<subseteq> {startLine..<endLine}" for pff mf infos
    by (subst EnumerateLineEntries_collect [where r = id, OF *]) auto
  moreover assume "l \<in> GetValidLineNumbers c sourceFile scriptIdentity startLine endLine b"
  ultimately show ?thesis unfolding GetValidLineNumbers_def Let_def by (fastforce split: if_splits)
qed

text \<open>
  C23. The locations a step starts from: for a method whose line table is sorted and stays within
  the code, they are exactly the offsets of the method that have the line of the current offset,
  where the line of an offset is that of the last entry not after it. So a step ends at the first
  instruction of another line, and never between two instructions of one line.
\<close>

theorem current_line_locations:
  assumes "GetDebugInfo c (m_pandaFile (fr_method frame)) = Some x"
    and "table = xt_lines x (m_fileId (fr_method frame))"
    and "wf_table (m_codeSize (fr_method frame)) table"
  shows "GetCurrentLineLocations c frame =
    {loc. loc_pandaFile loc = pf_filename (m_pandaFile (fr_method frame)) \<and>
          loc_methodId loc = m_fileId (fr_method frame) \<and> loc_offset loc < m_codeSize (fr_method frame) \<and>
          line_at table (fr_offset frame) \<noteq> None \<and>
          line_at table (loc_offset loc) = line_at table (fr_offset frame)}"
proof -
  have "sorted_table table" using assms(3) by (simp add: wf_table_def)
  note line = line_at_search [OF this, of "fr_offset frame"]
  show ?thesis
  proof (cases "line_index table (fr_offset frame) = 0")
    case True
    then show ?thesis using assms line by (simp add: GetCurrentLineLocations_def)
  next
    case False
    then show ?thesis using assms(1,2) line line_offsets_iff [OF assms(3)]
      by (auto simp: GetCurrentLineLocations_def Let_def image_iff)
         (metis pt_location.surjective old.unit.exhaust)
  qed
qed

text \<open>A method of three line entries, the third on the line of the first.\<close>

definition sample_file :: panda_file where
  "sample_file = \<lparr>pf_addr = 1, pf_filename = ''app.abc'', pf_codeSize = (\<lambda>_. Some 10)\<rparr>"

definition sample_table :: "line_entry list" where
  "sample_table = [\<lparr>le_offset = 0, le_line = 3\<rparr>, \<lparr>le_offset = 4, le_line = 4\<rparr>, \<lparr>le_offset = 8, le_line = 3\<rparr>]"

definition sample_extractor :: extractor where
  "sample_extractor = \<lparr>xt_methods = [7], xt_sourceFile = (\<lambda>_. ''a.ets''), xt_sourceCode = (\<lambda>_. ''''),
     xt_lines = (\<lambda>_. sample_table), xt_parameters = (\<lambda>_. []), xt_variables = (\<lambda>_. []), xt_isUser = True\<rparr>"

definition sample_frame :: pt_frame where
  "sample_frame = \<lparr>fr_method = \<lparr>m_pandaFile = sample_file, m_fileId = 7, m_name = ''main'', m_codeSize = 10\<rparr>,
     fr_offset = 1, fr_argument = (\<lambda>_. (0, PRIMITIVE)), fr_vreg = (\<lambda>_. (0, PRIMITIVE)),
     fr_accumulator = (0, PRIMITIVE)\<rparr>"

definition sample_cache :: debug_info_cache where
  "sample_cache = AddPandaFile DebugInfoCache_new sample_file sample_extractor True"

lemmas sample_defs = sample_cache_def sample_frame_def sample_extractor_def sample_table_def sample_file_def
  AddPandaFile_def DebugInfoCache_new_def GetDebugInfo_def

theorem current_line_locations_witness:
  "wf_table 10 sample_table \<and>
   location_of sample_file 7 9 \<in> GetCurrentLineLocations sample_cache sample_frame \<and>
   location_of sample_file 7 5 \<notin> GetCurrentLineLocations sample_cache sample_frame"
proof -
  have "GetDebugInfo sample_cache (m_pandaFile (fr_method sample_frame)) = Some sample_extractor"
    "sample_table = xt_lines sample_extractor (m_fileId (fr_method sample_frame))"
    "wf_table 10 sample_table" "m_codeSize (fr_method sample_frame) = 10"
    by (simp_all add: sample_defs wf_table_def)
  then show ?thesis
    using current_line_locations [of sample_cache sample_frame sample_extractor sample_table]
    by (simp add: sample_frame_def sample_extractor_def sample_table_def)
qed

end
