(* ===== verification/Breakpoints.thy ===== *)
theory Breakpoints
  imports Debug_Info "HOL-Library.AList"
begin

text \<open>
  The breakpoints of the static inspector (tooling/static/debugger): \<^verbatim>\<open>BreakpointBase\<close> and its two
  implementations, the evaluation engine a condition is run by, and \<^verbatim>\<open>BreakpointStorage\<close>, which
  keeps the breakpoints by id next to an index from locations to ids. The virtual interface is a
  locale interpreted for both implementations; the storage is shown to answer as a scan of all
  breakpoints would.

  A multimap is the list of its pairs and an unordered set a list without repetitions. The ids are
  numbers: a \<^verbatim>\<open>size_t\<close> would have to count \<open>2\<^sup>6\<^sup>4\<close> breakpoints to repeat.
\<close>

section \<open>Evaluation engine\<close>

text \<open>
  What the debugger of the runtime does on a thread \<open>'w\<close>: run a fragment for the first time, which
  loads a method, or run a loaded method; each gives an error or a value. The value read as a
  boolean (\<^verbatim>\<open>GetAsU1\<close>) is a function of the runtime too.
\<close>

type_synonym BreakpointId = nat
type_synonym method_handle = nat
type_synonym object_header = nat

record 'w debugger_ops =
  dbg_evaluate_method :: "u32 \<Rightarrow> method_handle \<Rightarrow> 'w \<Rightarrow> (string + typed_value) \<times> 'w"
  dbg_evaluate_bytecode :: "u32 \<Rightarrow> string \<Rightarrow> 'w \<Rightarrow> (string + typed_value) \<times> method_handle option \<times> 'w"
  thr_GetException :: "'w \<Rightarrow> object_header option"
  thr_ClearException :: "'w \<Rightarrow> 'w"
  tv_GetAsU1 :: "typed_value \<Rightarrow> bool"

record 'w evaluation_engine =
  evaluating :: bool
  ev_thread :: 'w

definition EvaluateExpression ::
  "'w debugger_ops \<Rightarrow> u32 \<Rightarrow> string \<Rightarrow> method_handle option \<Rightarrow> 'w evaluation_engine \<Rightarrow>
     (string + typed_value \<times> object_header option) \<times> method_handle option \<times> 'w evaluation_engine" where
  "EvaluateExpression ops frameNumber bytecode method eng =
     (let (res, method, w) =
            (case method of
               Some m \<Rightarrow> (case dbg_evaluate_method ops frameNumber m (ev_thread eng) of (r, w) \<Rightarrow> (r, Some m, w))
             | None \<Rightarrow> dbg_evaluate_bytecode ops frameNumber bytecode (ev_thread eng))
      in case res of
           Inl err \<Rightarrow> (Inl err, method, \<lparr>evaluating = False, ev_thread = w\<rparr>)
         | Inr result \<Rightarrow>
             let exception = thr_GetException ops w;
                 w = (if exception \<noteq> None then thr_ClearException ops w else w)
             in (Inr (result, exception), method, \<lparr>evaluating = False, ev_thread = w\<rparr>))"

section \<open>Breakpoints\<close>

type_synonym location_index = "(pt_location \<times> BreakpointId) list"

record breakpoint =
  bp_id :: BreakpointId
  bp_resolved :: bool
  bp_locations :: "pt_location list"
  bp_sourceFileFilter :: source_file_filter
  bp_lineNumber :: int
  bp_isUrlPattern :: bool

definition Breakpoint_new :: "BreakpointId \<Rightarrow> source_file_filter \<Rightarrow> int \<Rightarrow> bool \<Rightarrow> breakpoint" where
  "Breakpoint_new bpId flt line isUrlPattern =
     \<lparr>bp_id = bpId, bp_resolved = False, bp_locations = [], bp_sourceFileFilter = flt,
      bp_lineNumber = line, bp_isUrlPattern = isUrlPattern\<rparr>"

definition Breakpoint_SetLocations ::
  "breakpoint \<Rightarrow> debug_info_cache \<Rightarrow> location_index \<Rightarrow> bool \<times> breakpoint \<times> source_file_set \<times> location_index" where
  "Breakpoint_SetLocations b debugCache index =
     (let (locations, sourceFiles) = GetBreakpointLocations debugCache (bp_sourceFileFilter b) (bp_lineNumber b);
          b = b\<lparr>bp_locations := locations\<rparr>
      in if locations = [] then (False, b, sourceFiles, index)
         else (True, b\<lparr>bp_resolved := True\<rparr>, sourceFiles, index @ map (\<lambda>l. (l, bp_id b)) locations))"

definition Breakpoint_ShouldStopAt :: "breakpoint \<Rightarrow> pt_location \<Rightarrow> bool" where
  "Breakpoint_ShouldStopAt b location =
     (if \<not> bp_resolved b then False else list_ex (\<lambda>loc. loc = location) (bp_locations b))"

fun Breakpoint_lines :: "panda_file \<Rightarrow> EntityId \<Rightarrow> line_entry list \<Rightarrow> breakpoint \<times> location_index \<Rightarrow> breakpoint \<times> location_index" where
  "Breakpoint_lines file methodId [] s = s"
| "Breakpoint_lines file methodId (entry # es) (b, index) =
     (if le_line entry = bp_lineNumber b
      then let loc = location_of file methodId (le_offset entry)
           in (b\<lparr>bp_locations := List.insert loc (bp_locations b), bp_resolved := True\<rparr>, index @ [(loc, bp_id b)])
      else Breakpoint_lines file methodId es (b, index))"

fun Breakpoint_TryResolveImpl ::
  "panda_file \<Rightarrow> extractor \<Rightarrow> EntityId list \<Rightarrow> breakpoint \<times> location_index \<Rightarrow> breakpoint \<times> location_index" where
  "Breakpoint_TryResolveImpl file debugInfo [] s = s"
| "Breakpoint_TryResolveImpl file debugInfo (methodId # ms) s =
     Breakpoint_TryResolveImpl file debugInfo ms
       (if bp_sourceFileFilter (fst s) (xt_sourceFile debugInfo methodId) (pf_filename file)
        then Breakpoint_lines file methodId (xt_lines debugInfo methodId) s else s)"

record cond_breakpoint =
  cb_id :: BreakpointId
  cb_resolved :: bool
  cb_location :: "pt_location option"
  cb_sourceFileFilter :: source_file_filter
  cb_lineNumber :: int
  cb_bytecode :: string
  cb_method :: "method_handle option"

definition ConditionalBreakpoint_new :: "BreakpointId \<Rightarrow> source_file_filter \<Rightarrow> int \<Rightarrow> string \<Rightarrow> cond_breakpoint" where
  "ConditionalBreakpoint_new bpId flt line bytecode =
     \<lparr>cb_id = bpId, cb_resolved = False, cb_location = None, cb_sourceFileFilter = flt,
      cb_lineNumber = line, cb_bytecode = bytecode, cb_method = None\<rparr>"

definition ConditionalBreakpoint_ShouldStopAt ::
  "'w debugger_ops \<Rightarrow> cond_breakpoint \<Rightarrow> pt_location \<Rightarrow> 'w evaluation_engine \<Rightarrow>
     bool \<times> cond_breakpoint \<times> 'w evaluation_engine" where
  "ConditionalBreakpoint_ShouldStopAt ops b location eng =
     (if cb_location b \<noteq> Some location then (False, b, eng)
      else let (evalRes, method, eng) = EvaluateExpression ops 0 (cb_bytecode b) (cb_method b) eng;
               b = b\<lparr>cb_method := method\<rparr>
           in case evalRes of
                Inl err \<Rightarrow> (False, b, eng)
              | Inr (value, exc) \<Rightarrow> if exc \<noteq> None then (False, b, eng) else (tv_GetAsU1 ops value, b, eng))"

definition ConditionalBreakpoint_SetLocations ::
  "cond_breakpoint \<Rightarrow> debug_info_cache \<Rightarrow> location_index \<Rightarrow> bool \<times> cond_breakpoint \<times> source_file_set \<times> location_index" where
  "ConditionalBreakpoint_SetLocations b debugCache index =
     (let (locations, sourceFiles) = GetBreakpointLocations debugCache (cb_sourceFileFilter b) (cb_lineNumber b)
      in if 1 < length locations then (False, b, sourceFiles, index)
         else if locations = [] then (True, b, sourceFiles, index)
         else (True, b\<lparr>cb_location := Some (hd locations), cb_resolved := True\<rparr>, sourceFiles,
               index @ [(hd locations, cb_id b)]))"

fun ConditionalBreakpoint_lines ::
  "panda_file \<Rightarrow> EntityId \<Rightarrow> line_entry list \<Rightarrow> cond_breakpoint \<times> location_index \<Rightarrow> cond_breakpoint \<times> location_index" where
  "ConditionalBreakpoint_lines file methodId [] s = s"
| "ConditionalBreakpoint_lines file methodId (entry # es) (b, index) =
     (if le_line entry = cb_lineNumber b
      then let loc = location_of file methodId (le_offset entry)
           in (b\<lparr>cb_location := Some loc, cb_resolved := True\<rparr>, index @ [(loc, cb_id b)])
      else ConditionalBreakpoint_lines file methodId es (b, index))"

fun ConditionalBreakpoint_methods ::
  "panda_file \<Rightarrow> extractor \<Rightarrow> EntityId list \<Rightarrow> cond_breakpoint \<times> location_index \<Rightarrow> cond_breakpoint \<times> location_index" where
  "ConditionalBreakpoint_methods file debugInfo [] s = s"
| "ConditionalBreakpoint_methods file debugInfo (methodId # ms) s =
     ConditionalBreakpoint_methods file debugInfo ms
       (if cb_sourceFileFilter (fst s) (xt_sourceFile debugInfo methodId) (pf_filename file)
        then ConditionalBreakpoint_lines file methodId (xt_lines debugInfo methodId) s else s)"

definition ConditionalBreakpoint_TryResolveImpl ::
  "panda_file \<Rightarrow> extractor \<Rightarrow> EntityId list \<Rightarrow> cond_breakpoint \<times> location_index \<Rightarrow> cond_breakpoint \<times> location_index" where
  "ConditionalBreakpoint_TryResolveImpl file debugInfo methods s =
     (if cb_resolved (fst s) then s else ConditionalBreakpoint_methods file debugInfo methods s)"

section \<open>Dispatch\<close>

datatype breakpoint_base = Breakpoint breakpoint | ConditionalBreakpoint cond_breakpoint

fun GetId :: "breakpoint_base \<Rightarrow> BreakpointId" where
  "GetId (Breakpoint b) = bp_id b"
| "GetId (ConditionalBreakpoint b) = cb_id b"

fun IsResolved :: "breakpoint_base \<Rightarrow> bool" where
  "IsResolved (Breakpoint b) = bp_resolved b"
| "IsResolved (ConditionalBreakpoint b) = cb_resolved b"

fun SetLocations ::
  "breakpoint_base \<Rightarrow> debug_info_cache \<Rightarrow> location_index \<Rightarrow> bool \<times> breakpoint_base \<times> source_file_set \<times> location_index" where
  "SetLocations (Breakpoint b) debugCache index =
     (case Breakpoint_SetLocations b debugCache index of (ok, b, fs, ix) \<Rightarrow> (ok, Breakpoint b, fs, ix))"
| "SetLocations (ConditionalBreakpoint b) debugCache index =
     (case ConditionalBreakpoint_SetLocations b debugCache index of (ok, b, fs, ix) \<Rightarrow> (ok, ConditionalBreakpoint b, fs, ix))"

fun ShouldStopAt ::
  "'w debugger_ops \<Rightarrow> breakpoint_base \<Rightarrow> pt_location \<Rightarrow> 'w evaluation_engine \<Rightarrow> bool \<times> breakpoint_base \<times> 'w evaluation_engine" where
  "ShouldStopAt ops (Breakpoint b) location eng = (Breakpoint_ShouldStopAt b location, Breakpoint b, eng)"
| "ShouldStopAt ops (ConditionalBreakpoint b) location eng =
     (case ConditionalBreakpoint_ShouldStopAt ops b location eng of (r, b, eng) \<Rightarrow> (r, ConditionalBreakpoint b, eng))"

fun TryResolve :: "panda_file \<Rightarrow> extractor \<Rightarrow> breakpoint_base \<Rightarrow> location_index \<Rightarrow> breakpoint_base \<times> location_index" where
  "TryResolve file debugInfo (Breakpoint b) index =
     (case Breakpoint_TryResolveImpl file debugInfo (xt_methods debugInfo) (b, index) of (b, ix) \<Rightarrow> (Breakpoint b, ix))"
| "TryResolve file debugInfo (ConditionalBreakpoint b) index =
     (case ConditionalBreakpoint_TryResolveImpl file debugInfo (xt_methods debugInfo) (b, index) of
        (b, ix) \<Rightarrow> (ConditionalBreakpoint b, ix))"

section \<open>Storage\<close>

record storage =
  breakpointsActive :: bool
  nextBreakpointId :: BreakpointId
  breakpointLocations :: location_index
  breakpointStorage :: "(BreakpointId \<times> breakpoint_base) list"

definition BreakpointStorage_new :: storage where
  "BreakpointStorage_new =
     \<lparr>breakpointsActive = True, nextBreakpointId = 0, breakpointLocations = [], breakpointStorage = []\<rparr>"

text \<open>\<^verbatim>\<open>equal_range\<close>\<close>

definition ids_at :: "location_index \<Rightarrow> pt_location \<Rightarrow> BreakpointId list" where
  "ids_at index location = map snd (filter (\<lambda>p. fst p = location) index)"

text \<open>
  The loop over the ids at a location. \<^verbatim>\<open>operator[]\<close> makes an empty entry for an id that is not
  stored, and calling through it is \<open>None\<close>.
\<close>

fun ShouldStop_loop ::
  "'w debugger_ops \<Rightarrow> pt_location \<Rightarrow> BreakpointId list \<Rightarrow> (BreakpointId \<times> breakpoint_base) list \<Rightarrow>
     'w evaluation_engine \<Rightarrow> (bool \<times> (BreakpointId \<times> breakpoint_base) list \<times> 'w evaluation_engine) option" where
  "ShouldStop_loop ops location [] m eng = Some (False, m, eng)"
| "ShouldStop_loop ops location (bpId # ids) m eng =
     (case map_of m bpId of
        None \<Rightarrow> None
      | Some bp \<Rightarrow>
          (case ShouldStopAt ops bp location eng of
             (shouldStop, bp, eng) \<Rightarrow>
               let m = AList.update bpId bp m
               in if shouldStop then Some (True, m, eng) else ShouldStop_loop ops location ids m eng))"

definition ShouldStopAtBreakpoint ::
  "'w debugger_ops \<Rightarrow> storage \<Rightarrow> pt_location \<Rightarrow> 'w evaluation_engine \<Rightarrow> (bool \<times> storage \<times> 'w evaluation_engine) option" where
  "ShouldStopAtBreakpoint ops s location eng =
     (if \<not> breakpointsActive s then Some (False, s, eng)
      else case ShouldStop_loop ops location (ids_at (breakpointLocations s) location) (breakpointStorage s) eng of
             None \<Rightarrow> None
           | Some (r, m, eng) \<Rightarrow> Some (r, s\<lparr>breakpointStorage := m\<rparr>, eng))"

fun ResolveBreakpoints_loop ::
  "panda_file \<Rightarrow> extractor \<Rightarrow> (BreakpointId \<times> breakpoint_base) list \<Rightarrow> location_index \<Rightarrow>
     (BreakpointId \<times> breakpoint_base) list \<times> location_index" where
  "ResolveBreakpoints_loop file debugInfo [] index = ([], index)"
| "ResolveBreakpoints_loop file debugInfo ((k, bp) # rest) index =
     (case TryResolve file debugInfo bp index of
        (bp, index) \<Rightarrow>
          (case ResolveBreakpoints_loop file debugInfo rest index of (rest, index) \<Rightarrow> ((k, bp) # rest, index)))"

definition BreakpointStorage_ResolveBreakpoints :: "panda_file \<Rightarrow> extractor \<Rightarrow> storage \<Rightarrow> storage" where
  "BreakpointStorage_ResolveBreakpoints file debugInfo s =
     (case ResolveBreakpoints_loop file debugInfo (breakpointStorage s) (breakpointLocations s) of
        (m, index) \<Rightarrow> s\<lparr>breakpointStorage := m, breakpointLocations := index\<rparr>)"

definition BreakpointStorage_RemoveBreakpoint :: "BreakpointId \<Rightarrow> storage \<Rightarrow> storage" where
  "BreakpointStorage_RemoveBreakpoint bpId s =
     s\<lparr>breakpointLocations := filter (\<lambda>p. snd p \<noteq> bpId) (breakpointLocations s),
       breakpointStorage := filter (\<lambda>p. fst p \<noteq> bpId) (breakpointStorage s)\<rparr>"

definition BreakpointStorage_SetBreakpoint ::
  "source_file_filter \<Rightarrow> int \<Rightarrow> string option \<Rightarrow> debug_info_cache \<Rightarrow> storage \<Rightarrow>
     BreakpointId option \<times> source_file_set \<times> storage" where
  "BreakpointStorage_SetBreakpoint sourceFilesFilter lineNumber condition debugCache s =
     (let bpId = nextBreakpointId s;
          bbp = (case condition of
                   None \<Rightarrow> Breakpoint (Breakpoint_new bpId sourceFilesFilter lineNumber True)
                 | Some c \<Rightarrow> ConditionalBreakpoint (ConditionalBreakpoint_new bpId sourceFilesFilter lineNumber c))
      in case SetLocations bbp debugCache (breakpointLocations s) of
           (ok, bbp, sourceFiles, index) \<Rightarrow>
             if \<not> ok then (None, sourceFiles, s\<lparr>breakpointLocations := index\<rparr>)
             else (Some bpId, sourceFiles,
                   s\<lparr>breakpointLocations := index, nextBreakpointId := Suc (nextBreakpointId s),
                     breakpointStorage := AList.update bpId bbp (breakpointStorage s)\<rparr>))"

definition BreakpointStorage_Reset :: "storage \<Rightarrow> storage" where
  "BreakpointStorage_Reset s =
     s\<lparr>breakpointsActive := True, nextBreakpointId := 0, breakpointLocations := [], breakpointStorage := []\<rparr>"

definition BreakpointStorage_SetBreakpointsActive :: "bool \<Rightarrow> storage \<Rightarrow> storage" where
  "BreakpointStorage_SetBreakpointsActive active s = s\<lparr>breakpointsActive := active\<rparr>"

definition BreakpointStorage_GetBreakpointsByLocation :: "storage \<Rightarrow> pt_location \<Rightarrow> BreakpointId list" where
  "BreakpointStorage_GetBreakpointsByLocation s location = ids_at (breakpointLocations s) location"

fun RemoveBreakpoints_loop :: "BreakpointId list \<Rightarrow> storage \<Rightarrow> storage" where
  "RemoveBreakpoints_loop [] s = s"
| "RemoveBreakpoints_loop (bpId # ids) s =
     RemoveBreakpoints_loop ids
       (s\<lparr>breakpointLocations := filter (\<lambda>p. snd p \<noteq> bpId) (breakpointLocations s),
          breakpointStorage := filter (\<lambda>p. fst p \<noteq> bpId) (breakpointStorage s)\<rparr>)"

definition BreakpointStorage_RemoveBreakpoints :: "(pt_location \<Rightarrow> bool) \<Rightarrow> storage \<Rightarrow> storage" where
  "BreakpointStorage_RemoveBreakpoints flt s =
     RemoveBreakpoints_loop (map snd (filter (\<lambda>p. flt (fst p)) (breakpointLocations s))) s"

section \<open>The contract of a breakpoint\<close>

text \<open>
  What the storage relies on of \<^verbatim>\<open>BreakpointBase\<close>: a breakpoint keeps its id, writes only its own id
  into the index, and every location it may stop at has been written there. \<open>locs\<close> is the set of
  those locations.
\<close>

locale breakpoint_impl =
  fixes ident :: "'b \<Rightarrow> BreakpointId"
    and resolved :: "'b \<Rightarrow> bool"
    and locs :: "'b \<Rightarrow> pt_location set"
    and set_locations :: "'b \<Rightarrow> debug_info_cache \<Rightarrow> location_index \<Rightarrow> bool \<times> 'b \<times> source_file_set \<times> location_index"
    and try_resolve :: "panda_file \<Rightarrow> extractor \<Rightarrow> 'b \<Rightarrow> location_index \<Rightarrow> 'b \<times> location_index"
  assumes set_fails: "set_locations b c ix = (False, b', fs, ix') \<Longrightarrow> ix' = ix"
    and set_writes: "set_locations b c ix = (True, b', fs, ix') \<Longrightarrow> locs b = {} \<Longrightarrow> \<not> resolved b \<Longrightarrow>
        ident b' = ident b \<and> ix' = ix @ map (\<lambda>l. (l, ident b)) (drop (length ix) (map fst ix')) \<and>
        locs b' = set (drop (length ix) (map fst ix')) \<and> (resolved b' \<longleftrightarrow> locs b' \<noteq> {})"
    and resolve_writes: "try_resolve f x b ix = (b', ix') \<Longrightarrow> (resolved b \<longleftrightarrow> locs b \<noteq> {}) \<Longrightarrow>
        ident b' = ident b \<and> ix' = ix @ map (\<lambda>l. (l, ident b)) (drop (length ix) (map fst ix')) \<and>
        locs b' \<subseteq> locs b \<union> set (drop (length ix) (map fst ix')) \<and> (resolved b' \<longleftrightarrow> locs b' \<noteq> {})"
begin

definition indexed :: "'b \<Rightarrow> location_index \<Rightarrow> bool" where
  "indexed b ix \<longleftrightarrow> (resolved b \<longleftrightarrow> locs b \<noteq> {}) \<and> (\<forall>l \<in> locs b. (l, ident b) \<in> set ix)"

lemma indexed_mono: "indexed b ix \<Longrightarrow> set ix \<subseteq> set ix' \<Longrightarrow> indexed b ix'"
  by (auto simp: indexed_def)

lemma own_entries:
  assumes "ix' = ix @ map (\<lambda>l. (l, k)) new"
  shows "set ix \<subseteq> set ix'" "p \<in> set ix' \<Longrightarrow> p \<in> set ix \<or> snd p = k" "l \<in> set new \<Longrightarrow> (l, k) \<in> set ix'"
  using assms by auto

lemma set_indexed:
  assumes "set_locations b c ix = (True, b', fs, ix')" "locs b = {}" "\<not> resolved b"
  shows "ident b' = ident b" "set ix \<subseteq> set ix'" "p \<in> set ix' \<Longrightarrow> p \<in> set ix \<or> snd p = ident b" "indexed b' ix'"
proof -
  from set_writes [OF assms] have w: "ident b' = ident b"
      "ix' = ix @ map (\<lambda>l. (l, ident b)) (drop (length ix) (map fst ix'))"
      "locs b' = set (drop (length ix) (map fst ix'))" "resolved b' \<longleftrightarrow> locs b' \<noteq> {}"
    by blast+
  show "ident b' = ident b" by fact
  show "set ix \<subseteq> set ix'" "p \<in> set ix' \<Longrightarrow> p \<in> set ix \<or> snd p = ident b"
    using own_entries(1,2) [OF w(2)] by blast+
  show "indexed b' ix'" unfolding indexed_def using own_entries(3) [OF w(2)] w by simp
qed

lemma resolve_indexed:
  assumes "try_resolve f x b ix = (b', ix')" "indexed b ix"
  shows "ident b' = ident b" "set ix \<subseteq> set ix'" "p \<in> set ix' \<Longrightarrow> p \<in> set ix \<or> snd p = ident b" "indexed b' ix'"
proof -
  have "resolved b \<longleftrightarrow> locs b \<noteq> {}" using assms(2) by (simp add: indexed_def)
  from resolve_writes [OF assms(1) this] have w: "ident b' = ident b"
      "ix' = ix @ map (\<lambda>l. (l, ident b)) (drop (length ix) (map fst ix'))"
      "locs b' \<subseteq> locs b \<union> set (drop (length ix) (map fst ix'))" "resolved b' \<longleftrightarrow> locs b' \<noteq> {}"
    by blast+
  show "ident b' = ident b" by fact
  show sub: "set ix \<subseteq> set ix'" and "p \<in> set ix' \<Longrightarrow> p \<in> set ix \<or> snd p = ident b"
    using own_entries(1,2) [OF w(2)] by blast+
  have "(l, ident b) \<in> set ix'" if "l \<in> locs b'" for l
    using that w(3) own_entries(3) [OF w(2)] assms(2) sub unfolding indexed_def by blast
  then show "indexed b' ix'" using w(1,4) by (simp add: indexed_def)
qed

end

lemma drop_written [simp]: "drop (length ix) (map fst (ix @ map (\<lambda>l. (l, k)) new)) = new"
  by (simp add: comp_def)

text \<open>What resolving does to a breakpoint and the index: some locations are written, and become the
  breakpoint's.\<close>

definition bp_writes :: "breakpoint \<times> location_index \<Rightarrow> breakpoint \<times> location_index \<Rightarrow> bool" where
  "bp_writes s s' \<longleftrightarrow> (\<exists>new. bp_id (fst s') = bp_id (fst s) \<and> snd s' = snd s @ map (\<lambda>l. (l, bp_id (fst s))) new \<and>
     set (bp_locations (fst s')) = set (bp_locations (fst s)) \<union> set new \<and>
     (bp_resolved (fst s') \<longleftrightarrow> bp_resolved (fst s) \<or> new \<noteq> []))"

lemma bp_writes_refl: "bp_writes s s"
  unfolding bp_writes_def by (intro exI [of _ "[]"]) simp

lemma bp_writes_trans: "bp_writes s t \<Longrightarrow> bp_writes t u \<Longrightarrow> bp_writes s u"
  unfolding bp_writes_def by (elim exE, rename_tac new1 new2, rule_tac x = "new1 @ new2" in exI) auto

lemma Breakpoint_lines_writes: "bp_writes (b, ix) (Breakpoint_lines f m es (b, ix))"
proof (induction es)
  case (Cons e es)
  then show ?case
    by (cases "le_line e = bp_lineNumber b")
       (auto simp: Let_def bp_writes_def intro!: exI [of _ "[location_of f m (le_offset e)]"])
qed (simp add: bp_writes_refl)

lemma Breakpoint_TryResolveImpl_writes: "bp_writes s (Breakpoint_TryResolveImpl f x ms s)"
proof (induction ms arbitrary: s)
  case (Cons m ms)
  have "bp_writes s (if bp_sourceFileFilter (fst s) (xt_sourceFile x m) (pf_filename f)
      then Breakpoint_lines f m (xt_lines x m) s else s)"
    using Breakpoint_lines_writes [of "fst s" "snd s" f m "xt_lines x m"] by (simp add: bp_writes_refl)
  from bp_writes_trans [OF this Cons.IH] show ?case by simp
qed (simp add: bp_writes_refl)

definition cb_writes :: "cond_breakpoint \<times> location_index \<Rightarrow> cond_breakpoint \<times> location_index \<Rightarrow> bool" where
  "cb_writes s s' \<longleftrightarrow> (\<exists>new. cb_id (fst s') = cb_id (fst s) \<and> snd s' = snd s @ map (\<lambda>l. (l, cb_id (fst s))) new \<and>
     cb_location (fst s') = (if new = [] then cb_location (fst s) else Some (last new)) \<and>
     (cb_resolved (fst s') \<longleftrightarrow> cb_resolved (fst s) \<or> new \<noteq> []) \<and>
     cb_bytecode (fst s') = cb_bytecode (fst s) \<and> cb_method (fst s') = cb_method (fst s))"

lemma cb_writes_refl: "cb_writes s s"
  unfolding cb_writes_def by (intro exI [of _ "[]"]) simp

lemma cb_writes_trans: "cb_writes s t \<Longrightarrow> cb_writes t u \<Longrightarrow> cb_writes s u"
  unfolding cb_writes_def by (elim exE, rename_tac new1 new2, rule_tac x = "new1 @ new2" in exI) auto

lemma ConditionalBreakpoint_lines_writes: "cb_writes (b, ix) (ConditionalBreakpoint_lines f m es (b, ix))"
proof (induction es)
  case (Cons e es)
  then show ?case
    by (cases "le_line e = cb_lineNumber b")
       (auto simp: Let_def cb_writes_def intro!: exI [of _ "[location_of f m (le_offset e)]"])
qed (simp add: cb_writes_refl)

lemma ConditionalBreakpoint_methods_writes: "cb_writes s (ConditionalBreakpoint_methods f x ms s)"
proof (induction ms arbitrary: s)
  case (Cons m ms)
  have "cb_writes s (if cb_sourceFileFilter (fst s) (xt_sourceFile x m) (pf_filename f)
      then ConditionalBreakpoint_lines f m (xt_lines x m) s else s)"
    using ConditionalBreakpoint_lines_writes [of "fst s" "snd s" f m "xt_lines x m"] by (simp add: cb_writes_refl)
  from cb_writes_trans [OF this Cons.IH] show ?case by simp
qed (simp add: cb_writes_refl)

lemma ConditionalBreakpoint_TryResolveImpl_writes: "cb_writes s (ConditionalBreakpoint_TryResolveImpl f x ms s)"
  by (simp add: ConditionalBreakpoint_TryResolveImpl_def cb_writes_refl ConditionalBreakpoint_methods_writes)

fun base_locs :: "breakpoint_base \<Rightarrow> pt_location set" where
  "base_locs (Breakpoint b) = set (bp_locations b)"
| "base_locs (ConditionalBreakpoint b) = set_option (cb_location b)"

interpretation bp: breakpoint_impl bp_id bp_resolved "\<lambda>b. set (bp_locations b)" Breakpoint_SetLocations
  "\<lambda>f x b ix. Breakpoint_TryResolveImpl f x (xt_methods x) (b, ix)"
proof unfold_locales
  fix b b' :: breakpoint and c ix fs ix' f x
  show "ix' = ix" if "Breakpoint_SetLocations b c ix = (False, b', fs, ix')"
    using that by (auto simp: Breakpoint_SetLocations_def Let_def split: prod.splits if_splits)
  show "bp_id b' = bp_id b \<and> ix' = ix @ map (\<lambda>l. (l, bp_id b)) (drop (length ix) (map fst ix')) \<and>
      set (bp_locations b') = set (drop (length ix) (map fst ix')) \<and> bp_resolved b' = (set (bp_locations b') \<noteq> {})"
    if "Breakpoint_SetLocations b c ix = (True, b', fs, ix')"
    using that by (auto simp: Breakpoint_SetLocations_def Let_def comp_def split: prod.splits if_splits)
  show "bp_id b' = bp_id b \<and> ix' = ix @ map (\<lambda>l. (l, bp_id b)) (drop (length ix) (map fst ix')) \<and>
      set (bp_locations b') \<subseteq> set (bp_locations b) \<union> set (drop (length ix) (map fst ix')) \<and>
      bp_resolved b' = (set (bp_locations b') \<noteq> {})"
    if "Breakpoint_TryResolveImpl f x (xt_methods x) (b, ix) = (b', ix')" "bp_resolved b = (set (bp_locations b) \<noteq> {})"
    using Breakpoint_TryResolveImpl_writes [of "(b, ix)" f x "xt_methods x"] that
    by (auto simp: bp_writes_def comp_def)
qed

interpretation cb: breakpoint_impl cb_id cb_resolved "\<lambda>b. set_option (cb_location b)" ConditionalBreakpoint_SetLocations
  "\<lambda>f x b ix. ConditionalBreakpoint_TryResolveImpl f x (xt_methods x) (b, ix)"
proof unfold_locales
  fix b b' :: cond_breakpoint and c ix fs ix' f x
  show "ix' = ix" if "ConditionalBreakpoint_SetLocations b c ix = (False, b', fs, ix')"
    using that by (auto simp: ConditionalBreakpoint_SetLocations_def Let_def split: prod.splits if_splits)
  show "cb_id b' = cb_id b \<and> ix' = ix @ map (\<lambda>l. (l, cb_id b)) (drop (length ix) (map fst ix')) \<and>
      set_option (cb_location b') = set (drop (length ix) (map fst ix')) \<and> cb_resolved b' = (set_option (cb_location b') \<noteq> {})"
    if "ConditionalBreakpoint_SetLocations b c ix = (True, b', fs, ix')" "set_option (cb_location b) = {}" "\<not> cb_resolved b"
    using that by (auto simp: ConditionalBreakpoint_SetLocations_def Let_def split: prod.splits if_splits)
  show "cb_id b' = cb_id b \<and> ix' = ix @ map (\<lambda>l. (l, cb_id b)) (drop (length ix) (map fst ix')) \<and>
      set_option (cb_location b') \<subseteq> set_option (cb_location b) \<union> set (drop (length ix) (map fst ix')) \<and>
      cb_resolved b' = (set_option (cb_location b') \<noteq> {})"
    if "ConditionalBreakpoint_TryResolveImpl f x (xt_methods x) (b, ix) = (b', ix')"
      "cb_resolved b = (set_option (cb_location b) \<noteq> {})"
    using ConditionalBreakpoint_TryResolveImpl_writes [of "(b, ix)" f x "xt_methods x"] that
    by (auto simp: cb_writes_def comp_def split: if_splits)
qed

text \<open>The dispatching functions meet the contract because both implementations do.\<close>

interpretation bb: breakpoint_impl GetId IsResolved base_locs SetLocations TryResolve
proof unfold_locales
  fix b b' :: breakpoint_base and c ix fs ix' f x
  show "ix' = ix" if "SetLocations b c ix = (False, b', fs, ix')"
    using that by (cases b) (auto dest: bp.set_fails cb.set_fails split: prod.splits)
  show "GetId b' = GetId b \<and> ix' = ix @ map (\<lambda>l. (l, GetId b)) (drop (length ix) (map fst ix')) \<and>
      base_locs b' = set (drop (length ix) (map fst ix')) \<and> IsResolved b' = (base_locs b' \<noteq> {})"
    if "SetLocations b c ix = (True, b', fs, ix')" "base_locs b = {}" "\<not> IsResolved b"
  proof (cases b)
    case (Breakpoint d)
    with that obtain d' where "b' = Breakpoint d'" "Breakpoint_SetLocations d c ix = (True, d', fs, ix')"
      by (auto split: prod.splits)
    with bp.set_writes [of d c ix d' fs ix'] that show ?thesis
      unfolding Breakpoint by (simp only: GetId.simps IsResolved.simps base_locs.simps simp_thms)
  next
    case (ConditionalBreakpoint d)
    with that obtain d' where "b' = ConditionalBreakpoint d'" "ConditionalBreakpoint_SetLocations d c ix = (True, d', fs, ix')"
      by (auto split: prod.splits)
    with cb.set_writes [of d c ix d' fs ix'] that show ?thesis
      unfolding ConditionalBreakpoint by (simp only: GetId.simps IsResolved.simps base_locs.simps simp_thms)
  qed
  show "GetId b' = GetId b \<and> ix' = ix @ map (\<lambda>l. (l, GetId b)) (drop (length ix) (map fst ix')) \<and>
      base_locs b' \<subseteq> base_locs b \<union> set (drop (length ix) (map fst ix')) \<and> IsResolved b' = (base_locs b' \<noteq> {})"
    if "TryResolve f x b ix = (b', ix')" "IsResolved b = (base_locs b \<noteq> {})"
  proof (cases b)
    case (Breakpoint d)
    with that obtain d' where "b' = Breakpoint d'" "Breakpoint_TryResolveImpl f x (xt_methods x) (d, ix) = (d', ix')"
      by (auto split: prod.splits)
    with bp.resolve_writes [of f x d ix d' ix'] that show ?thesis
      unfolding Breakpoint by (simp only: GetId.simps IsResolved.simps base_locs.simps simp_thms)
  next
    case (ConditionalBreakpoint d)
    with that obtain d' where "b' = ConditionalBreakpoint d'"
        "ConditionalBreakpoint_TryResolveImpl f x (xt_methods x) (d, ix) = (d', ix')"
      by (auto split: prod.splits)
    with cb.resolve_writes [of f x d ix d' ix'] that show ?thesis
      unfolding ConditionalBreakpoint by (simp only: GetId.simps IsResolved.simps base_locs.simps simp_thms)
  qed
qed

section \<open>The storage keeps its index\<close>

definition entry_ok :: "location_index \<Rightarrow> BreakpointId \<Rightarrow> BreakpointId \<times> breakpoint_base \<Rightarrow> bool" where
  "entry_ok ix n e \<longleftrightarrow> fst e = GetId (snd e) \<and> fst e < n \<and> bb.indexed (snd e) ix"

definition storage_inv :: "storage \<Rightarrow> bool" where
  "storage_inv s \<longleftrightarrow> distinct (map fst (breakpointStorage s)) \<and>
     (\<forall>e \<in> set (breakpointStorage s). entry_ok (breakpointLocations s) (nextBreakpointId s) e) \<and>
     snd ` set (breakpointLocations s) \<subseteq> fst ` set (breakpointStorage s)"

lemma entry_ok_mono: "entry_ok ix n e \<Longrightarrow> set ix \<subseteq> set ix' \<Longrightarrow> n \<le> n' \<Longrightarrow> entry_ok ix' n' e"
  by (auto simp: entry_ok_def intro: bb.indexed_mono)

lemma storage_inv_new: "storage_inv BreakpointStorage_new"
  by (simp add: storage_inv_def BreakpointStorage_new_def)

lemma storage_inv_Reset: "storage_inv (BreakpointStorage_Reset s)"
  by (simp add: storage_inv_def BreakpointStorage_Reset_def)

lemma storage_inv_Active: "storage_inv s \<Longrightarrow> storage_inv (BreakpointStorage_SetBreakpointsActive b s)"
  by (simp add: storage_inv_def BreakpointStorage_SetBreakpointsActive_def)

lemma storage_inv_Remove: "storage_inv s \<Longrightarrow> storage_inv (BreakpointStorage_RemoveBreakpoint k s)"
proof -
  assume inv: "storage_inv s"
  have "entry_ok (filter (\<lambda>p. snd p \<noteq> k) (breakpointLocations s)) (nextBreakpointId s) e"
    if "e \<in> set (breakpointStorage s)" "fst e \<noteq> k" for e
    using inv that by (auto simp: storage_inv_def entry_ok_def bb.indexed_def)
  moreover have "distinct (map fst (filter (\<lambda>p. fst p \<noteq> k) (breakpointStorage s)))"
    using inv by (simp add: storage_inv_def distinct_map_filter)
  moreover have "snd p \<in> fst ` set (filter (\<lambda>p. fst p \<noteq> k) (breakpointStorage s))"
    if p: "p \<in> set (breakpointLocations s)" "snd p \<noteq> k" for p
  proof -
    have "snd p \<in> fst ` set (breakpointStorage s)" using inv p(1) unfolding storage_inv_def by blast
    then obtain e where "e \<in> set (breakpointStorage s)" "snd p = fst e" by blast
    then show ?thesis using p(2) by (intro image_eqI [of _ _ e]) simp_all
  qed
  ultimately show ?thesis
    by (simp add: storage_inv_def BreakpointStorage_RemoveBreakpoint_def image_subset_iff)
qed

lemma RemoveBreakpoints_loop_fold:
  "RemoveBreakpoints_loop ids s = fold BreakpointStorage_RemoveBreakpoint ids s"
  by (induction ids arbitrary: s) (simp_all add: BreakpointStorage_RemoveBreakpoint_def)

lemma storage_inv_Removes: "storage_inv s \<Longrightarrow> storage_inv (BreakpointStorage_RemoveBreakpoints flt s)"
  unfolding BreakpointStorage_RemoveBreakpoints_def RemoveBreakpoints_loop_fold
  by (rule fold_invariant [where Q = "\<lambda>_. True"]) (auto intro: storage_inv_Remove)

lemma ResolveBreakpoints_loop_keys:
  "map fst (fst (ResolveBreakpoints_loop f x m ix)) = map fst m"
proof (induction m arbitrary: ix)
  case (Cons e m)
  obtain b1 ix1 where "TryResolve f x (snd e) ix = (b1, ix1)" by fastforce
  moreover obtain m2 ix2 where "ResolveBreakpoints_loop f x m ix1 = (m2, ix2)" by fastforce
  ultimately show ?case using Cons.IH [of ix1] by (cases e) simp
qed simp

lemma ResolveBreakpoints_loop_ok:
  assumes "ResolveBreakpoints_loop f x m ix = (m', ix')" "\<forall>e \<in> set m. entry_ok ix n e"
  shows "set ix \<subseteq> set ix' \<and> snd ` set ix' \<subseteq> snd ` set ix \<union> fst ` set m \<and> (\<forall>e \<in> set m'. entry_ok ix' n e)"
  using assms
proof (induction m arbitrary: ix m' ix')
  case (Cons e m)
  obtain k b where e: "e = (k, b)" by fastforce
  obtain b1 ix1 where 1: "TryResolve f x b ix = (b1, ix1)" by fastforce
  obtain m2 where 2: "ResolveBreakpoints_loop f x m ix1 = (m2, ix')" "m' = (k, b1) # m2"
    using Cons.prems(1) 1 by (auto simp: e split: prod.splits)
  have b: "k = GetId b" "k < n" "bb.indexed b ix" using Cons.prems(2) by (simp_all add: e entry_ok_def)
  note w = bb.resolve_indexed [OF 1 b(3)]
  have "\<forall>e \<in> set m. entry_ok ix1 n e" using Cons.prems(2) entry_ok_mono [OF _ w(2) order_refl] by simp
  from Cons.IH [OF 2(1) this] have IH: "set ix1 \<subseteq> set ix'" "snd ` set ix' \<subseteq> snd ` set ix1 \<union> fst ` set m"
    "\<forall>e \<in> set m2. entry_ok ix' n e" by blast+
  have "entry_ok ix' n (k, b1)" using b w(1) bb.indexed_mono [OF w(4) IH(1)] by (simp add: entry_ok_def)
  then have "\<forall>e \<in> set m'. entry_ok ix' n e" using IH(3) 2(2) by simp
  moreover have "snd p \<in> insert k (snd ` set ix)" if "p \<in> set ix1" for p
    using w(3) [OF that] b(1) by (elim disjE) simp_all
  then have "snd ` set ix1 \<subseteq> insert k (snd ` set ix)" by (rule image_subsetI)
  then have "snd ` set ix1 \<union> fst ` set m \<subseteq> snd ` set ix \<union> fst ` set (e # m)" by (auto simp: e)
  from order_trans [OF IH(2) this] have "snd ` set ix' \<subseteq> snd ` set ix \<union> fst ` set (e # m)" .
  ultimately show ?case using order_trans [OF w(2) IH(1)] by (intro conjI)
qed simp

lemma storage_inv_Resolve: "storage_inv s \<Longrightarrow> storage_inv (BreakpointStorage_ResolveBreakpoints f x s)"
proof -
  assume inv: "storage_inv s"
  obtain m ix where r: "ResolveBreakpoints_loop f x (breakpointStorage s) (breakpointLocations s) = (m, ix)"
    by fastforce
  have keys: "map fst m = map fst (breakpointStorage s)"
    using ResolveBreakpoints_loop_keys [of f x "breakpointStorage s" "breakpointLocations s"] r by simp
  then have "fst ` set m = fst ` set (breakpointStorage s)" by (metis set_map)
  moreover have "set (breakpointLocations s) \<subseteq> set ix \<and>
      snd ` set ix \<subseteq> snd ` set (breakpointLocations s) \<union> fst ` set (breakpointStorage s) \<and>
      (\<forall>e \<in> set m. entry_ok ix (nextBreakpointId s) e)"
    by (rule ResolveBreakpoints_loop_ok [OF r]) (use inv in \<open>simp add: storage_inv_def\<close>)
  ultimately show ?thesis
    using inv keys by (simp add: BreakpointStorage_ResolveBreakpoints_def r storage_inv_def Un_absorb1)
qed

lemma update_fresh: "k \<notin> fst ` set m \<Longrightarrow> AList.update k v m = m @ [(k, v)]"
  by (induction m) auto

lemma storage_inv_Set:
  assumes "storage_inv s"
  shows "storage_inv (snd (snd (BreakpointStorage_SetBreakpoint flt line cond c s)))"
proof -
  define b where "b = (case cond of
      None \<Rightarrow> Breakpoint (Breakpoint_new (nextBreakpointId s) flt line True)
    | Some code \<Rightarrow> ConditionalBreakpoint (ConditionalBreakpoint_new (nextBreakpointId s) flt line code))"
  have b: "base_locs b = {}" "\<not> IsResolved b" "GetId b = nextBreakpointId s"
    by (auto simp: b_def Breakpoint_new_def ConditionalBreakpoint_new_def split: option.splits)
  obtain ok b' fs ix where set: "SetLocations b c (breakpointLocations s) = (ok, b', fs, ix)" by (metis prod_cases4)
  show ?thesis
  proof (cases ok)
    case False
    then show ?thesis using assms set bb.set_fails [of b c "breakpointLocations s" b' fs ix]
      by (simp add: BreakpointStorage_SetBreakpoint_def b_def [symmetric] Let_def storage_inv_def)
  next
    case True
    then have "SetLocations b c (breakpointLocations s) = (True, b', fs, ix)" using set by simp
    note w = bb.set_indexed [OF this b(1,2)]
    have fresh: "nextBreakpointId s \<notin> fst ` set (breakpointStorage s)"
      using assms by (force simp: storage_inv_def entry_ok_def)
    have "entry_ok ix (Suc (nextBreakpointId s)) e" if "e \<in> set (breakpointStorage s)" for e
      using assms that entry_ok_mono [OF _ w(2), of "nextBreakpointId s" e "Suc (nextBreakpointId s)"]
      by (simp add: storage_inv_def)
    moreover have "entry_ok ix (Suc (nextBreakpointId s)) (nextBreakpointId s, b')"
      using w b(3) by (simp add: entry_ok_def)
    moreover have "snd ` set ix \<subseteq> insert (nextBreakpointId s) (fst ` set (breakpointStorage s))"
      using assms w(3) b(3) by (force simp: storage_inv_def)
    ultimately show ?thesis
      using True assms set fresh
      by (auto simp: BreakpointStorage_SetBreakpoint_def b_def [symmetric] Let_def storage_inv_def
            update_fresh)
  qed
qed

section \<open>Stopping\<close>

text \<open>
  What the storage relies on of the engine: the same condition gives the same answer, whether its
  fragment is run for the first time or as the method loaded then, and on whatever the thread did
  in between. \<open>handle\<close> is the method a fragment is loaded as and \<open>cond\<close> the answer.
\<close>

definition eval_outcome :: "'w debugger_ops \<Rightarrow> (string + typed_value) \<Rightarrow> 'w \<Rightarrow> bool" where
  "eval_outcome ops res w =
     (case res of Inl err \<Rightarrow> False | Inr v \<Rightarrow> thr_GetException ops w = None \<and> tv_GetAsU1 ops v)"

definition stable_engine :: "'w debugger_ops \<Rightarrow> (string \<Rightarrow> method_handle) \<Rightarrow> (string \<Rightarrow> bool) \<Rightarrow> bool" where
  "stable_engine ops handle cond \<longleftrightarrow>
     (\<forall>code w. case dbg_evaluate_bytecode ops 0 code w of
        (res, m, w') \<Rightarrow> eval_outcome ops res w' = cond code \<and> m \<in> {None, Some (handle code)}) \<and>
     (\<forall>code w. case dbg_evaluate_method ops 0 (handle code) w of (res, w') \<Rightarrow> eval_outcome ops res w' = cond code)"

text \<open>A breakpoint up to the method it has cached.\<close>

fun uncached :: "breakpoint_base \<Rightarrow> breakpoint_base" where
  "uncached (Breakpoint b) = Breakpoint b"
| "uncached (ConditionalBreakpoint b) = ConditionalBreakpoint (b\<lparr>cb_method := None\<rparr>)"

fun cache_ok :: "(string \<Rightarrow> method_handle) \<Rightarrow> breakpoint_base \<Rightarrow> bool" where
  "cache_ok handle (Breakpoint b) = True"
| "cache_ok handle (ConditionalBreakpoint b) = (cb_method b \<in> {None, Some (handle (cb_bytecode b))})"

text \<open>The specification: the breakpoint has the location, and its condition, if any, holds.\<close>

fun wants_stop :: "(string \<Rightarrow> bool) \<Rightarrow> pt_location \<Rightarrow> breakpoint_base \<Rightarrow> bool" where
  "wants_stop cond location (Breakpoint b) = (location \<in> set (bp_locations b))"
| "wants_stop cond location (ConditionalBreakpoint b) = (cb_location b = Some location \<and> cond (cb_bytecode b))"

definition stops_at :: "(string \<Rightarrow> bool) \<Rightarrow> storage \<Rightarrow> pt_location \<Rightarrow> bool" where
  "stops_at cond s location \<longleftrightarrow>
     breakpointsActive s \<and> (\<exists>bp \<in> snd ` set (breakpointStorage s). wants_stop cond location bp)"

lemma stable_engine_bytecode:
  assumes "stable_engine ops handle cond" "dbg_evaluate_bytecode ops 0 code w = (res, m, w')"
  shows "eval_outcome ops res w' = cond code" "m \<in> {None, Some (handle code)}"
proof -
  have "case dbg_evaluate_bytecode ops 0 code w of
      (res, m, w') \<Rightarrow> eval_outcome ops res w' = cond code \<and> m \<in> {None, Some (handle code)}"
    using assms(1) by (simp only: stable_engine_def)
  then show "eval_outcome ops res w' = cond code" "m \<in> {None, Some (handle code)}"
    using assms(2) by simp_all
qed

lemma stable_engine_method:
  assumes "stable_engine ops handle cond" "dbg_evaluate_method ops 0 (handle code) w = (res, w')"
  shows "eval_outcome ops res w' = cond code"
proof -
  have "case dbg_evaluate_method ops 0 (handle code) w of (res, w') \<Rightarrow> eval_outcome ops res w' = cond code"
    using assms(1) by (simp only: stable_engine_def)
  then show ?thesis using assms(2) by simp
qed

lemma EvaluateExpression_stable:
  assumes "stable_engine ops handle cond" "m \<in> {None, Some (handle code)}"
    and "EvaluateExpression ops 0 code m eng = (r, m', eng')"
  shows "m' \<in> {None, Some (handle code)} \<and>
    (case r of Inl err \<Rightarrow> False | Inr (v, exc) \<Rightarrow> exc = None \<and> tv_GetAsU1 ops v) = cond code"
proof (cases m)
  case None
  obtain res m1 w where ev: "dbg_evaluate_bytecode ops 0 code (ev_thread eng) = (res, m1, w)" by (metis prod_cases3)
  from stable_engine_bytecode [OF assms(1) this] show ?thesis using assms(3) None ev
    by (auto simp: EvaluateExpression_def eval_outcome_def Let_def split: sum.splits)
next
  case (Some h)
  then have h: "h = handle code" using assms(2) by simp
  obtain res w where ev: "dbg_evaluate_method ops 0 h (ev_thread eng) = (res, w)" by fastforce
  from stable_engine_method [OF assms(1) this [unfolded h]] show ?thesis using assms(3) Some ev h
    by (auto simp: EvaluateExpression_def eval_outcome_def Let_def split: sum.splits)
qed

lemma ShouldStopAt_wants:
  assumes "stable_engine ops handle cond" "cache_ok handle bp" "IsResolved bp \<longleftrightarrow> base_locs bp \<noteq> {}"
    and "ShouldStopAt ops bp location eng = (r, bp', eng')"
  shows "r = wants_stop cond location bp \<and> uncached bp' = uncached bp \<and> cache_ok handle bp'"
proof (cases bp)
  case (Breakpoint b)
  then show ?thesis using assms(3,4) by (auto simp: Breakpoint_ShouldStopAt_def list_ex_iff)
next
  case (ConditionalBreakpoint b)
  obtain e m eng1 where ev: "EvaluateExpression ops 0 (cb_bytecode b) (cb_method b) eng = (e, m, eng1)"
    by (metis prod_cases3)
  have "m \<in> {None, Some (handle (cb_bytecode b))} \<and>
    (case e of Inl err \<Rightarrow> False | Inr (v, exc) \<Rightarrow> exc = None \<and> tv_GetAsU1 ops v) = cond (cb_bytecode b)"
    by (rule EvaluateExpression_stable [OF assms(1) _ ev]) (use assms(2) ConditionalBreakpoint in simp)
  then show ?thesis using assms(2,4) ConditionalBreakpoint ev
    by (auto simp: ConditionalBreakpoint_ShouldStopAt_def Let_def split: if_splits sum.splits prod.splits)
qed

abbreviation uncached_map :: "(BreakpointId \<times> breakpoint_base) list \<Rightarrow> (BreakpointId \<times> breakpoint_base) list" where
  "uncached_map m \<equiv> map (map_prod (\<lambda>k. k) uncached) m"

lemma update_uncached:
  "map_of m k = Some bp \<Longrightarrow> uncached bp' = uncached bp \<Longrightarrow> uncached_map (AList.update k bp' m) = uncached_map m"
  by (induction m) (auto split: if_splits)

lemma wants_stop_uncached: "wants_stop cond l (uncached bp) = wants_stop cond l bp"
  by (cases bp) auto

lemma map_of_uncached: "map_of (uncached_map m) k = map_option uncached (map_of m k)"
  by (induction m) auto

lemma uncached_map_eq:
  assumes "uncached_map m = uncached_map n"
  shows "dom (map_of m) = dom (map_of n)"
    and "j \<in> dom (map_of n) \<Longrightarrow> wants_stop cond l (the (map_of m j)) = wants_stop cond l (the (map_of n j))"
proof -
  have *: "map_option uncached (map_of m j) = map_option uncached (map_of n j)" for j
    using map_of_uncached [of m j] map_of_uncached [of n j] assms by simp
  then show "dom (map_of m) = dom (map_of n)" by (auto simp: dom_def map_option_eq_Some) (metis map_option_eq_Some)+
  assume "j \<in> dom (map_of n)"
  then obtain b where b: "map_of n j = Some b" by blast
  then obtain b' where "map_of m j = Some b'" "uncached b' = uncached b" using * [of j] by auto
  then show "wants_stop cond l (the (map_of m j)) = wants_stop cond l (the (map_of n j))"
    using b wants_stop_uncached [of cond l b] wants_stop_uncached [of cond l b'] by simp
qed

text \<open>The loop answers for the ids it is given, and leaves the breakpoints as they were but for the
  methods they cache.\<close>

definition entries_ok :: "(string \<Rightarrow> method_handle) \<Rightarrow> (BreakpointId \<times> breakpoint_base) list \<Rightarrow> bool" where
  "entries_ok handle m \<longleftrightarrow> (\<forall>k bp. map_of m k = Some bp \<longrightarrow> cache_ok handle bp \<and> (IsResolved bp \<longleftrightarrow> base_locs bp \<noteq> {}))"

lemma uncached_resolved: "uncached bp' = uncached bp \<Longrightarrow> IsResolved bp' = IsResolved bp \<and> base_locs bp' = base_locs bp"
  by (cases bp; cases bp') (auto dest!: arg_cong [where f = "\<lambda>b. (cb_resolved b, cb_location b)"])

lemma ShouldStop_loop_wants:
  assumes "stable_engine ops handle cond" "entries_ok handle m" "set ids \<subseteq> dom (map_of m)"
  shows "case ShouldStop_loop ops location ids m eng of
      None \<Rightarrow> False
    | Some (r, m', eng') \<Rightarrow>
        r = (\<exists>k \<in> set ids. wants_stop cond location (the (map_of m k))) \<and>
        uncached_map m' = uncached_map m \<and> entries_ok handle m'"
  using assms(2,3)
proof (induction ids arbitrary: m eng)
  case (Cons k ids)
  obtain bp where k: "map_of m k = Some bp" using Cons.prems(2) by auto
  then have bp: "cache_ok handle bp" "IsResolved bp \<longleftrightarrow> base_locs bp \<noteq> {}"
    using Cons.prems(1) by (simp_all add: entries_ok_def)
  obtain r bp' eng1 where st: "ShouldStopAt ops bp location eng = (r, bp', eng1)" by (metis prod_cases3)
  note w = ShouldStopAt_wants [OF assms(1) bp st]
  define m1 where "m1 = AList.update k bp' m"
  have m1: "uncached_map m1 = uncached_map m" using update_uncached [OF k] w by (simp add: m1_def)
  have ok1: "entries_ok handle m1"
    using Cons.prems(1) w bp uncached_resolved [of bp' bp]
    by (auto simp: entries_ok_def m1_def AList.update_conv')
  note dom1 = uncached_map_eq(1) [OF m1]
  have same: "(\<exists>j \<in> set ids. wants_stop cond location (the (map_of m1 j))) =
      (\<exists>j \<in> set ids. wants_stop cond location (the (map_of m j)))"
    by (rule bex_cong [OF refl], rule uncached_map_eq(2) [OF m1]) (use Cons.prems(2) in auto)
  show ?case
  proof (cases r)
    case True
    then show ?thesis using k st w m1 ok1 by (simp add: m1_def)
  next
    case False
    then show ?thesis
      using Cons.IH [OF ok1, of eng1] k st w m1 dom1 same Cons.prems(2)
      by (auto simp: m1_def [symmetric] split: option.splits) 
  qed
qed simp

section \<open>Reachable storages\<close>

inductive storage_reach :: "'w debugger_ops \<Rightarrow> storage \<Rightarrow> bool" for ops where
  start: "storage_reach ops BreakpointStorage_new"
| set_breakpoint: "storage_reach ops s \<Longrightarrow> storage_reach ops (snd (snd (BreakpointStorage_SetBreakpoint flt line cond c s)))"
| remove: "storage_reach ops s \<Longrightarrow> storage_reach ops (BreakpointStorage_RemoveBreakpoint k s)"
| removes: "storage_reach ops s \<Longrightarrow> storage_reach ops (BreakpointStorage_RemoveBreakpoints lflt s)"
| resolve: "storage_reach ops s \<Longrightarrow> storage_reach ops (BreakpointStorage_ResolveBreakpoints f x s)"
| reset: "storage_reach ops s \<Longrightarrow> storage_reach ops (BreakpointStorage_Reset s)"
| active: "storage_reach ops s \<Longrightarrow> storage_reach ops (BreakpointStorage_SetBreakpointsActive b s)"
| should_stop: "storage_reach ops s \<Longrightarrow> ShouldStopAtBreakpoint ops s loc eng = Some (r, s', eng') \<Longrightarrow> storage_reach ops s'"

definition caches_ok :: "(string \<Rightarrow> method_handle) \<Rightarrow> storage \<Rightarrow> bool" where
  "caches_ok handle s \<longleftrightarrow> (\<forall>bp \<in> snd ` set (breakpointStorage s). cache_ok handle bp)"

lemma caches_ok_subset:
  "caches_ok handle s \<Longrightarrow> set (breakpointStorage s') \<subseteq> set (breakpointStorage s) \<Longrightarrow> caches_ok handle s'"
  by (auto simp: caches_ok_def)

lemma caches_ok_Removes:
  "caches_ok handle s \<Longrightarrow> caches_ok handle (BreakpointStorage_RemoveBreakpoints flt s)"
  unfolding BreakpointStorage_RemoveBreakpoints_def RemoveBreakpoints_loop_fold
  by (rule fold_invariant [where Q = "\<lambda>_. True"])
     (auto simp: caches_ok_def BreakpointStorage_RemoveBreakpoint_def)

lemma TryResolve_cache: "cache_ok handle (fst (TryResolve f x bp ix)) = cache_ok handle bp"
  using ConditionalBreakpoint_TryResolveImpl_writes [of "(b, ix)" f x "xt_methods x" for b]
  by (cases bp) (auto simp: cb_writes_def split: prod.splits, (metis fst_conv)+)

lemma ResolveBreakpoints_loop_cache:
  "\<forall>bp \<in> snd ` set m. cache_ok handle bp \<Longrightarrow> \<forall>bp \<in> snd ` set (fst (ResolveBreakpoints_loop f x m ix)). cache_ok handle bp"
proof (induction m arbitrary: ix)
  case (Cons e m)
  obtain b1 ix1 where t: "TryResolve f x (snd e) ix = (b1, ix1)" by fastforce
  moreover obtain m2 ix2 where "ResolveBreakpoints_loop f x m ix1 = (m2, ix2)" by fastforce
  ultimately show ?case
    using Cons.IH [of ix1] Cons.prems TryResolve_cache [of handle f x "snd e" ix] by (cases e) simp
qed simp

lemma entries_ok_inv: "storage_inv s \<Longrightarrow> caches_ok handle s \<Longrightarrow> entries_ok handle (breakpointStorage s)"
  unfolding entries_ok_def caches_ok_def storage_inv_def entry_ok_def bb.indexed_def
  by (metis image_eqI map_of_SomeD snd_conv)

lemma uncached_entry:
  assumes "uncached_map m' = uncached_map m" "e' \<in> set m'"
  obtains e where "e \<in> set m" "fst e = fst e'" "uncached (snd e) = uncached (snd e')"
proof -
  have "map_prod (\<lambda>k. k) uncached e' \<in> set (uncached_map m)" using assms by (metis image_eqI set_map)
  then obtain e where "e \<in> set m" "map_prod (\<lambda>k. k) uncached e' = map_prod (\<lambda>k. k) uncached e" by auto
  then show thesis by (intro that [of e]) (cases e, cases e', auto)+
qed

lemma uncached_view:
  assumes "uncached bp' = uncached bp"
  shows "GetId bp' = GetId bp" "bb.indexed bp' ix = bb.indexed bp ix" "wants_stop cond l bp' = wants_stop cond l bp"
proof -
  show id: "GetId bp' = GetId bp" using assms
    by (cases bp; cases bp') (auto dest!: arg_cong [where f = cb_id])
  show "bb.indexed bp' ix = bb.indexed bp ix" unfolding bb.indexed_def using uncached_resolved [OF assms] id by simp
  show "wants_stop cond l bp' = wants_stop cond l bp"
    using wants_stop_uncached [of cond l bp] wants_stop_uncached [of cond l bp'] assms by simp
qed

lemma uncached_keys: "uncached_map m' = uncached_map m \<Longrightarrow> map fst m' = map fst m"
  by (drule arg_cong [where f = "map fst"]) (simp add: comp_def)

lemma storage_inv_uncached:
  assumes "storage_inv s" "uncached_map m = uncached_map (breakpointStorage s)"
  shows "storage_inv (s\<lparr>breakpointStorage := m\<rparr>)"
proof -
  have "entry_ok (breakpointLocations s) (nextBreakpointId s) e" if e: "e \<in> set m" for e
  proof -
    obtain e' where e': "e' \<in> set (breakpointStorage s)" "fst e' = fst e" "uncached (snd e') = uncached (snd e)"
      using uncached_entry [OF assms(2) e] .
    then have "entry_ok (breakpointLocations s) (nextBreakpointId s) e'" using assms(1) by (simp add: storage_inv_def)
    then show ?thesis unfolding entry_ok_def uncached_view [OF e'(3)] e'(2) .
  qed
  moreover have "fst ` set m = fst ` set (breakpointStorage s)"
    using uncached_keys [OF assms(2)] by (metis set_map)
  ultimately show ?thesis using assms(1) uncached_keys [OF assms(2)] by (simp add: storage_inv_def)
qed

lemma stops_at_uncached:
  assumes "uncached_map m = uncached_map (breakpointStorage s)"
  shows "stops_at cond (s\<lparr>breakpointStorage := m\<rparr>) l = stops_at cond s l"
proof -
  have sub: "\<exists>bp \<in> snd ` set n. wants_stop cond l bp"
    if nn: "uncached_map n' = uncached_map n" and bp: "bp \<in> snd ` set n'" "wants_stop cond l bp" for n n' bp
  proof -
    from bp(1) obtain e' where e': "e' \<in> set n'" "bp = snd e'" by auto
    obtain e where "e \<in> set n" "uncached (snd e) = uncached (snd e')" by (rule uncached_entry [OF nn e'(1)])
    then show ?thesis using uncached_view(3) [of "snd e" "snd e'" cond l] bp(2) e'(2) by auto
  qed
  have "(\<exists>bp \<in> snd ` set m. wants_stop cond l bp) = (\<exists>bp \<in> snd ` set (breakpointStorage s). wants_stop cond l bp)"
    using sub [OF assms] sub [OF assms [symmetric]] by blast
  then show ?thesis by (simp add: stops_at_def)
qed

text \<open>Scanning the ids of the index at a location finds what scanning all breakpoints would.\<close>

lemma index_scan:
  assumes "storage_inv s"
  shows "(\<exists>k \<in> set (ids_at (breakpointLocations s) l). wants_stop cond l (the (map_of (breakpointStorage s) k))) =
      (\<exists>bp \<in> snd ` set (breakpointStorage s). wants_stop cond l bp)" (is "?l = ?r")
    and "set (ids_at (breakpointLocations s) l) \<subseteq> dom (map_of (breakpointStorage s))"
proof -
  have keys: "k \<in> fst ` set (breakpointStorage s)" if "k \<in> set (ids_at (breakpointLocations s) l)" for k
    using assms that unfolding storage_inv_def ids_at_def by auto
  then show dom: "set (ids_at (breakpointLocations s) l) \<subseteq> dom (map_of (breakpointStorage s))"
    by (auto simp: dom_map_of_conv_image_fst)
  show "?l = ?r"
  proof
    assume ?l
    then obtain k where "k \<in> set (ids_at (breakpointLocations s) l)"
      "wants_stop cond l (the (map_of (breakpointStorage s) k))" by blast
    moreover from this(1) obtain bp where "map_of (breakpointStorage s) k = Some bp" using dom by blast
    moreover from this have "bp \<in> snd ` set (breakpointStorage s)" by (auto dest: map_of_SomeD intro: rev_image_eqI)
    ultimately show ?r by auto
  next
    assume ?r
    then obtain e where e: "e \<in> set (breakpointStorage s)" "wants_stop cond l (snd e)" by blast
    then have "entry_ok (breakpointLocations s) (nextBreakpointId s) e" "l \<in> base_locs (snd e)"
      using assms by (simp add: storage_inv_def) (cases "snd e", use e in auto)
    then have "(l, fst e) \<in> set (breakpointLocations s)" by (simp add: entry_ok_def bb.indexed_def)
    then have "fst e \<in> set (ids_at (breakpointLocations s) l)" by (force simp: ids_at_def)
    moreover have "map_of (breakpointStorage s) (fst e) = Some (snd e)"
      using assms e(1) by (simp add: storage_inv_def)
    ultimately show ?l using e(2) by force
  qed
qed

lemma ShouldStopAtBreakpoint_stops:
  assumes "storage_inv s" "caches_ok handle s" "stable_engine ops handle cond"
  shows "case ShouldStopAtBreakpoint ops s l eng of
      None \<Rightarrow> False
    | Some (r, s', eng') \<Rightarrow> r = stops_at cond s l \<and> storage_inv s' \<and> caches_ok handle s' \<and>
        (\<forall>k. stops_at cond s' k = stops_at cond s k)"
proof (cases "breakpointsActive s")
  case True
  have "case ShouldStop_loop ops l (ids_at (breakpointLocations s) l) (breakpointStorage s) eng of
      None \<Rightarrow> False
    | Some (r, m, eng') \<Rightarrow> r = (\<exists>bp \<in> snd ` set (breakpointStorage s). wants_stop cond l bp) \<and>
        uncached_map m = uncached_map (breakpointStorage s) \<and> entries_ok handle m"
    using ShouldStop_loop_wants [OF assms(3) entries_ok_inv [OF assms(1,2)] index_scan(2) [OF assms(1)], of l l eng]
    unfolding index_scan(1) [OF assms(1)] .
  then obtain r m eng' where run: "ShouldStop_loop ops l (ids_at (breakpointLocations s) l) (breakpointStorage s) eng = Some (r, m, eng')"
    and r: "r = (\<exists>bp \<in> snd ` set (breakpointStorage s). wants_stop cond l bp)"
    and m: "uncached_map m = uncached_map (breakpointStorage s)" "entries_ok handle m"
    by (auto split: option.splits)
  have inv: "storage_inv (s\<lparr>breakpointStorage := m\<rparr>)" by (rule storage_inv_uncached [OF assms(1) m(1)])
  moreover have "caches_ok handle (s\<lparr>breakpointStorage := m\<rparr>)"
    using inv m(2) by (auto simp: caches_ok_def entries_ok_def storage_inv_def)
  ultimately show ?thesis using run True r stops_at_uncached [OF m(1)]
    by (simp add: ShouldStopAtBreakpoint_def stops_at_def)
next
  case False
  then show ?thesis using assms by (simp add: ShouldStopAtBreakpoint_def stops_at_def)
qed

lemma in_set_update: "e \<in> set (AList.update k v m) \<Longrightarrow> e \<in> set m \<or> e = (k, v)"
  by (induction m) (auto split: if_splits)

lemma caches_ok_Set:
  "caches_ok handle s \<Longrightarrow> caches_ok handle (snd (snd (BreakpointStorage_SetBreakpoint flt line cond c s)))"
  by (auto simp: BreakpointStorage_SetBreakpoint_def Let_def caches_ok_def Breakpoint_SetLocations_def
        ConditionalBreakpoint_SetLocations_def Breakpoint_new_def ConditionalBreakpoint_new_def
      dest!: in_set_update split: prod.splits option.splits if_splits)

lemma caches_ok_new: "caches_ok handle BreakpointStorage_new"
  by (simp add: caches_ok_def BreakpointStorage_new_def)

lemma caches_ok_Reset: "caches_ok handle (BreakpointStorage_Reset s)"
  by (simp add: caches_ok_def BreakpointStorage_Reset_def)

lemma caches_ok_Active: "caches_ok handle s \<Longrightarrow> caches_ok handle (BreakpointStorage_SetBreakpointsActive b s)"
  by (simp add: caches_ok_def BreakpointStorage_SetBreakpointsActive_def)

lemma caches_ok_Remove: "caches_ok handle s \<Longrightarrow> caches_ok handle (BreakpointStorage_RemoveBreakpoint k s)"
  by (simp add: caches_ok_def BreakpointStorage_RemoveBreakpoint_def)

lemma caches_ok_Resolve: "caches_ok handle s \<Longrightarrow> caches_ok handle (BreakpointStorage_ResolveBreakpoints f x s)"
proof -
  assume "caches_ok handle s"
  then have ok: "\<forall>bp \<in> snd ` set (breakpointStorage s). cache_ok handle bp" unfolding caches_ok_def .
  obtain m ix where r: "ResolveBreakpoints_loop f x (breakpointStorage s) (breakpointLocations s) = (m, ix)"
    by fastforce
  from ResolveBreakpoints_loop_cache [OF ok, of f x "breakpointLocations s"] show ?thesis
    unfolding r fst_conv caches_ok_def BreakpointStorage_ResolveBreakpoints_def prod.case by simp
qed

lemmas storage_invs [inv_intros] =
  storage_inv_new storage_inv_Set storage_inv_Remove storage_inv_Removes storage_inv_Resolve storage_inv_Reset
  storage_inv_Active caches_ok_new caches_ok_Set caches_ok_Remove caches_ok_Removes caches_ok_Resolve
  caches_ok_Reset caches_ok_Active

lemma storage_reach_inv:
  assumes "storage_reach ops s" "stable_engine ops handle cond"
  shows "storage_inv s \<and> caches_ok handle s"
  using assms
proof (induction rule: storage_reach.induct)
  case (should_stop s loc eng r s' eng')
  then show ?case using ShouldStopAtBreakpoint_stops [of s handle ops cond loc eng] by simp
qed (simp_all add: storage_invs)


text \<open>An engine whose conditions hold when their text says so.\<close>

definition sample_ops :: "unit debugger_ops" where
  "sample_ops = \<lparr>dbg_evaluate_method = (\<lambda>_ m w. (Inr (TV_U1 (m = 1)), w)),
     dbg_evaluate_bytecode = (\<lambda>_ code w. (Inr (TV_U1 (code = ''true'')), Some (if code = ''true'' then 1 else 0), w)),
     thr_GetException = (\<lambda>_. None), thr_ClearException = (\<lambda>w. w),
     tv_GetAsU1 = (\<lambda>v. v = TV_U1 True)\<rparr>"

definition sample_handle :: "string \<Rightarrow> method_handle" where
  "sample_handle code = (if code = ''true'' then 1 else 0)"

lemma sample_stable: "stable_engine sample_ops sample_handle (\<lambda>code. code = ''true'')"
  by (simp add: stable_engine_def sample_ops_def sample_handle_def eval_outcome_def)

definition sample_storage :: storage where
  "sample_storage = snd (snd (BreakpointStorage_SetBreakpoint (\<lambda>_ _. True) 4 (Some ''true'') sample_cache
     (snd (snd (BreakpointStorage_SetBreakpoint (\<lambda>_ _. True) 3 None sample_cache BreakpointStorage_new)))))"

lemma sample_storage_reach: "storage_reach ops sample_storage"
  unfolding sample_storage_def by (intro storage_reach.intros)

lemmas sample_storage_defs = sample_storage_def BreakpointStorage_SetBreakpoint_def Breakpoint_SetLocations_def
  ConditionalBreakpoint_SetLocations_def Breakpoint_new_def ConditionalBreakpoint_new_def BreakpointStorage_new_def
  GetBreakpointLocations_def

lemma sample_storage_eval:
  "breakpointStorage sample_storage =
     [(0, Breakpoint \<lparr>bp_id = 0, bp_resolved = True, bp_locations = [location_of sample_file 7 0],
        bp_sourceFileFilter = (\<lambda>_ _. True), bp_lineNumber = 3, bp_isUrlPattern = True\<rparr>),
      (1, ConditionalBreakpoint \<lparr>cb_id = 1, cb_resolved = True, cb_location = Some (location_of sample_file 7 4),
        cb_sourceFileFilter = (\<lambda>_ _. True), cb_lineNumber = 4, cb_bytecode = ''true'', cb_method = None\<rparr>)]"
  "breakpointsActive sample_storage"
  by (simp_all add: sample_storage_defs sample_defs Let_def)




text \<open>
  C26. A breakpoint on a line no loaded file has yet: with a condition it is stored, pending, under
  the next id; without one it is refused and nothing is stored, although the comment in
  \<^verbatim>\<open>SetBreakpoint\<close> says that only a conditional breakpoint with many locations is.
\<close>

theorem pending_breakpoints:
  assumes "fst (GetBreakpointLocations c flt line) = []"
  shows "case (BreakpointStorage_SetBreakpoint flt line None c s, BreakpointStorage_SetBreakpoint flt line (Some code) c s) of
      ((plain, _, s1), (cond, _, s2)) \<Rightarrow>
        plain = None \<and> s1 = s \<and> cond = Some (nextBreakpointId s) \<and>
        map_of (breakpointStorage s2) (nextBreakpointId s) =
          Some (ConditionalBreakpoint (ConditionalBreakpoint_new (nextBreakpointId s) flt line code)) \<and>
        breakpointLocations s2 = breakpointLocations s"
  using assms
  by (cases "GetBreakpointLocations c flt line")
     (simp add: BreakpointStorage_SetBreakpoint_def Breakpoint_SetLocations_def Breakpoint_new_def
        ConditionalBreakpoint_SetLocations_def ConditionalBreakpoint_new_def AList.update_conv' Let_def)

theorem pending_breakpoints_witness:
  "fst (GetBreakpointLocations sample_cache (\<lambda>_ _. True) 9) = [] \<and>
   fst (BreakpointStorage_SetBreakpoint (\<lambda>_ _. True) 9 None sample_cache sample_storage) = None \<and>
   fst (BreakpointStorage_SetBreakpoint (\<lambda>_ _. True) 9 (Some ''true'') sample_cache sample_storage) = Some (nextBreakpointId sample_storage)"
proof -
  have "fst (GetBreakpointLocations sample_cache (\<lambda>_ _. True) 9) = []"
    by (simp add: GetBreakpointLocations_def sample_defs)
  then show ?thesis using pending_breakpoints [of sample_cache "\<lambda>_ _. True" 9 sample_storage "''true''"]
    by (simp split: prod.splits)
qed

end
