(* ===== verification/Thread_State.thy ===== *)
theory Thread_State
  imports Breakpoints
begin

text \<open>
  The pausing logic of one application thread: \<^verbatim>\<open>ThreadState\<close> (tooling/static/debugger/thread_state.h
  and thread_state.cpp) with the flags of \<^verbatim>\<open>HybridSingleStepper\<close> (tooling/hybrid_step), and what a
  step command means for a run of the thread: the state machine, which only knows whether it has
  entered a method since the step began, stops where a machine that knows the depth of the call
  stack would.
\<close>

section \<open>Hybrid stepping flags\<close>

datatype HybridStepDirection = DYNAMIC_TO_STATIC | STATIC_TO_DYNAMIC

record hybrid_stepper =
  dynamicToStatic :: bool
  staticToDynamic :: bool

fun GetHybridSingleStepFlag :: "hybrid_stepper \<Rightarrow> HybridStepDirection \<Rightarrow> bool" where
  "GetHybridSingleStepFlag h DYNAMIC_TO_STATIC = dynamicToStatic h"
| "GetHybridSingleStepFlag h STATIC_TO_DYNAMIC = staticToDynamic h"

fun SetHybridSingleStepFlag :: "HybridStepDirection \<Rightarrow> bool \<Rightarrow> hybrid_stepper \<Rightarrow> hybrid_stepper" where
  "SetHybridSingleStepFlag DYNAMIC_TO_STATIC v h = h\<lparr>dynamicToStatic := v\<rparr>"
| "SetHybridSingleStepFlag STATIC_TO_DYNAMIC v h = h\<lparr>staticToDynamic := v\<rparr>"

section \<open>State\<close>

datatype StepKind = SK_NONE | SK_BREAK_ON_START | SK_CONTINUE_TO | SK_PAUSE | SK_STEP_INTO | SK_STEP_OUT | SK_STEP_OVER

datatype PauseReason = PR_EXCEPTION | PR_BREAK_ON_START | PR_STEP | PR_OTHER

datatype PauseOnExceptionsState = POE_NONE | POE_CAUGHT | POE_UNCAUGHT | POE_ALL

record thread_state =
  stepKind :: StepKind
  stepLocations :: "pt_location set"
  methodEntered :: bool
  pauseOnExceptionsState :: PauseOnExceptionsState
  paused :: bool
  skipAllPauses :: bool
  breakOnStart :: bool
  pauseReason :: PauseReason

definition ThreadState_new :: thread_state where
  "ThreadState_new = \<lparr>stepKind = SK_NONE, stepLocations = {}, methodEntered = False,
     pauseOnExceptionsState = POE_NONE, paused = False, skipAllPauses = False, breakOnStart = False,
     pauseReason = PR_OTHER\<rparr>"

section \<open>Commands of the server thread\<close>

definition ThreadState_Reset :: "thread_state \<Rightarrow> thread_state" where
  "ThreadState_Reset t = t\<lparr>stepKind := SK_BREAK_ON_START, stepLocations := {}, methodEntered := False,
     skipAllPauses := False, pauseOnExceptionsState := POE_NONE\<rparr>"

definition ThreadState_BreakOnStart :: "thread_state \<Rightarrow> thread_state" where
  "ThreadState_BreakOnStart t =
     (let t = (if \<not> paused t then t\<lparr>stepKind := SK_BREAK_ON_START\<rparr> else t) in t\<lparr>breakOnStart := True\<rparr>)"

definition ThreadState_Continue :: "thread_state \<times> hybrid_stepper \<Rightarrow> thread_state \<times> hybrid_stepper" where
  "ThreadState_Continue = (\<lambda>(t, h).
     (t\<lparr>stepKind := SK_NONE, paused := False, pauseReason := PR_OTHER\<rparr>,
      SetHybridSingleStepFlag STATIC_TO_DYNAMIC False h))"

definition ThreadState_ContinueTo :: "pt_location set \<Rightarrow> thread_state \<times> hybrid_stepper \<Rightarrow> thread_state \<times> hybrid_stepper" where
  "ThreadState_ContinueTo locations = (\<lambda>(t, h).
     (t\<lparr>stepKind := SK_CONTINUE_TO, stepLocations := locations, paused := False, pauseReason := PR_OTHER\<rparr>,
      SetHybridSingleStepFlag STATIC_TO_DYNAMIC False h))"

definition ThreadState_StepInto :: "pt_location set \<Rightarrow> thread_state \<times> hybrid_stepper \<Rightarrow> thread_state \<times> hybrid_stepper" where
  "ThreadState_StepInto locations = (\<lambda>(t, h).
     (t\<lparr>stepKind := SK_STEP_INTO, methodEntered := False, stepLocations := locations, paused := False,
        pauseReason := PR_STEP\<rparr>,
      SetHybridSingleStepFlag STATIC_TO_DYNAMIC True h))"

definition ThreadState_StepOver :: "pt_location set \<Rightarrow> thread_state \<times> hybrid_stepper \<Rightarrow> thread_state \<times> hybrid_stepper" where
  "ThreadState_StepOver locations = (\<lambda>(t, h).
     (t\<lparr>stepKind := SK_STEP_OVER, methodEntered := False, stepLocations := locations, paused := False,
        pauseReason := PR_STEP\<rparr>, h))"

definition ThreadState_StepOut :: "thread_state \<times> hybrid_stepper \<Rightarrow> thread_state \<times> hybrid_stepper" where
  "ThreadState_StepOut = (\<lambda>(t, h).
     (t\<lparr>stepKind := SK_STEP_OUT, methodEntered := True, paused := False, pauseReason := PR_STEP\<rparr>,
      SetHybridSingleStepFlag STATIC_TO_DYNAMIC True h))"

definition ThreadState_Pause :: "thread_state \<Rightarrow> thread_state" where
  "ThreadState_Pause t = (if \<not> paused t \<and> \<not> skipAllPauses t then t\<lparr>stepKind := SK_PAUSE\<rparr> else t)"

definition ThreadState_SetSkipAllPauses :: "bool \<Rightarrow> thread_state \<Rightarrow> thread_state" where
  "ThreadState_SetSkipAllPauses skip t = t\<lparr>skipAllPauses := skip\<rparr>"

definition ThreadState_SetPauseOnExceptions :: "PauseOnExceptionsState \<Rightarrow> thread_state \<Rightarrow> thread_state" where
  "ThreadState_SetPauseOnExceptions state t = t\<lparr>pauseOnExceptionsState := state\<rparr>"

definition ThreadState_IsStepInto :: "thread_state \<Rightarrow> bool" where
  "ThreadState_IsStepInto t \<longleftrightarrow> stepKind t = SK_STEP_INTO"

section \<open>Events of the application thread\<close>

definition ThreadState_OnException :: "bool \<Rightarrow> thread_state \<Rightarrow> thread_state" where
  "ThreadState_OnException uncaught t =
     (if skipAllPauses t then t
      else let t = (case pauseOnExceptionsState t of
                      POE_NONE \<Rightarrow> t
                    | POE_CAUGHT \<Rightarrow> t\<lparr>paused := \<not> uncaught\<rparr>
                    | POE_UNCAUGHT \<Rightarrow> t\<lparr>paused := uncaught\<rparr>
                    | POE_ALL \<Rightarrow> t\<lparr>paused := True\<rparr>)
           in if paused t then t\<lparr>pauseReason := PR_EXCEPTION\<rparr> else t)"

definition ThreadState_OnFramePop :: "thread_state \<Rightarrow> thread_state" where
  "ThreadState_OnFramePop t =
     (case stepKind t of
        SK_STEP_OUT \<Rightarrow> t\<lparr>methodEntered := False\<rparr>
      | SK_STEP_OVER \<Rightarrow> t\<lparr>methodEntered := False\<rparr>
      | _ \<Rightarrow> t)"

definition ThreadState_OnMethodEntry :: "thread_state \<Rightarrow> bool \<times> thread_state" where
  "ThreadState_OnMethodEntry t =
     (case stepKind t of
        SK_STEP_OUT \<Rightarrow> (\<not> methodEntered t, t\<lparr>methodEntered := True\<rparr>)
      | SK_STEP_OVER \<Rightarrow> (\<not> methodEntered t, t\<lparr>methodEntered := True\<rparr>)
      | _ \<Rightarrow> (False, t))"

text \<open>The thread state asks the breakpoint storage; \<open>bps\<close> is the storage with its engine.\<close>

type_synonym 'w bp_state = "storage \<times> 'w evaluation_engine"

definition ThreadState_ShouldStopAtBreakpoint ::
  "'w debugger_ops \<Rightarrow> thread_state \<Rightarrow> pt_location \<Rightarrow> 'w bp_state \<Rightarrow> (bool \<times> 'w bp_state) option" where
  "ThreadState_ShouldStopAtBreakpoint ops t location bps =
     (if skipAllPauses t then Some (False, bps)
      else ShouldStopAtBreakpoint ops (fst bps) location (snd bps))"

fun step_paused :: "thread_state \<Rightarrow> pt_location \<Rightarrow> StepKind \<Rightarrow> bool" where
  "step_paused t location SK_NONE = False"
| "step_paused t location SK_BREAK_ON_START = paused t"
| "step_paused t location SK_CONTINUE_TO = (location \<in> stepLocations t)"
| "step_paused t location SK_PAUSE = True"
| "step_paused t location SK_STEP_INTO = (location \<notin> stepLocations t)"
| "step_paused t location SK_STEP_OUT = (\<not> methodEntered t)"
| "step_paused t location SK_STEP_OVER = (\<not> methodEntered t \<and> location \<notin> stepLocations t)"

definition ThreadState_OnSingleStep ::
  "'w debugger_ops \<Rightarrow> pt_location \<Rightarrow> thread_state \<times> hybrid_stepper \<times> 'w bp_state \<Rightarrow>
     (thread_state \<times> hybrid_stepper \<times> 'w bp_state) option" where
  "ThreadState_OnSingleStep ops location = (\<lambda>(t, h, bps).
     if breakOnStart t then
       (case ThreadState_ShouldStopAtBreakpoint ops t location bps of
          None \<Rightarrow> None
        | Some (True, bps) \<Rightarrow> Some (t\<lparr>paused := True, pauseReason := PR_OTHER\<rparr>, h, bps)
        | Some (False, bps) \<Rightarrow>
            let t = (if stepKind t \<noteq> SK_STEP_INTO then t\<lparr>pauseReason := PR_BREAK_ON_START\<rparr> else t)
            in Some (t\<lparr>stepKind := SK_BREAK_ON_START, paused := True, breakOnStart := False\<rparr>, h, bps))
     else if GetHybridSingleStepFlag h DYNAMIC_TO_STATIC then
       Some (t\<lparr>paused := True, pauseReason := PR_OTHER\<rparr>, SetHybridSingleStepFlag DYNAMIC_TO_STATIC False h, bps)
     else
       (case ThreadState_ShouldStopAtBreakpoint ops t location bps of
          None \<Rightarrow> None
        | Some (True, bps) \<Rightarrow> Some (t\<lparr>paused := True\<rparr>, h, bps)
        | Some (False, bps) \<Rightarrow> Some (t\<lparr>paused := step_paused t location (stepKind t)\<rparr>, h, bps)))"

definition ThreadState_GetBreakpointsByLocation :: "storage \<Rightarrow> pt_location \<Rightarrow> BreakpointId list" where
  "ThreadState_GetBreakpointsByLocation s location = BreakpointStorage_GetBreakpointsByLocation s location"

section \<open>Runs of a thread\<close>

text \<open>
  What the thread does between two pauses, as the runtime reports it: it enters a method, leaves one
  or is about to execute an instruction. \<^verbatim>\<open>FramePop\<close> is reported for the frames for which
  \<^verbatim>\<open>NotifyFramePop\<close> was asked, which \<^verbatim>\<open>Inspector::MethodEntry\<close> does when \<^verbatim>\<open>OnMethodEntry\<close> says so; a
  frame is named by its depth.
\<close>

datatype run_event = Enter | Leave | Step pt_location

record 'w run =
  rn_depth :: nat
  rn_notify :: "nat set"
  rn_state :: "thread_state \<times> hybrid_stepper \<times> 'w bp_state"

fun exec_event :: "'w debugger_ops \<Rightarrow> run_event \<Rightarrow> 'w run \<Rightarrow> 'w run option" where
  "exec_event ops Enter r =
     (case rn_state r of
        (t, rest) \<Rightarrow>
          (case ThreadState_OnMethodEntry t of
             (notify, t) \<Rightarrow>
               Some (r\<lparr>rn_depth := Suc (rn_depth r),
                       rn_notify := (if notify then insert (Suc (rn_depth r)) (rn_notify r) else rn_notify r),
                       rn_state := (t, rest)\<rparr>)))"
| "exec_event ops Leave r =
     (if rn_depth r = 0 then Some r
      else case rn_state r of
             (t, rest) \<Rightarrow>
               Some (r\<lparr>rn_depth := rn_depth r - 1, rn_notify := rn_notify r - {rn_depth r},
                       rn_state := (if rn_depth r \<in> rn_notify r then ThreadState_OnFramePop t else t, rest)\<rparr>))"
| "exec_event ops (Step location) r =
     map_option (\<lambda>st. r\<lparr>rn_state := st\<rparr>) (ThreadState_OnSingleStep ops location (rn_state r))"

text \<open>A paused thread makes no event.\<close>

fun exec_events :: "'w debugger_ops \<Rightarrow> run_event list \<Rightarrow> 'w run \<Rightarrow> 'w run option" where
  "exec_events ops [] r = Some r"
| "exec_events ops (e # es) r =
     (if paused (fst (rn_state r)) then Some r
      else case exec_event ops e r of None \<Rightarrow> None | Some r \<Rightarrow> exec_events ops es r)"

section \<open>The meaning of a step\<close>

text \<open>
  The reference follows the depth of the stack and the lowest depth since the step began, its base.
  An instruction is a stop when a breakpoint is hit there, or when the command's own condition holds:
  outside the current line (into); at the base and outside the current line (over); at the base,
  which starts below the current frame (out); at one of the locations (continue to).
\<close>

fun stop_here :: "StepKind \<Rightarrow> pt_location set \<Rightarrow> nat \<Rightarrow> nat \<Rightarrow> pt_location \<Rightarrow> bool" where
  "stop_here SK_STEP_INTO L d b l = (l \<notin> L)"
| "stop_here SK_STEP_OVER L d b l = (d \<le> b \<and> l \<notin> L)"
| "stop_here SK_STEP_OUT L d b l = (d \<le> b)"
| "stop_here SK_CONTINUE_TO L d b l = (l \<in> L)"
| "stop_here SK_PAUSE L d b l = True"
| "stop_here SK_NONE L d b l = False"
| "stop_here SK_BREAK_ON_START L d b l = False"

fun stops_in :: "StepKind \<Rightarrow> (pt_location \<Rightarrow> bool) \<Rightarrow> pt_location set \<Rightarrow> nat \<Rightarrow> nat \<Rightarrow> run_event list \<Rightarrow> bool" where
  "stops_in k hit L d b [] = False"
| "stops_in k hit L d b (Enter # es) = stops_in k hit L (Suc d) b es"
| "stops_in k hit L d b (Leave # es) = stops_in k hit L (d - 1) (min b (d - 1)) es"
| "stops_in k hit L d b (Step l # es) = (hit l \<or> stop_here k L d b l \<or> stops_in k hit L d b es)"

text \<open>What ties the thread's flag to the depths: it has entered a method exactly when it is above
  the base, and then the frame above the base will be reported. Asking the breakpoint storage about
  a location gives \<open>hit\<close>.\<close>

definition depth_rel :: "nat \<Rightarrow> nat \<Rightarrow> nat set \<Rightarrow> bool \<Rightarrow> bool" where
  "depth_rel b d notify entered \<longleftrightarrow> b \<le> d \<and> (entered \<longleftrightarrow> b < d) \<and> (\<forall>x \<in> notify. x \<le> Suc b \<and> x \<le> d) \<and>
     (b < d \<longrightarrow> Suc b \<in> notify)"

abbreviation counts_depth :: "StepKind \<Rightarrow> bool" where
  "counts_depth k \<equiv> k = SK_STEP_OVER \<or> k = SK_STEP_OUT"

abbreviation uses_locations :: "StepKind \<Rightarrow> bool" where
  "uses_locations k \<equiv> k = SK_STEP_OVER \<or> k = SK_STEP_INTO \<or> k = SK_CONTINUE_TO"

definition asks_ok :: "'w debugger_ops \<Rightarrow> (string \<Rightarrow> method_handle) \<Rightarrow> (string \<Rightarrow> bool) \<Rightarrow> (pt_location \<Rightarrow> bool) \<Rightarrow>
    thread_state \<Rightarrow> 'w bp_state \<Rightarrow> bool" where
  "asks_ok ops handle cond hit t bps \<longleftrightarrow> stable_engine ops handle cond \<and> storage_inv (fst bps) \<and>
     caches_ok handle (fst bps) \<and> (\<forall>l. hit l \<longleftrightarrow> \<not> skipAllPauses t \<and> stops_at cond (fst bps) l)"

definition step_rel :: "'w debugger_ops \<Rightarrow> (string \<Rightarrow> method_handle) \<Rightarrow> (string \<Rightarrow> bool) \<Rightarrow> (pt_location \<Rightarrow> bool) \<Rightarrow>
    StepKind \<Rightarrow> pt_location set \<Rightarrow> nat \<Rightarrow> 'w run \<Rightarrow> bool" where
  "step_rel ops handle cond hit k L b r \<longleftrightarrow> (case rn_state r of (t, h, bps) \<Rightarrow>
     stepKind t = k \<and> k \<noteq> SK_BREAK_ON_START \<and> (uses_locations k \<longrightarrow> stepLocations t = L) \<and>
     \<not> breakOnStart t \<and> \<not> dynamicToStatic h \<and> asks_ok ops handle cond hit t bps \<and>
     (counts_depth k \<longrightarrow> depth_rel b (rn_depth r) (rn_notify r) (methodEntered t)))"

lemma depth_rel_enter:
  "depth_rel b d N m \<Longrightarrow> depth_rel b (Suc d) (if \<not> m then insert (Suc d) N else N) True"
  by (auto simp: depth_rel_def)

lemma depth_rel_leave:
  assumes "depth_rel b d N m" "0 < d"
  shows "depth_rel (min b (d - 1)) (d - 1) (N - {d}) (if d \<in> N then False else m)"
proof (cases "b < d")
  case True
  have "d \<in> N \<longleftrightarrow> d = Suc b" using assms(1) True by (fastforce simp: depth_rel_def)
  then show ?thesis using assms True by (fastforce simp: depth_rel_def min_def)
next
  case False
  then have "b = d" "\<not> m" "\<And>x. x \<in> N \<Longrightarrow> x \<le> d" using assms(1) by (auto simp: depth_rel_def)
  moreover have "x \<le> d - 1" if "x \<in> N - {d}" for x using calculation(3) [of x] that by auto
  ultimately show ?thesis using assms(2) by (simp add: depth_rel_def min_def)
qed

lemma ask_hit:
  assumes "asks_ok ops handle cond hit t bps"
  obtains bps' where "ThreadState_ShouldStopAtBreakpoint ops t l bps = Some (hit l, bps')"
    "\<And>t'. skipAllPauses t' = skipAllPauses t \<Longrightarrow> asks_ok ops handle cond hit t' bps'"
proof (cases "skipAllPauses t")
  case True
  then show thesis using assms that [of bps] by (simp add: ThreadState_ShouldStopAtBreakpoint_def asks_ok_def)
next
  case False
  have "case ShouldStopAtBreakpoint ops (fst bps) l (snd bps) of
      None \<Rightarrow> False
    | Some (r, s', eng') \<Rightarrow> r = stops_at cond (fst bps) l \<and> storage_inv s' \<and> caches_ok handle s' \<and>
        (\<forall>k. stops_at cond s' k = stops_at cond (fst bps) k)"
    by (rule ShouldStopAtBreakpoint_stops) (use assms in \<open>simp_all add: asks_ok_def\<close>)
  then obtain s' eng' where "ShouldStopAtBreakpoint ops (fst bps) l (snd bps) = Some (stops_at cond (fst bps) l, s', eng')"
    "storage_inv s'" "caches_ok handle s'" "\<And>k. stops_at cond s' k = stops_at cond (fst bps) k"
    by (auto split: option.splits)
  then show thesis using assms False
    by (intro that [of "(s', eng')"]) (simp_all add: ThreadState_ShouldStopAtBreakpoint_def asks_ok_def)
qed

lemma step_rel_enter:
  assumes "step_rel ops handle cond hit k L b r" "\<not> paused (fst (rn_state r))"
  obtains r' where "exec_event ops Enter r = Some r'" "step_rel ops handle cond hit k L b r'"
    "\<not> paused (fst (rn_state r'))" "rn_depth r' = Suc (rn_depth r)"
proof -
  obtain t h bps where st: "rn_state r = (t, h, bps)" by (metis prod_cases3)
  show thesis
  proof (cases "counts_depth k")
    case True
    then have "ThreadState_OnMethodEntry t = (\<not> methodEntered t, t\<lparr>methodEntered := True\<rparr>)"
      using assms(1) st by (auto simp: ThreadState_OnMethodEntry_def step_rel_def)
    moreover have "depth_rel b (Suc (rn_depth r))
        (if \<not> methodEntered t then insert (Suc (rn_depth r)) (rn_notify r) else rn_notify r) True"
      by (rule depth_rel_enter) (use assms(1) st True in \<open>simp add: step_rel_def\<close>)
    ultimately show thesis using assms st True
      by (intro that [of "r\<lparr>rn_depth := Suc (rn_depth r),
            rn_notify := (if \<not> methodEntered t then insert (Suc (rn_depth r)) (rn_notify r) else rn_notify r),
            rn_state := (t\<lparr>methodEntered := True\<rparr>, h, bps)\<rparr>"])
         (simp_all add: step_rel_def asks_ok_def)
  next
    case False
    then have "ThreadState_OnMethodEntry t = (False, t)"
      using assms(1) st by (auto simp: ThreadState_OnMethodEntry_def step_rel_def split: StepKind.splits)
    then show thesis using assms st False
      by (intro that [of "r\<lparr>rn_depth := Suc (rn_depth r)\<rparr>"]) (simp_all add: step_rel_def)
  qed
qed

lemma step_rel_leave:
  assumes "step_rel ops handle cond hit k L b r" "\<not> paused (fst (rn_state r))"
  obtains r' where "exec_event ops Leave r = Some r'" "step_rel ops handle cond hit k L (min b (rn_depth r - 1)) r'"
    "\<not> paused (fst (rn_state r'))" "rn_depth r' = rn_depth r - 1"
proof -
  obtain t h bps where st: "rn_state r = (t, h, bps)" by (metis prod_cases3)
  show thesis
  proof (cases "rn_depth r = 0")
    case True
    then show thesis using assms st by (intro that [of r]) (auto simp: step_rel_def depth_rel_def)
  next
    case d: False
    show thesis
    proof (cases "counts_depth k")
      case True
      then have "ThreadState_OnFramePop t = t\<lparr>methodEntered := False\<rparr>"
        using assms(1) st by (auto simp: ThreadState_OnFramePop_def step_rel_def)
      moreover have "depth_rel (min b (rn_depth r - 1)) (rn_depth r - 1) (rn_notify r - {rn_depth r})
          (methodEntered (if rn_depth r \<in> rn_notify r then t\<lparr>methodEntered := False\<rparr> else t))"
        using depth_rel_leave [of b "rn_depth r" "rn_notify r" "methodEntered t"] assms(1) st True d
        by (auto simp: step_rel_def)
      ultimately show thesis using assms st True d
        by (intro that [of "r\<lparr>rn_depth := rn_depth r - 1, rn_notify := rn_notify r - {rn_depth r},
              rn_state := (if rn_depth r \<in> rn_notify r then t\<lparr>methodEntered := False\<rparr> else t, h, bps)\<rparr>"])
           (auto simp: step_rel_def asks_ok_def)
    next
      case False
      then have "ThreadState_OnFramePop t = t"
        using assms(1) st by (auto simp: ThreadState_OnFramePop_def step_rel_def split: StepKind.splits)
      then show thesis using assms st False d
        by (intro that [of "r\<lparr>rn_depth := rn_depth r - 1, rn_notify := rn_notify r - {rn_depth r}\<rparr>"])
           (simp_all add: step_rel_def)
    qed
  qed
qed

lemma step_rel_step:
  assumes "step_rel ops handle cond hit k L b r" "\<not> paused (fst (rn_state r))"
  obtains r' where "exec_event ops (Step l) r = Some r'" "rn_depth r' = rn_depth r"
    "paused (fst (rn_state r')) \<longleftrightarrow> hit l \<or> stop_here k L (rn_depth r) b l"
    "\<not> paused (fst (rn_state r')) \<longrightarrow> step_rel ops handle cond hit k L b r'"
proof -
  obtain t h bps where st: "rn_state r = (t, h, bps)" by (metis prod_cases3)
  have rel: "stepKind t = k" "k \<noteq> SK_BREAK_ON_START" "uses_locations k \<longrightarrow> stepLocations t = L" "\<not> breakOnStart t"
    "\<not> dynamicToStatic h" "asks_ok ops handle cond hit t bps"
    "counts_depth k \<longrightarrow> depth_rel b (rn_depth r) (rn_notify r) (methodEntered t)"
    using assms(1) st by (simp_all add: step_rel_def)
  obtain bps' where ask: "ThreadState_ShouldStopAtBreakpoint ops t l bps = Some (hit l, bps')"
    and ok: "\<And>t'. skipAllPauses t' = skipAllPauses t \<Longrightarrow> asks_ok ops handle cond hit t' bps'"
    by (rule ask_hit [OF rel(6), of l]) blast
  have stop: "step_paused t l k \<longleftrightarrow> stop_here k L (rn_depth r) b l"
    using rel(2,3,7) by (cases k) (auto simp: depth_rel_def)
  define p where "p \<longleftrightarrow> hit l \<or> stop_here k L (rn_depth r) b l"
  have "ThreadState_OnSingleStep ops l (t, h, bps) = Some (t\<lparr>paused := p\<rparr>, h, bps')"
    using rel(1,4,5) ask stop by (cases "hit l") (simp_all add: ThreadState_OnSingleStep_def p_def)
  then show thesis
    using st rel ok by (intro that [of "r\<lparr>rn_state := (t\<lparr>paused := p\<rparr>, h, bps')\<rparr>"])
      (simp_all add: p_def [symmetric] step_rel_def)
qed

lemma step_rel_runs:
  assumes "step_rel ops handle cond hit k L b r" "\<not> paused (fst (rn_state r))"
  shows "case exec_events ops es r of
      None \<Rightarrow> False
    | Some r' \<Rightarrow> paused (fst (rn_state r')) = stops_in k hit L (rn_depth r) b es"
  using assms
proof (induction es arbitrary: r b)
  case (Cons e es)
  show ?case
  proof (cases e)
    case Enter
    obtain r' where "exec_event ops Enter r = Some r'" "step_rel ops handle cond hit k L b r'"
      "\<not> paused (fst (rn_state r'))" "rn_depth r' = Suc (rn_depth r)" by (rule step_rel_enter [OF Cons.prems])
    then show ?thesis using Cons.IH [of b r'] Cons.prems(2) Enter by (simp del: exec_event.simps split: option.splits)
  next
    case Leave
    obtain r' where "exec_event ops Leave r = Some r'" "step_rel ops handle cond hit k L (min b (rn_depth r - 1)) r'"
      "\<not> paused (fst (rn_state r'))" "rn_depth r' = rn_depth r - 1" by (rule step_rel_leave [OF Cons.prems])
    then show ?thesis using Cons.IH [of "min b (rn_depth r - 1)" r'] Cons.prems(2) Leave by (simp del: exec_event.simps split: option.splits)
  next
    case (Step l)
    obtain r' where r': "exec_event ops (Step l) r = Some r'" "rn_depth r' = rn_depth r"
      "paused (fst (rn_state r')) \<longleftrightarrow> hit l \<or> stop_here k L (rn_depth r) b l"
      "\<not> paused (fst (rn_state r')) \<longrightarrow> step_rel ops handle cond hit k L b r'"
      by (rule step_rel_step [OF Cons.prems])
    then show ?thesis
    proof (cases "paused (fst (rn_state r'))")
      case True
      then have "exec_events ops es r' = Some r'" by (cases es) simp_all
      then show ?thesis using True r' Cons.prems(2) Step by (auto simp del: exec_event.simps)
    next
      case False
      then show ?thesis using Cons.IH [of b r'] r' Cons.prems(2) Step by (simp del: exec_event.simps split: option.splits)
    qed
  qed
qed simp

text \<open>
  The state a command leaves, and where its base is. \<^verbatim>\<open>Inspector::StepOut\<close> asks to be told when the
  current frame is popped before it gives the command.
\<close>

datatype step_command = Into "pt_location set" | Over "pt_location set" | Out | To "pt_location set"

fun command_state :: "step_command \<Rightarrow> thread_state \<times> hybrid_stepper \<Rightarrow> thread_state \<times> hybrid_stepper" where
  "command_state (Into L) = ThreadState_StepInto L"
| "command_state (Over L) = ThreadState_StepOver L"
| "command_state Out = ThreadState_StepOut"
| "command_state (To L) = ThreadState_ContinueTo L"

definition command_run :: "step_command \<Rightarrow> 'w run \<Rightarrow> 'w run" where
  "command_run c r =
     (case rn_state r of
        (t, h, bps) \<Rightarrow>
          (case command_state c (t, h) of
             (t, h) \<Rightarrow> r\<lparr>rn_notify := (if c = Out then insert (rn_depth r) (rn_notify r) else rn_notify r),
                         rn_state := (t, h, bps)\<rparr>))"

fun command_kind :: "step_command \<Rightarrow> StepKind" where
  "command_kind (Into L) = SK_STEP_INTO"
| "command_kind (Over L) = SK_STEP_OVER"
| "command_kind Out = SK_STEP_OUT"
| "command_kind (To L) = SK_CONTINUE_TO"

fun command_locations :: "step_command \<Rightarrow> pt_location set" where
  "command_locations (Into L) = L"
| "command_locations (Over L) = L"
| "command_locations Out = {}"
| "command_locations (To L) = L"

definition command_base :: "step_command \<Rightarrow> nat \<Rightarrow> nat" where
  "command_base c d = (if c = Out then d - 1 else d)"

lemma command_rel:
  assumes "rn_state r = (t, h, s, eng)" "0 < rn_depth r" "rn_notify r \<subseteq> {..rn_depth r}"
    and "\<not> breakOnStart t" "\<not> dynamicToStatic h"
    and "stable_engine ops handle cond" "storage_inv s" "caches_ok handle s"
  shows "step_rel ops handle cond (\<lambda>l. \<not> skipAllPauses t \<and> stops_at cond s l) (command_kind c) (command_locations c)
      (command_base c (rn_depth r)) (command_run c r)"
    and "\<not> paused (fst (rn_state (command_run c r)))" "rn_depth (command_run c r) = rn_depth r"
  using assms
  by (cases c; force simp: command_run_def command_base_def step_rel_def asks_ok_def depth_rel_def
        ThreadState_StepInto_def ThreadState_StepOver_def ThreadState_StepOut_def ThreadState_ContinueTo_def)+


definition sample_run :: "unit run" where
  "sample_run = \<lparr>rn_depth = 2, rn_notify = {},
     rn_state = (ThreadState_new\<lparr>paused := True, skipAllPauses := True\<rparr>,
       \<lparr>dynamicToStatic = False, staticToDynamic = False\<rparr>, sample_storage, \<lparr>evaluating = False, ev_thread = ()\<rparr>)\<rparr>"


end
