(* ===== verification/Debuggable_Thread.thy ===== *)
theory Debuggable_Thread
  imports Thread_State
begin

text \<open>
  \<^verbatim>\<open>DebuggableThread\<close> (tooling/static/debugger/debuggable_thread.h and debuggable_thread.cpp): an
  application thread that is suspended when its \<^verbatim>\<open>ThreadState\<close> pauses and that the server thread
  resumes, steps, or asks to run a request on its object repository. Each region the mutex protects
  is one step; the two threads interleave at the regions' ends, where \<^verbatim>\<open>Suspend\<close> releases the mutex
  to wait and where \<^verbatim>\<open>RequestToObjectRepository\<close> waits for the answer. An \<^verbatim>\<open>ASSERT\<close> that does not
  hold sets \<open>dt_failed\<close>.
\<close>

section \<open>The managed thread\<close>

text \<open>
  The runtime's \<^verbatim>\<open>ManagedThread\<close> is a parameter. The code relies on the two facts of \<open>managed_ok\<close>:
  suspending a running thread suspends it, and resuming it then lets it run. A request on the object
  repository is named by a number.
\<close>

record 'm managed_ops =
  mt_Suspend :: "'m \<Rightarrow> 'm"
  mt_Resume :: "'m \<Rightarrow> 'm"
  mt_IsSuspended :: "'m \<Rightarrow> bool"

definition managed_ok :: "'m managed_ops \<Rightarrow> bool" where
  "managed_ok mo \<longleftrightarrow> (\<forall>m. \<not> mt_IsSuspended mo m \<longrightarrow>
     mt_IsSuspended mo (mt_Suspend mo m) \<and> \<not> mt_IsSuspended mo (mt_Resume mo (mt_Suspend mo m)))"

section \<open>State\<close>

text \<open>Where the thread is paused: \<^verbatim>\<open>OnSingleStep\<close> at a location, \<^verbatim>\<open>OnException\<close> with the exception.\<close>

datatype pause_context = AtStep pt_location | AtException "object_header option"

datatype callback =
    PreSuspend "BreakpointId list" "object_header option"
  | PostSuspend "BreakpointId list" "object_header option" PauseReason
  | PreResume | PostResume

record ('w, 'm) dthread =
  dt_state :: "thread_state \<times> hybrid_stepper \<times> 'w bp_state"
  dt_suspended :: bool
  dt_request :: "nat option"
  dt_managed :: 'm
  dt_done :: "nat list"
  dt_callbacks :: "callback list"
  dt_failed :: bool

definition dt_assert :: "bool \<Rightarrow> ('w, 'm) dthread \<Rightarrow> ('w, 'm) dthread" where
  "dt_assert b d = (if b then d else d\<lparr>dt_failed := True\<rparr>)"

definition dt_call :: "callback \<Rightarrow> ('w, 'm) dthread \<Rightarrow> ('w, 'm) dthread" where
  "dt_call c d = d\<lparr>dt_callbacks := dt_callbacks d @ [c]\<rparr>"

abbreviation dt_ts :: "('w, 'm) dthread \<Rightarrow> thread_state" where
  "dt_ts d \<equiv> fst (dt_state d)"

definition dt_update :: "(thread_state \<Rightarrow> thread_state) \<Rightarrow> ('w, 'm) dthread \<Rightarrow> ('w, 'm) dthread" where
  "dt_update f d = (case dt_state d of (t, rest) \<Rightarrow> d\<lparr>dt_state := (f t, rest)\<rparr>)"

definition dt_update2 ::
  "(thread_state \<times> hybrid_stepper \<Rightarrow> thread_state \<times> hybrid_stepper) \<Rightarrow> ('w, 'm) dthread \<Rightarrow> ('w, 'm) dthread" where
  "dt_update2 f d = (case dt_state d of (t, h, bps) \<Rightarrow> (case f (t, h) of (t, h) \<Rightarrow> d\<lparr>dt_state := (t, h, bps)\<rparr>))"

section \<open>The server thread\<close>

definition DebuggableThread_Resume :: "'m managed_ops \<Rightarrow> ('w, 'm) dthread \<Rightarrow> ('w, 'm) dthread" where
  "DebuggableThread_Resume mo d =
     (let d = dt_assert (dt_request d = None) d
      in if \<not> dt_suspended d then d
         else let d = dt_assert (mt_IsSuspended mo (dt_managed d)) d;
                  d = dt_call PreResume d;
                  d = d\<lparr>dt_suspended := False, dt_managed := mt_Resume mo (dt_managed d)\<rparr>
              in dt_call PostResume d)"

definition DebuggableThread_Reset :: "('w, 'm) dthread \<Rightarrow> ('w, 'm) dthread" where
  "DebuggableThread_Reset d = dt_update ThreadState_Reset d"

definition DebuggableThread_BreakOnStart :: "('w, 'm) dthread \<Rightarrow> ('w, 'm) dthread" where
  "DebuggableThread_BreakOnStart d = dt_update ThreadState_BreakOnStart d"

definition DebuggableThread_Continue :: "'m managed_ops \<Rightarrow> ('w, 'm) dthread \<Rightarrow> ('w, 'm) dthread" where
  "DebuggableThread_Continue mo d = DebuggableThread_Resume mo (dt_update2 ThreadState_Continue d)"

definition DebuggableThread_ContinueTo :: "'m managed_ops \<Rightarrow> pt_location set \<Rightarrow> ('w, 'm) dthread \<Rightarrow> ('w, 'm) dthread" where
  "DebuggableThread_ContinueTo mo locations d = DebuggableThread_Resume mo (dt_update2 (ThreadState_ContinueTo locations) d)"

definition DebuggableThread_StepInto :: "'m managed_ops \<Rightarrow> pt_location set \<Rightarrow> ('w, 'm) dthread \<Rightarrow> ('w, 'm) dthread" where
  "DebuggableThread_StepInto mo locations d = DebuggableThread_Resume mo (dt_update2 (ThreadState_StepInto locations) d)"

definition DebuggableThread_StepOver :: "'m managed_ops \<Rightarrow> pt_location set \<Rightarrow> ('w, 'm) dthread \<Rightarrow> ('w, 'm) dthread" where
  "DebuggableThread_StepOver mo locations d = DebuggableThread_Resume mo (dt_update2 (ThreadState_StepOver locations) d)"

definition DebuggableThread_StepOut :: "'m managed_ops \<Rightarrow> ('w, 'm) dthread \<Rightarrow> ('w, 'm) dthread" where
  "DebuggableThread_StepOut mo d = DebuggableThread_Resume mo (dt_update2 ThreadState_StepOut d)"

definition DebuggableThread_IsPaused :: "('w, 'm) dthread \<Rightarrow> bool" where
  "DebuggableThread_IsPaused d = dt_suspended d"

definition DebuggableThread_Touch :: "'m managed_ops \<Rightarrow> ('w, 'm) dthread \<Rightarrow> ('w, 'm) dthread" where
  "DebuggableThread_Touch mo d = DebuggableThread_Resume mo d"

definition DebuggableThread_Pause :: "('w, 'm) dthread \<Rightarrow> ('w, 'm) dthread" where
  "DebuggableThread_Pause d = dt_update ThreadState_Pause d"

definition DebuggableThread_SetSkipAllPauses :: "bool \<Rightarrow> ('w, 'm) dthread \<Rightarrow> ('w, 'm) dthread" where
  "DebuggableThread_SetSkipAllPauses skip d = dt_update (ThreadState_SetSkipAllPauses skip) d"

definition DebuggableThread_SetPauseOnExceptions :: "PauseOnExceptionsState \<Rightarrow> ('w, 'm) dthread \<Rightarrow> ('w, 'm) dthread" where
  "DebuggableThread_SetPauseOnExceptions state d = dt_update (ThreadState_SetPauseOnExceptions state) d"

definition IsPausedByBreakOnStart :: "('w, 'm) dthread \<Rightarrow> bool" where
  "IsPausedByBreakOnStart d \<longleftrightarrow> paused (dt_ts d) \<and> pauseReason (dt_ts d) = PR_BREAK_ON_START"

definition IsPausedByBreakPoint :: "('w, 'm) dthread \<Rightarrow> bool" where
  "IsPausedByBreakPoint d \<longleftrightarrow> paused (dt_ts d) \<and> pauseReason (dt_ts d) = PR_OTHER"

definition DebuggableThread_IsStepInto :: "('w, 'm) dthread \<Rightarrow> bool" where
  "DebuggableThread_IsStepInto d = ThreadState_IsStepInto (dt_ts d)"

text \<open>
  The request, up to the wait: \<open>Inl\<close> of the result when it returns at once, \<open>Inr\<close> when it waits.
\<close>

definition Request_begin :: "'m managed_ops \<Rightarrow> nat \<Rightarrow> ('w, 'm) dthread \<Rightarrow> (bool + unit) \<times> ('w, 'm) dthread" where
  "Request_begin mo request d =
     (let d = dt_assert (dt_request d = None) d
      in if \<not> dt_suspended d then (Inl False, d)
         else let d = dt_assert (mt_IsSuspended mo (dt_managed d)) d
              in (Inr (), d\<lparr>dt_request := Some request, dt_managed := mt_Resume mo (dt_managed d)\<rparr>))"

text \<open>The rest, once \<^verbatim>\<open>request_\<close> is found empty.\<close>

definition Request_end :: "'m managed_ops \<Rightarrow> ('w, 'm) dthread \<Rightarrow> bool \<times> ('w, 'm) dthread" where
  "Request_end mo d = (True, dt_assert (mt_IsSuspended mo (dt_managed d)) (dt_assert (dt_suspended d) d))"

section \<open>The application thread\<close>

fun context_hits :: "pause_context \<Rightarrow> storage \<Rightarrow> BreakpointId list" where
  "context_hits (AtStep l) s = ThreadState_GetBreakpointsByLocation s l"
| "context_hits (AtException e) s = []"

fun context_exception :: "pause_context \<Rightarrow> object_header option" where
  "context_exception (AtStep l) = None"
| "context_exception (AtException e) = e"

text \<open>\<^verbatim>\<open>Suspend\<close> up to its loop.\<close>

definition Suspend_begin :: "'m managed_ops \<Rightarrow> pause_context \<Rightarrow> ('w, 'm) dthread \<Rightarrow> ('w, 'm) dthread" where
  "Suspend_begin mo ctx d =
     (let hitBreakpoints = context_hits ctx (fst (snd (snd (dt_state d))));
          reason = pauseReason (dt_ts d);
          d = dt_assert (\<not> dt_suspended d) d;
          d = dt_assert (dt_request d = None) d;
          d = dt_call (PreSuspend hitBreakpoints (context_exception ctx)) d;
          d = d\<lparr>dt_suspended := True, dt_managed := mt_Suspend mo (dt_managed d)\<rparr>
      in dt_call (PostSuspend hitBreakpoints (context_exception ctx) reason) d)"

datatype app_pc = Running | Waiting pause_context | Woken pause_context

text \<open>\<^verbatim>\<open>while (state_.IsPaused()) Suspend(...)\<close>, to the next wait.\<close>

definition pause_loop :: "'m managed_ops \<Rightarrow> pause_context \<Rightarrow> ('w, 'm) dthread \<Rightarrow> app_pc \<times> ('w, 'm) dthread" where
  "pause_loop mo ctx d = (if paused (dt_ts d) then (Waiting ctx, Suspend_begin mo ctx d) else (Running, d))"

text \<open>The body of the loop of \<^verbatim>\<open>Suspend\<close>, after the wait and with the mutex.\<close>

definition Suspend_woken :: "'m managed_ops \<Rightarrow> pause_context \<Rightarrow> ('w, 'm) dthread \<Rightarrow> app_pc \<times> ('w, 'm) dthread" where
  "Suspend_woken mo ctx d =
     (let d = dt_assert (dt_suspended d = (dt_request d \<noteq> None)) d;
          d = (case dt_request d of
                 None \<Rightarrow> d
               | Some k \<Rightarrow> d\<lparr>dt_done := dt_done d @ [k], dt_request := None, dt_managed := mt_Suspend mo (dt_managed d)\<rparr>)
      in if dt_suspended d then (Waiting ctx, d) else pause_loop mo ctx d)"

definition DebuggableThread_OnException ::
  "'m managed_ops \<Rightarrow> bool \<Rightarrow> object_header option \<Rightarrow> ('w, 'm) dthread \<Rightarrow> app_pc \<times> ('w, 'm) dthread" where
  "DebuggableThread_OnException mo uncaught exception d =
     (if evaluating (snd (snd (snd (dt_state d)))) then (Running, d)
      else pause_loop mo (AtException exception)
             (dt_update (ThreadState_OnException uncaught) (dt_assert (\<not> paused (dt_ts d)) d)))"

definition DebuggableThread_OnFramePop :: "('w, 'm) dthread \<Rightarrow> app_pc \<times> ('w, 'm) dthread" where
  "DebuggableThread_OnFramePop d =
     (if evaluating (snd (snd (snd (dt_state d)))) then (Running, d)
      else (Running, dt_update ThreadState_OnFramePop (dt_assert (\<not> paused (dt_ts d)) d)))"

definition DebuggableThread_OnMethodEntry :: "('w, 'm) dthread \<Rightarrow> bool \<times> app_pc \<times> ('w, 'm) dthread" where
  "DebuggableThread_OnMethodEntry d =
     (if evaluating (snd (snd (snd (dt_state d)))) then (False, Running, d)
      else (fst (ThreadState_OnMethodEntry (dt_ts d)), Running,
            dt_update (snd \<circ> ThreadState_OnMethodEntry) (dt_assert (\<not> paused (dt_ts d)) d)))"

definition DebuggableThread_OnSingleStep ::
  "'w debugger_ops \<Rightarrow> 'm managed_ops \<Rightarrow> pt_location \<Rightarrow> ('w, 'm) dthread \<Rightarrow> (app_pc \<times> ('w, 'm) dthread) option" where
  "DebuggableThread_OnSingleStep ops mo location d =
     (if evaluating (snd (snd (snd (dt_state d)))) then Some (Running, d)
      else let d = dt_assert (\<not> paused (dt_ts d)) d
           in case ThreadState_OnSingleStep ops location (dt_state d) of
                None \<Rightarrow> None
              | Some st \<Rightarrow> Some (pause_loop mo (AtStep location) (d\<lparr>dt_state := st\<rparr>)))"

section \<open>Interleavings\<close>

datatype server_pc = Idle | Awaiting nat

text \<open>The threads, the object, and the requests the server has had answers to, with the answers.\<close>

record ('w, 'm) system =
  sy_app :: app_pc
  sy_server :: server_pc
  sy_thread :: "('w, 'm) dthread"
  sy_next :: nat
  sy_results :: "(nat \<times> bool) list"

inductive app_step :: "'w debugger_ops \<Rightarrow> 'm managed_ops \<Rightarrow> ('w, 'm) system \<Rightarrow> ('w, 'm) system \<Rightarrow> bool" for ops mo where
  on_exception: "sy_app y = Running \<Longrightarrow> DebuggableThread_OnException mo uncaught e (sy_thread y) = (pc, d) \<Longrightarrow>
    app_step ops mo y (y\<lparr>sy_app := pc, sy_thread := d\<rparr>)"
| on_frame_pop: "sy_app y = Running \<Longrightarrow> DebuggableThread_OnFramePop (sy_thread y) = (pc, d) \<Longrightarrow>
    app_step ops mo y (y\<lparr>sy_app := pc, sy_thread := d\<rparr>)"
| on_method_entry: "sy_app y = Running \<Longrightarrow> DebuggableThread_OnMethodEntry (sy_thread y) = (b, pc, d) \<Longrightarrow>
    app_step ops mo y (y\<lparr>sy_app := pc, sy_thread := d\<rparr>)"
| break_on_start: "sy_app y = Running \<Longrightarrow>
    app_step ops mo y (y\<lparr>sy_thread := DebuggableThread_BreakOnStart (sy_thread y)\<rparr>)"
| on_single_step: "sy_app y = Running \<Longrightarrow> DebuggableThread_OnSingleStep ops mo l (sy_thread y) = Some (pc, d) \<Longrightarrow>
    app_step ops mo y (y\<lparr>sy_app := pc, sy_thread := d\<rparr>)"
| wakes: "sy_app y = Waiting ctx \<Longrightarrow> \<not> mt_IsSuspended mo (dt_managed (sy_thread y)) \<Longrightarrow>
    app_step ops mo y (y\<lparr>sy_app := Woken ctx\<rparr>)"
| locks: "sy_app y = Woken ctx \<Longrightarrow> Suspend_woken mo ctx (sy_thread y) = (pc, d) \<Longrightarrow>
    app_step ops mo y (y\<lparr>sy_app := pc, sy_thread := d\<rparr>)"

inductive dt_server_call :: "'m managed_ops \<Rightarrow> ('w, 'm) dthread \<Rightarrow> ('w, 'm) dthread \<Rightarrow> bool" for mo d where
  "dt_server_call mo d (DebuggableThread_Reset d)"
| "dt_server_call mo d (DebuggableThread_Continue mo d)"
| "dt_server_call mo d (DebuggableThread_ContinueTo mo L d)"
| "dt_server_call mo d (DebuggableThread_StepInto mo L d)"
| "dt_server_call mo d (DebuggableThread_StepOver mo L d)"
| "dt_server_call mo d (DebuggableThread_StepOut mo d)"
| "dt_server_call mo d (DebuggableThread_Touch mo d)"
| "dt_server_call mo d (DebuggableThread_Pause d)"
| "dt_server_call mo d (DebuggableThread_SetSkipAllPauses b d)"
| "dt_server_call mo d (DebuggableThread_SetPauseOnExceptions x d)"

inductive dt_server_step :: "'m managed_ops \<Rightarrow> ('w, 'm) system \<Rightarrow> ('w, 'm) system \<Rightarrow> bool" for mo where
  calls: "sy_server y = Idle \<Longrightarrow> dt_server_call mo (sy_thread y) d \<Longrightarrow> dt_server_step mo y (y\<lparr>sy_thread := d\<rparr>)"
| refused: "sy_server y = Idle \<Longrightarrow> Request_begin mo (sy_next y) (sy_thread y) = (Inl r, d) \<Longrightarrow>
    dt_server_step mo y (y\<lparr>sy_thread := d, sy_next := Suc (sy_next y), sy_results := sy_results y @ [(sy_next y, r)]\<rparr>)"
| requests: "sy_server y = Idle \<Longrightarrow> Request_begin mo (sy_next y) (sy_thread y) = (Inr u, d) \<Longrightarrow>
    dt_server_step mo y (y\<lparr>sy_thread := d, sy_next := Suc (sy_next y), sy_server := Awaiting (sy_next y)\<rparr>)"
| returns: "sy_server y = Awaiting k \<Longrightarrow> dt_request (sy_thread y) = None \<Longrightarrow> Request_end mo (sy_thread y) = (r, d) \<Longrightarrow>
    dt_server_step mo y (y\<lparr>sy_thread := d, sy_server := Idle, sy_results := sy_results y @ [(k, r)]\<rparr>)"

text \<open>Another application thread that hits a breakpoint pauses this one (\<^verbatim>\<open>PauseOtherThreads\<close>).\<close>

inductive sys_reach :: "'w debugger_ops \<Rightarrow> 'm managed_ops \<Rightarrow> ('w, 'm) system \<Rightarrow> ('w, 'm) system \<Rightarrow> bool" for ops mo y where
  start: "sys_reach ops mo y y"
| app: "sys_reach ops mo y z \<Longrightarrow> app_step ops mo z z' \<Longrightarrow> sys_reach ops mo y z'"
| server: "sys_reach ops mo y z \<Longrightarrow> dt_server_step mo z z' \<Longrightarrow> sys_reach ops mo y z'"
| other: "sys_reach ops mo y z \<Longrightarrow> sys_reach ops mo y (z\<lparr>sy_thread := DebuggableThread_Pause (sy_thread z)\<rparr>)"

definition DebuggableThread_new :: "hybrid_stepper \<Rightarrow> 'w bp_state \<Rightarrow> 'm \<Rightarrow> ('w, 'm) dthread" where
  "DebuggableThread_new h bps m = \<lparr>dt_state = (ThreadState_new, h, bps), dt_suspended = False, dt_request = None,
     dt_managed = m, dt_done = [], dt_callbacks = [], dt_failed = False\<rparr>"

definition system_new :: "hybrid_stepper \<Rightarrow> 'w bp_state \<Rightarrow> 'm \<Rightarrow> ('w, 'm) system" where
  "system_new h bps m =
     \<lparr>sy_app = Running, sy_server = Idle, sy_thread = DebuggableThread_new h bps m, sy_next = 0, sy_results = []\<rparr>"

section \<open>What every interleaving keeps\<close>

definition managed_rel :: "'m managed_ops \<Rightarrow> ('w, 'm) dthread \<Rightarrow> bool" where
  "managed_rel mo d \<longleftrightarrow>
     (if dt_suspended d \<and> dt_request d = None
      then \<exists>m. \<not> mt_IsSuspended mo m \<and> dt_managed d = mt_Suspend mo m
      else \<not> mt_IsSuspended mo (dt_managed d))"

text \<open>The object: a suspended thread is paused, a request is only pending on a suspended one, the
  managed thread sleeps exactly when it is suspended and has no request, and no assertion failed.\<close>

definition thread_ok :: "'m managed_ops \<Rightarrow> ('w, 'm) dthread \<Rightarrow> bool" where
  "thread_ok mo d \<longleftrightarrow> \<not> dt_failed d \<and> (dt_suspended d \<longrightarrow> paused (dt_ts d)) \<and>
     (dt_request d \<noteq> None \<longrightarrow> dt_suspended d) \<and> managed_rel mo d"

fun app_ok :: "app_pc \<Rightarrow> ('w, 'm) dthread \<Rightarrow> bool" where
  "app_ok Running d = (\<not> paused (dt_ts d))"
| "app_ok (Waiting ctx) d = True"
| "app_ok (Woken ctx) d = (dt_suspended d = (dt_request d \<noteq> None))"

fun server_ok :: "server_pc \<Rightarrow> ('w, 'm) dthread \<Rightarrow> bool" where
  "server_ok Idle d = (dt_request d = None)"
| "server_ok (Awaiting k) d = (dt_suspended d \<and> dt_request d \<in> {None, Some k})"

lemmas dt_defs = dt_assert_def dt_call_def dt_update_def dt_update2_def

lemma managed_suspended:
  assumes "managed_ok mo" "managed_rel mo d" "dt_suspended d" "dt_request d = None"
  shows "mt_IsSuspended mo (dt_managed d)" "\<not> mt_IsSuspended mo (mt_Resume mo (dt_managed d))"
proof -
  obtain m where m: "\<not> mt_IsSuspended mo m" "dt_managed d = mt_Suspend mo m"
    using assms(2-4) by (auto simp: managed_rel_def)
  from assms(1) have "\<not> mt_IsSuspended mo m \<longrightarrow>
      mt_IsSuspended mo (mt_Suspend mo m) \<and> \<not> mt_IsSuspended mo (mt_Resume mo (mt_Suspend mo m))"
    unfolding managed_ok_def by (rule spec)
  then show "mt_IsSuspended mo (dt_managed d)" "\<not> mt_IsSuspended mo (mt_Resume mo (dt_managed d))"
    using m by simp_all
qed

lemma Resume_ok:
  assumes "managed_ok mo" "\<not> dt_failed d" "dt_request d = None" "managed_rel mo d"
  shows "thread_ok mo (DebuggableThread_Resume mo d) \<and> dt_request (DebuggableThread_Resume mo d) = None \<and>
    \<not> dt_suspended (DebuggableThread_Resume mo d) \<and> dt_state (DebuggableThread_Resume mo d) = dt_state d \<and>
    dt_done (DebuggableThread_Resume mo d) = dt_done d"
  using assms managed_suspended [OF assms(1,4)]
  by (auto simp: DebuggableThread_Resume_def thread_ok_def managed_rel_def Let_def dt_defs)

lemma dt_update2_fields [simp]:
  "dt_suspended (dt_update2 f d) = dt_suspended d" "dt_request (dt_update2 f d) = dt_request d"
  "dt_managed (dt_update2 f d) = dt_managed d" "dt_done (dt_update2 f d) = dt_done d"
  "dt_failed (dt_update2 f d) = dt_failed d" "dt_ts (dt_update2 f d) = fst (f (dt_ts d, fst (snd (dt_state d))))"
  by (simp_all add: dt_update2_def case_prod_beta)

lemma dt_update_fields [simp]:
  "dt_suspended (dt_update f d) = dt_suspended d" "dt_request (dt_update f d) = dt_request d"
  "dt_managed (dt_update f d) = dt_managed d" "dt_done (dt_update f d) = dt_done d"
  "dt_failed (dt_update f d) = dt_failed d" "dt_ts (dt_update f d) = f (dt_ts d)"
  by (simp_all add: dt_update_def case_prod_beta)

lemma managed_rel_update [simp]:
  "managed_rel mo (dt_update2 f d) = managed_rel mo d" "managed_rel mo (dt_update g d) = managed_rel mo d"
  by (simp_all add: managed_rel_def)

text \<open>A call that resumes a thread whose state it has changed, or one that only changes it without
  pausing or unpausing, keeps the object in order.\<close>

lemma resuming_ok:
  assumes "managed_ok mo" "thread_ok mo d" "dt_request d = None" "d' = DebuggableThread_Resume mo (dt_update2 f d)"
    and "\<And>s. \<not> paused (fst (f s))"
  shows "thread_ok mo d' \<and> dt_request d' = None \<and> \<not> dt_suspended d' \<and> \<not> paused (dt_ts d') \<and> dt_done d' = dt_done d"
  using Resume_ok [of mo "dt_update2 f d"] assms by (simp add: thread_ok_def)

lemma dt_server_call_ok:
  assumes "managed_ok mo" "thread_ok mo d" "dt_request d = None" "dt_server_call mo d d'"
  shows "thread_ok mo d' \<and> dt_request d' = None \<and> (paused (dt_ts d') \<longrightarrow> paused (dt_ts d)) \<and>
    (dt_suspended d' \<longrightarrow> dt_suspended d) \<and> dt_done d' = dt_done d"
  using assms(4)
proof cases
  case 1
  then show ?thesis using assms by (simp add: thread_ok_def DebuggableThread_Reset_def ThreadState_Reset_def)
next
  case 2
  then show ?thesis using resuming_ok [OF assms(1-3), of d' ThreadState_Continue]
    by (auto simp: DebuggableThread_Continue_def ThreadState_Continue_def)
next
  case (3 L)
  then show ?thesis using resuming_ok [OF assms(1-3), of d' "ThreadState_ContinueTo L"]
    by (auto simp: DebuggableThread_ContinueTo_def ThreadState_ContinueTo_def)
next
  case (4 L)
  then show ?thesis using resuming_ok [OF assms(1-3), of d' "ThreadState_StepInto L"]
    by (auto simp: DebuggableThread_StepInto_def ThreadState_StepInto_def)
next
  case (5 L)
  then show ?thesis using resuming_ok [OF assms(1-3), of d' "ThreadState_StepOver L"]
    by (auto simp: DebuggableThread_StepOver_def ThreadState_StepOver_def)
next
  case 6
  then show ?thesis using resuming_ok [OF assms(1-3), of d' ThreadState_StepOut]
    by (auto simp: DebuggableThread_StepOut_def ThreadState_StepOut_def)
next
  case 7
  then show ?thesis using Resume_ok [of mo d] assms by (simp add: DebuggableThread_Touch_def thread_ok_def)
next
  case 8
  then show ?thesis using assms by (simp add: thread_ok_def DebuggableThread_Pause_def ThreadState_Pause_def)
next
  case (9 b)
  then show ?thesis using assms
    by (simp add: thread_ok_def DebuggableThread_SetSkipAllPauses_def ThreadState_SetSkipAllPauses_def)
next
  case (10 x)
  then show ?thesis using assms
    by (simp add: thread_ok_def DebuggableThread_SetPauseOnExceptions_def ThreadState_SetPauseOnExceptions_def)
qed

text \<open>Pausing a running thread suspends it; leaving the loop leaves it running.\<close>

lemma pause_loop_ok:
  assumes "managed_ok mo" "\<not> dt_failed d" "\<not> dt_suspended d" "dt_request d = None"
    "\<not> mt_IsSuspended mo (dt_managed d)" "pause_loop mo ctx d = (pc, d')"
  shows "thread_ok mo d' \<and> app_ok pc d' \<and> dt_request d' = None \<and> dt_done d' = dt_done d"
  using assms(2-)
  by (auto simp: pause_loop_def Suspend_begin_def thread_ok_def managed_rel_def Let_def dt_defs split: if_splits)

lemma Suspend_woken_ok:
  assumes "managed_ok mo" "thread_ok mo d" "app_ok (Woken ctx) d" "Suspend_woken mo ctx d = (pc, d')"
  shows "thread_ok mo d' \<and> app_ok pc d' \<and> dt_request d' = None \<and> (dt_suspended d \<longrightarrow> dt_suspended d') \<and>
    dt_done d' = dt_done d @ (case dt_request d of None \<Rightarrow> [] | Some k \<Rightarrow> [k])"
proof (cases "dt_request d")
  case None
  then have "\<not> dt_suspended d" using assms(3) by simp
  then show ?thesis using assms None pause_loop_ok [OF assms(1), of d ctx pc d']
    by (simp add: Suspend_woken_def thread_ok_def managed_rel_def dt_defs)
next
  case (Some k)
  then show ?thesis using assms
    by (auto simp: Suspend_woken_def thread_ok_def managed_rel_def dt_defs split: prod.splits)
qed

text \<open>The requests: each is answered once and in order, and the ones answered with success are the
  ones the application thread has run.\<close>

definition requests_ok :: "('w, 'm) system \<Rightarrow> bool" where
  "requests_ok y \<longleftrightarrow> (case sy_server y of
     Idle \<Rightarrow> map fst (sy_results y) = [0..<sy_next y] \<and>
       dt_done (sy_thread y) = map fst (filter snd (sy_results y))
   | Awaiting k \<Rightarrow> sy_next y = Suc k \<and> map fst (sy_results y) = [0..<k] \<and>
       dt_done (sy_thread y) = map fst (filter snd (sy_results y)) @ (if dt_request (sy_thread y) = None then [k] else []))"

definition sys_ok :: "'m managed_ops \<Rightarrow> ('w, 'm) system \<Rightarrow> bool" where
  "sys_ok mo y \<longleftrightarrow> thread_ok mo (sy_thread y) \<and> app_ok (sy_app y) (sy_thread y) \<and>
     server_ok (sy_server y) (sy_thread y) \<and> requests_ok y"

lemma sys_ok_new: "\<not> mt_IsSuspended mo m \<Longrightarrow> sys_ok mo (system_new h bps m)"
  by (simp add: sys_ok_def system_new_def DebuggableThread_new_def thread_ok_def managed_rel_def requests_ok_def
      ThreadState_new_def)

text \<open>A running thread is not suspended, has no request and its managed thread runs.\<close>

lemma sys_ok_running:
  assumes "sys_ok mo y" "sy_app y = Running"
  shows "\<not> dt_failed (sy_thread y)" "\<not> paused (dt_ts (sy_thread y))" "\<not> dt_suspended (sy_thread y)"
    "dt_request (sy_thread y) = None" "\<not> mt_IsSuspended mo (dt_managed (sy_thread y))" "sy_server y = Idle"
  using assms by (cases "sy_server y"; auto simp: sys_ok_def thread_ok_def managed_rel_def)+

text \<open>Events that leave the pausing of a running thread to the loop.\<close>

lemma running_pause_ok:
  assumes "managed_ok mo" "sys_ok mo y" "sy_app y = Running"
    and "\<not> dt_failed d" "\<not> dt_suspended d" "dt_request d = None" "dt_managed d = dt_managed (sy_thread y)"
    "dt_done d = dt_done (sy_thread y)" "pause_loop mo ctx d = (pc, d')"
  shows "sys_ok mo (y\<lparr>sy_app := pc, sy_thread := d'\<rparr>)"
proof -
  note r = sys_ok_running [OF assms(2,3)]
  have "thread_ok mo d' \<and> app_ok pc d' \<and> dt_request d' = None \<and> dt_done d' = dt_done d"
    by (rule pause_loop_ok [OF assms(1,4-6) _ assms(9)]) (use r(5) assms(7) in simp)
  then show ?thesis using assms(2,8) r(6) by (simp add: sys_ok_def requests_ok_def)
qed

text \<open>Events that do not pause.\<close>

lemma running_update_ok:
  assumes "sys_ok mo y" "sy_app y = Running" "\<And>t. \<not> paused t \<Longrightarrow> \<not> paused (f t)"
  shows "sys_ok mo (y\<lparr>sy_thread := dt_update f (sy_thread y)\<rparr>)"
  using assms sys_ok_running [OF assms(1,2)]
  by (simp add: sys_ok_def requests_ok_def thread_ok_def)

lemma dt_assert_True [simp]: "dt_assert True d = d"
  by (simp add: dt_assert_def)

lemma system_same:
  "sy_app y = pc \<Longrightarrow> y\<lparr>sy_app := pc, sy_thread := d\<rparr> = y\<lparr>sy_thread := d\<rparr>" "y\<lparr>sy_thread := sy_thread y\<rparr> = y"
  by (cases y; simp)+

lemma app_step_ok:
  assumes "managed_ok mo" "sys_ok mo y" "app_step ops mo y z"
  shows "sys_ok mo z"
  using assms(3)
proof cases
  case (on_exception uncaught e pc d)
  note r = sys_ok_running [OF assms(2) on_exception(2)]
  show ?thesis
  proof (cases "evaluating (snd (snd (snd (dt_state (sy_thread y)))))")
    case True
    then show ?thesis using on_exception assms(2) by (auto simp: DebuggableThread_OnException_def system_same)
  next
    case False
    then show ?thesis using on_exception r
      running_pause_ok [OF assms(1,2) on_exception(2), of "dt_update (ThreadState_OnException uncaught) (sy_thread y)"]
      by (simp add: DebuggableThread_OnException_def)
  qed
next
  case (on_frame_pop pc d)
  note r = sys_ok_running [OF assms(2) on_frame_pop(2)]
  have "sys_ok mo (y\<lparr>sy_thread := dt_update ThreadState_OnFramePop (sy_thread y)\<rparr>)"
    by (rule running_update_ok [OF assms(2) on_frame_pop(2)])
       (simp add: ThreadState_OnFramePop_def split: StepKind.splits)
  then show ?thesis using on_frame_pop r assms(2) by (auto simp: DebuggableThread_OnFramePop_def system_same split: if_splits)
next
  case (on_method_entry b pc d)
  note r = sys_ok_running [OF assms(2) on_method_entry(2)]
  have "sys_ok mo (y\<lparr>sy_thread := dt_update (snd \<circ> ThreadState_OnMethodEntry) (sy_thread y)\<rparr>)"
    by (rule running_update_ok [OF assms(2) on_method_entry(2)])
       (simp add: ThreadState_OnMethodEntry_def split: StepKind.splits)
  then show ?thesis using on_method_entry r assms(2) by (auto simp: DebuggableThread_OnMethodEntry_def system_same split: if_splits)
next
  case break_on_start
  then show ?thesis
    using running_update_ok [OF assms(2), of ThreadState_BreakOnStart]
    by (simp add: DebuggableThread_BreakOnStart_def ThreadState_BreakOnStart_def)
next
  case (on_single_step l pc d)
  note r = sys_ok_running [OF assms(2) on_single_step(2)]
  show ?thesis
  proof (cases "evaluating (snd (snd (snd (dt_state (sy_thread y)))))")
    case True
    then show ?thesis using on_single_step assms(2) by (auto simp: DebuggableThread_OnSingleStep_def system_same)
  next
    case False
    then obtain st where "pause_loop mo (AtStep l) ((sy_thread y)\<lparr>dt_state := st\<rparr>) = (pc, d)"
      using on_single_step(3) r by (auto simp: DebuggableThread_OnSingleStep_def Let_def split: option.splits)
    then show ?thesis using on_single_step(1) r
        running_pause_ok [OF assms(1,2) on_single_step(2), of "(sy_thread y)\<lparr>dt_state := st\<rparr>" "AtStep l" pc d] by simp
  qed
next
  case (wakes ctx)
  then have "dt_suspended (sy_thread y) = (dt_request (sy_thread y) \<noteq> None)"
    using assms(2) managed_suspended(1) [OF assms(1), of "sy_thread y"]
    by (auto simp: sys_ok_def thread_ok_def)
  then show ?thesis using wakes assms(2) by (cases "sy_server y") (simp_all add: sys_ok_def requests_ok_def)
next
  case (locks ctx pc d)
  have "thread_ok mo d \<and> app_ok pc d \<and> dt_request d = None \<and> (dt_suspended (sy_thread y) \<longrightarrow> dt_suspended d) \<and>
    dt_done d = dt_done (sy_thread y) @ (case dt_request (sy_thread y) of None \<Rightarrow> [] | Some k \<Rightarrow> [k])"
    by (rule Suspend_woken_ok [OF assms(1) _ _ locks(3)]) (use assms(2) locks(2) in \<open>simp_all add: sys_ok_def\<close>)
  then show ?thesis using locks(1) assms(2)
    by (cases "sy_server y") (auto simp: sys_ok_def requests_ok_def)
qed

lemma dt_server_step_ok:
  assumes "managed_ok mo" "sys_ok mo y" "dt_server_step mo y z"
  shows "sys_ok mo z"
  using assms(3)
proof cases
  case (calls d)
  have "thread_ok mo d \<and> dt_request d = None \<and> (paused (dt_ts d) \<longrightarrow> paused (dt_ts (sy_thread y))) \<and>
    (dt_suspended d \<longrightarrow> dt_suspended (sy_thread y)) \<and> dt_done d = dt_done (sy_thread y)"
    by (rule dt_server_call_ok [OF assms(1) _ _ calls(3)]) (use assms(2) calls(2) in \<open>simp_all add: sys_ok_def\<close>)
  then show ?thesis using calls(1,2) assms(2)
    by (cases "sy_app y") (auto simp: sys_ok_def requests_ok_def)
next
  case (refused r d)
  then have "d = sy_thread y" "r = False"
    using assms(2) by (auto simp: Request_begin_def sys_ok_def Let_def split: if_splits)
  then show ?thesis using refused(1,2) assms(2) by (simp add: sys_ok_def requests_ok_def)
next
  case (requests u d)
  then have s: "dt_suspended (sy_thread y)" "dt_request (sy_thread y) = None" "managed_rel mo (sy_thread y)"
    using assms(2) by (auto simp: Request_begin_def sys_ok_def thread_ok_def Let_def split: if_splits)
  note m = managed_suspended [OF assms(1) s(3,1,2)]
  have "d = (sy_thread y)\<lparr>dt_request := Some (sy_next y), dt_managed := mt_Resume mo (dt_managed (sy_thread y))\<rparr>"
    using requests(3) s m by (simp add: Request_begin_def Let_def)
  moreover have "sy_app y \<noteq> Running" using s(1) sys_ok_running(3) [OF assms(2)] by auto
  ultimately show ?thesis using requests(1,2) assms(2) s m
    by (cases "sy_app y") (simp_all add: sys_ok_def requests_ok_def thread_ok_def managed_rel_def)
next
  case (returns k r d)
  then have "mt_IsSuspended mo (dt_managed (sy_thread y))" "dt_suspended (sy_thread y)"
    using assms(2) managed_suspended(1) [OF assms(1), of "sy_thread y"] by (auto simp: sys_ok_def thread_ok_def)
  then have "d = sy_thread y" "r" using returns(4) by (auto simp: Request_end_def)
  then show ?thesis using returns(1-3) assms(2) by (simp add: sys_ok_def requests_ok_def)
qed

text \<open>A change of the thread state that neither pauses nor unpauses changes nothing here.\<close>

lemma update_ok:
  assumes "sys_ok mo y" "\<And>t. paused (f t) = paused t"
  shows "sys_ok mo (y\<lparr>sy_thread := dt_update f (sy_thread y)\<rparr>)"
proof -
  have "app_ok (sy_app y) (dt_update f (sy_thread y)) = app_ok (sy_app y) (sy_thread y)"
    by (cases "sy_app y"; simp add: assms(2))
  then show ?thesis using assms by (cases "sy_server y") (simp_all add: sys_ok_def requests_ok_def thread_ok_def)
qed

lemma sys_reach_ok:
  assumes "sys_reach ops mo y z" "managed_ok mo" "sys_ok mo y"
  shows "sys_ok mo z"
  using assms
proof (induction rule: sys_reach.induct)
  case (app z z')
  then show ?case by (metis app_step_ok)
next
  case (server z z')
  then show ?case by (metis dt_server_step_ok)
next
  case (other z)
  then show ?case
    unfolding DebuggableThread_Pause_def by (intro update_ok) (simp_all add: ThreadState_Pause_def)
qed

text \<open>
  C28. In every interleaving of an application thread's events with the calls of the server thread
  and the pauses other threads ask for, no assertion of \<^verbatim>\<open>DebuggableThread\<close> fails, and the state its
  comment calls invalid, suspended and not paused, never arises.
\<close>

theorem debuggable_thread_asserts:
  assumes "managed_ok mo" "\<not> mt_IsSuspended mo m" "sys_reach ops mo (system_new h bps m) z"
  shows "\<not> dt_failed (sy_thread z) \<and> \<not> (dt_suspended (sy_thread z) \<and> \<not> paused (dt_ts (sy_thread z)))"
  using sys_reach_ok [OF assms(3,1) sys_ok_new [OF assms(2)]] by (simp add: sys_ok_def thread_ok_def)

text \<open>
  C29. The server's requests to the object repository: they are answered one after the other in the
  order they were made, and those answered with success are, in that order, exactly the ones the
  application thread has run, each once (but for one that is run and whose answer is not yet read).
\<close>

theorem object_requests_exact:
  assumes "managed_ok mo" "\<not> mt_IsSuspended mo m" "sys_reach ops mo (system_new h bps m) z"
  shows "case sy_server z of
      Idle \<Rightarrow> map fst (sy_results z) = [0..<sy_next z] \<and>
        dt_done (sy_thread z) = map fst (filter snd (sy_results z))
    | Awaiting k \<Rightarrow> map fst (sy_results z) = [0..<k] \<and>
        dt_done (sy_thread z) = map fst (filter snd (sy_results z)) @ (if dt_request (sy_thread z) = None then [k] else [])"
  using sys_reach_ok [OF assms(3,1) sys_ok_new [OF assms(2)]]
  by (cases "sy_server z") (simp_all add: sys_ok_def requests_ok_def)

text \<open>The steps the application thread needs until the request is run.\<close>

fun steps_left :: "('w, 'm) system \<Rightarrow> nat" where
  "steps_left z = (if dt_request (sy_thread z) = None then 0 else case sy_app z of Waiting ctx \<Rightarrow> 2 | _ \<Rightarrow> 1)"

text \<open>A request that has not been run: the application thread waits or has just been woken, it can
  make a step, and its steps bring the run nearer.\<close>

lemma request_steps:
  assumes "managed_ok mo" "sys_ok mo z" "sy_server z = Awaiting k" "dt_request (sy_thread z) \<noteq> None"
  shows "0 < steps_left z \<and> steps_left z \<le> 2" "\<exists>z'. app_step ops mo z z'"
    "app_step ops mo z z' \<Longrightarrow> steps_left z' < steps_left z"
proof -
  have susp: "dt_suspended (sy_thread z)" and "managed_rel mo (sy_thread z)"
    using assms(2,3) by (auto simp: sys_ok_def thread_ok_def)
  then have run: "\<not> mt_IsSuspended mo (dt_managed (sy_thread z))" using assms(4) by (simp add: managed_rel_def)
  show "0 < steps_left z \<and> steps_left z \<le> 2" using assms(4) by (cases "sy_app z") simp_all
  show "\<exists>z'. app_step ops mo z z'"
  proof (cases "sy_app z")
    case Running
    then show ?thesis using sys_ok_running(3) [OF assms(2)] susp by blast
  next
    case (Waiting ctx)
    then show ?thesis by (intro exI) (rule app_step.wakes [OF _ run])
  next
    case (Woken ctx)
    moreover obtain pc d where "Suspend_woken mo ctx (sy_thread z) = (pc, d)"
      by (cases "Suspend_woken mo ctx (sy_thread z)")
    ultimately show ?thesis by (intro exI) (rule app_step.locks)
  qed
  show "steps_left z' < steps_left z" if "app_step ops mo z z'"
    using that
  proof cases
    case (wakes ctx)
    then show ?thesis using assms(4) by simp
  next
    case (locks ctx pc d)
    then have "dt_request d = None"
      using Suspend_woken_ok [OF assms(1) _ _ locks(3)] assms(2) by (simp add: sys_ok_def)
    then show ?thesis using locks assms(4) by simp
  qed (use sys_ok_running(3) [OF assms(2)] susp in blast)+
qed

lemma request_returns:
  assumes "managed_ok mo" "sys_ok mo z" "sy_server z = Awaiting k" "dt_request (sy_thread z) = None"
  shows "\<exists>z'. dt_server_step mo z z' \<and> sy_results z' = sy_results z @ [(k, True)] \<and> sy_server z' = Idle"
proof -
  have "managed_rel mo (sy_thread z)" "dt_suspended (sy_thread z)"
    using assms(2,3) by (auto simp: sys_ok_def thread_ok_def)
  then have "Request_end mo (sy_thread z) = (True, sy_thread z)"
    using managed_suspended(1) [OF assms(1) _ _ assms(4)] by (simp add: Request_end_def)
  from dt_server_step.returns [OF assms(3,4) this] show ?thesis by (intro exI conjI, assumption) simp_all
qed


section \<open>A run\<close>

text \<open>A thread entered from the dynamic runtime by a step: it pauses at its first instruction, and
  the server asks for a request.\<close>

definition sample_managed :: "bool managed_ops" where
  "sample_managed = \<lparr>mt_Suspend = (\<lambda>_. True), mt_Resume = (\<lambda>_. False), mt_IsSuspended = (\<lambda>m. m)\<rparr>"

definition sample_system :: "(unit, bool) system" where
  "sample_system = system_new \<lparr>dynamicToStatic = True, staticToDynamic = False\<rparr>
     (sample_storage, \<lparr>evaluating = False, ev_thread = ()\<rparr>) False"

definition sample_stopped :: "(unit, bool) system" where
  "sample_stopped = (case DebuggableThread_OnSingleStep sample_ops sample_managed (location_of sample_file 7 4)
       (sy_thread sample_system) of
     Some (pc, d) \<Rightarrow> sample_system\<lparr>sy_app := pc, sy_thread := d\<rparr> | None \<Rightarrow> sample_system)"

definition sample_asked :: "(unit, bool) system" where
  "sample_asked = sample_stopped\<lparr>sy_thread := snd (Request_begin sample_managed 0 (sy_thread sample_stopped)),
     sy_next := 1, sy_server := Awaiting 0\<rparr>"

definition sample_run_request :: "(unit, bool) system" where
  "sample_run_request = sample_asked\<lparr>sy_app := fst (Suspend_woken sample_managed (AtStep (location_of sample_file 7 4)) (sy_thread sample_asked)),
     sy_thread := snd (Suspend_woken sample_managed (AtStep (location_of sample_file 7 4)) (sy_thread sample_asked))\<rparr>"

lemmas sample_system_defs = sample_managed_def sample_system_def system_new_def DebuggableThread_new_def ThreadState_new_def
  DebuggableThread_OnSingleStep_def ThreadState_OnSingleStep_def
  pause_loop_def Suspend_begin_def Request_begin_def Suspend_woken_def dt_defs Let_def

lemma sample_managed_ok: "managed_ok sample_managed" "\<not> mt_IsSuspended sample_managed False"
  by (simp_all add: managed_ok_def sample_managed_def)

lemma sample_stopped_reach: "sys_reach sample_ops sample_managed sample_system sample_stopped"
proof -
  have "sy_app sample_system = Running" by (simp add: sample_system_def system_new_def)
  from app_step.on_single_step [OF this] show ?thesis
    unfolding sample_stopped_def
    by (auto split: option.splits intro: sys_reach.app [OF sys_reach.start] sys_reach.start)
qed

lemma sample_stopped_state:
  "sy_app sample_stopped = Waiting (AtStep (location_of sample_file 7 4))" "sy_server sample_stopped = Idle"
  "sy_next sample_stopped = 0" "sy_results sample_stopped = []" "dt_suspended (sy_thread sample_stopped)"
  "dt_request (sy_thread sample_stopped) = None" "dt_managed (sy_thread sample_stopped)"
  "dt_done (sy_thread sample_stopped) = []"
  by (simp_all add: sample_stopped_def sample_system_defs)

lemma sample_asked_state:
  "sy_app sample_asked = Waiting (AtStep (location_of sample_file 7 4))" "sy_server sample_asked = Awaiting 0"
  "dt_suspended (sy_thread sample_asked)" "dt_request (sy_thread sample_asked) = Some 0" "\<not> dt_managed (sy_thread sample_asked)"
  "dt_done (sy_thread sample_asked) = []" "sy_results sample_asked = []"
  by (simp_all add: sample_asked_def sample_stopped_state Request_begin_def Let_def dt_defs sample_managed_def)

lemma sample_asked_reach: "sys_reach sample_ops sample_managed sample_system sample_asked"
proof (rule sys_reach.server [OF sample_stopped_reach])
  have "Request_begin sample_managed (sy_next sample_stopped) (sy_thread sample_stopped) =
      (Inr (), snd (Request_begin sample_managed 0 (sy_thread sample_stopped)))"
    by (simp add: Request_begin_def Let_def dt_defs sample_stopped_state)
  from dt_server_step.requests [OF sample_stopped_state(2) this]
  show "dt_server_step sample_managed sample_stopped sample_asked"
    by (simp add: sample_asked_def sample_stopped_state)
qed

lemma sample_run_request_reach: "sys_reach sample_ops sample_managed sample_system sample_run_request"
proof -
  have "app_step sample_ops sample_managed sample_asked
      (sample_asked\<lparr>sy_app := Woken (AtStep (location_of sample_file 7 4))\<rparr>)" (is "app_step _ _ _ ?w")
    by (rule app_step.wakes [OF sample_asked_state(1)]) (simp add: sample_managed_def sample_asked_state)
  moreover have "app_step sample_ops sample_managed ?w
      (?w\<lparr>sy_app := fst (Suspend_woken sample_managed (AtStep (location_of sample_file 7 4)) (sy_thread ?w)),
        sy_thread := snd (Suspend_woken sample_managed (AtStep (location_of sample_file 7 4)) (sy_thread ?w))\<rparr>)"
    by (rule app_step.locks) simp_all
  ultimately show ?thesis
    using sys_reach.app [OF sys_reach.app [OF sample_asked_reach]] by (simp add: sample_run_request_def)
qed

lemma sample_run_request_state:
  "sy_server sample_run_request = Awaiting 0" "dt_request (sy_thread sample_run_request) = None"
  "dt_done (sy_thread sample_run_request) = [0]" "dt_suspended (sy_thread sample_run_request)"
  by (simp_all add: sample_run_request_def sample_asked_state Suspend_woken_def Let_def dt_defs)

theorem debuggable_thread_asserts_witness:
  "dt_suspended (sy_thread sample_asked) \<and> dt_request (sy_thread sample_asked) = Some 0 \<and>
   \<not> dt_failed (sy_thread sample_asked) \<and> paused (dt_ts (sy_thread sample_asked))"
  using debuggable_thread_asserts [OF sample_managed_ok sample_asked_reach [unfolded sample_system_def]]
  by (simp add: sample_asked_state)

theorem object_requests_exact_witness:
  "sys_reach sample_ops sample_managed sample_system sample_run_request \<and> map fst (sy_results sample_run_request) = [] \<and>
   dt_done (sy_thread sample_run_request) = map fst (filter snd (sy_results sample_run_request)) @ [0]"
  using object_requests_exact [OF sample_managed_ok sample_run_request_reach [unfolded sample_system_def]]
  by (simp add: sample_run_request_state sample_run_request_reach)


end
