(* ===== verification/Sessions.thy ===== *)
theory Sessions
  imports Std_Number "HOL-Library.List_Lexorder" "HOL-Library.Char_ord"
begin

text \<open>
  \<^verbatim>\<open>SessionManager\<close> (tooling/static/session_manager.h and .cpp), which gives every debugged thread
  the session id the protocol names it by, and \<^verbatim>\<open>SourceManager\<close> (tooling/static/source_manager.h and
  .cpp), which gives every source of every panda file a script id. A \<^verbatim>\<open>PtThread\<close> is a number, 0 for
  \<^verbatim>\<open>PtThread::NONE\<close>; the runtime's \<^verbatim>\<open>PtThread::GetId\<close> is the parameter \<open>tid\<close>.
\<close>

section \<open>Sessions\<close>

type_synonym pt_thread = nat

abbreviation (input) PtThread_NONE :: pt_thread where
  "PtThread_NONE \<equiv> 0"

text \<open>\<^verbatim>\<open>std::map\<close>: sorted by the key, an insertion does not replace.\<close>

type_synonym sessions = "(string \<times> pt_thread) list"

fun map_insert :: "'k::linorder \<Rightarrow> 'v \<Rightarrow> ('k \<times> 'v) list \<Rightarrow> ('k \<times> 'v) list" where
  "map_insert k v [] = [(k, v)]"
| "map_insert k v ((k', v') # m) =
     (if k = k' then (k', v') # m else if k < k' then (k, v) # (k', v') # m else (k', v') # map_insert k v m)"

definition AddSession :: "(pt_thread \<Rightarrow> nat) \<Rightarrow> pt_thread \<Rightarrow> sessions \<Rightarrow> string \<times> sessions" where
  "AddSession tid thread s =
     (let sid = (if s \<noteq> [] then to_string (tid thread) else '''') in (sid, map_insert sid thread s))"

definition RemoveSession :: "string \<Rightarrow> sessions \<Rightarrow> sessions" where
  "RemoveSession sid s = filter (\<lambda>p. fst p \<noteq> sid) s"

definition GetSessionIdByThread :: "(pt_thread \<Rightarrow> nat) \<Rightarrow> sessions \<Rightarrow> pt_thread \<Rightarrow> string" where
  "GetSessionIdByThread tid s thread =
     (if map_of s '''' = Some thread then '''' else to_string (tid thread))"

definition GetThreadBySessionId :: "sessions \<Rightarrow> string \<Rightarrow> pt_thread" where
  "GetThreadBySessionId s sid = (case map_of s sid of None \<Rightarrow> PtThread_NONE | Some thread \<Rightarrow> thread)"

definition EnumerateSessions :: "(string \<Rightarrow> pt_thread \<Rightarrow> 'a \<Rightarrow> 'a) \<Rightarrow> sessions \<Rightarrow> 'a \<Rightarrow> 'a" where
  "EnumerateSessions handler s a = fold (\<lambda>p. handler (fst p) (snd p)) s a"

definition GetAllSessions :: "sessions \<Rightarrow> string list" where
  "GetAllSessions s = map fst s"

lemma map_insert_new:
  assumes "k \<notin> fst ` set m"
  obtains a b where "m = a @ b" "map_insert k v m = a @ (k, v) # b"
proof -
  have "\<exists>a b. m = a @ b \<and> map_insert k v m = a @ (k, v) # b"
    using assms
  proof (induction m)
    case (Cons p m)
    then obtain a b where ab: "m = a @ b" "map_insert k v m = a @ (k, v) # b" by auto
    show ?case
    proof (cases "k < fst p")
      case True
      then show ?thesis using Cons.prems by (cases p) (auto intro: exI [of _ "[]"])
    next
      case False
      then have "map_insert k v (p # m) = (p # a) @ (k, v) # b" using Cons.prems ab by (cases p) auto
      then show ?thesis using ab(1) by (metis append_Cons)
    qed
  qed simp
  then show thesis using that by blast
qed

lemma fst_map_insert: "fst ` set (map_insert k v m) = insert k (fst ` set m)"
proof (induction m)
  case (Cons p m)
  then show ?case by (cases p) (auto simp del: Product_Type.fst_image_times)
qed simp


lemma sorted_map_insert: "sorted (map fst m) \<Longrightarrow> sorted (map fst (map_insert k v m))"
proof (induction m)
  case (Cons p m)
  have "\<forall>x \<in> insert k (fst ` set m). fst p \<le> x" if "\<not> k < fst p" using that Cons.prems by auto
  then have "\<not> k < fst p \<Longrightarrow> \<forall>x \<in> fst ` set (map_insert k v m). fst p \<le> x" by (simp add: fst_map_insert)
  then show ?case using Cons by (cases p) auto
qed simp

lemma map_of_filter_key: "map_of (filter (\<lambda>p. fst p \<noteq> k) m) j = (if j = k then None else map_of m j)"
  by (induction m) auto

text \<open>
  Threads start and end as \<^verbatim>\<open>Inspector::ThreadStart\<close> and \<^verbatim>\<open>Inspector::ThreadEnd\<close> report them: a
  session is added for a thread that starts, and the session of a thread that ends is removed. The
  runtime gives live threads different ids.
\<close>

inductive sessions_of :: "(pt_thread \<Rightarrow> nat) \<Rightarrow> pt_thread set \<Rightarrow> sessions \<Rightarrow> bool" for tid where
  no_threads: "sessions_of tid {} []"
| starts: "sessions_of tid live s \<Longrightarrow> t \<noteq> PtThread_NONE \<Longrightarrow> t \<notin> live \<Longrightarrow> tid t \<notin> tid ` live \<Longrightarrow>
    sessions_of tid (insert t live) (snd (AddSession tid t s))"
| ends: "sessions_of tid live s \<Longrightarrow> t \<in> live \<Longrightarrow>
    sessions_of tid (live - {t}) (RemoveSession (GetSessionIdByThread tid s t) s)"

text \<open>At any time the sessions are a table of the live threads, each under the empty id or under its
  number.\<close>

definition session_inv :: "(pt_thread \<Rightarrow> nat) \<Rightarrow> pt_thread set \<Rightarrow> sessions \<Rightarrow> bool" where
  "session_inv tid live s \<longleftrightarrow> sorted (map fst s) \<and> distinct (map fst s) \<and> distinct (map snd s) \<and>
     snd ` set s = live \<and> PtThread_NONE \<notin> live \<and> inj_on tid live \<and>
     (\<forall>(k, t) \<in> set s. k = '''' \<or> k = to_string (tid t))"

lemma session_inv_ids:
  assumes "session_inv tid live s" "(k, t) \<in> set s"
  shows "map_of s k = Some t" "GetSessionIdByThread tid s t = k"
proof -
  show k: "map_of s k = Some t" using assms by (auto simp: session_inv_def intro: map_of_is_SomeI)
  show "GetSessionIdByThread tid s t = k"
  proof (cases "k = ''''")
    case True
    then show ?thesis using k by (simp add: GetSessionIdByThread_def)
  next
    case False
    then have "k = to_string (tid t)" using assms by (auto simp: session_inv_def)
    moreover have "map_of s '''' \<noteq> Some t"
    proof
      assume "map_of s '''' = Some t"
      then have "('''', t) \<in> set s" by (rule map_of_SomeD)
      then have "'''' = k"
        using assms distinct_map_snd_unique [of s "[]" t k] by (simp add: session_inv_def)
      then show False using False by simp
    qed
    ultimately show ?thesis by (simp add: GetSessionIdByThread_def)
  qed
qed

lemma session_inv_fresh:
  assumes "session_inv tid live s" "tid t \<notin> tid ` live"
  shows "to_string (tid t) \<notin> fst ` set s"
proof
  assume "to_string (tid t) \<in> fst ` set s"
  then obtain t' where t': "(to_string (tid t), t') \<in> set s" by auto
  have "t' \<in> live" using assms(1) image_eqI [OF _ t', of t' snd] by (simp add: session_inv_def)
  moreover have "to_string (tid t) = to_string (tid t')" using assms(1) t' by (auto simp: session_inv_def)
  ultimately show False using assms(2) by auto
qed


lemma session_inv_start:
  assumes "session_inv tid live s" "t \<noteq> PtThread_NONE" "t \<notin> live" "tid t \<notin> tid ` live"
  shows "session_inv tid (insert t live) (snd (AddSession tid t s))"
proof -
  define k where "k = (if s \<noteq> [] then to_string (tid t) else '''')"
  have k: "k \<notin> fst ` set s" "k = '''' \<or> k = to_string (tid t)"
    using session_inv_fresh [OF assms(1,4)] by (simp_all add: k_def)
  obtain a b where ab: "s = a @ b" "map_insert k t s = a @ (k, t) # b" using map_insert_new [OF k(1)] .
  have "snd (AddSession tid t s) = map_insert k t s" by (simp add: AddSession_def k_def Let_def)
  moreover have "sorted (map fst (map_insert k t s))"
    using sorted_map_insert assms(1) by (auto simp: session_inv_def)
  moreover have "inj_on tid (insert t live)" using assms(1,4) by (auto simp: session_inv_def)
  moreover have live: "live = snd ` (set a \<union> set b)" using assms(1) ab(1) by (simp add: session_inv_def)
  then have "t \<notin> snd ` set a" "t \<notin> snd ` set b" using assms(3) by auto
  ultimately show ?thesis using assms k ab
    by (simp add: session_inv_def image_Un ball_Un)
qed

lemma session_inv_end:
  assumes "session_inv tid live s" "t \<in> live"
  shows "session_inv tid (live - {t}) (RemoveSession (GetSessionIdByThread tid s t) s)"
proof -
  obtain k where k: "(k, t) \<in> set s" using assms by (auto simp: session_inv_def)
  note sid = session_inv_ids [OF assms(1) k]
  have "p \<in> set s \<Longrightarrow> fst p \<noteq> k \<longleftrightarrow> snd p \<noteq> t" for p
    using assms(1) k distinct_map_fst_unique [of s k t "snd p"] distinct_map_snd_unique [of s k t "fst p"]
    by (cases p) (auto simp: session_inv_def)
  then have "filter (\<lambda>p. fst p \<noteq> k) s = filter (\<lambda>p. snd p \<noteq> t) s" by (rule filter_cong [OF refl])
  moreover have "snd ` set (filter (\<lambda>p. snd p \<noteq> t) s) = snd ` set s - {t}" by auto
  ultimately show ?thesis
    using assms(1) unfolding sid(2) RemoveSession_def session_inv_def
    by (simp add: sorted_filter distinct_map_filter inj_on_diff ball_conj_distrib)
qed

lemma sessions_of_inv: "sessions_of tid live s \<Longrightarrow> session_inv tid live s"
  by (induction rule: sessions_of.induct)
     (simp add: session_inv_def, metis session_inv_start, metis session_inv_end)

text \<open>
  C31. Whatever threads have started and ended, session ids and live threads name each other: the
  thread of a live thread's session id is the thread, an id that names a thread names a live one
  whose session id it is, and no other id names a thread.
\<close>

theorem sessions_name_threads:
  assumes "sessions_of tid live s"
  shows "(t \<in> live \<longrightarrow> GetThreadBySessionId s (GetSessionIdByThread tid s t) = t) \<and>
    (GetThreadBySessionId s sid \<noteq> PtThread_NONE \<longrightarrow>
      GetThreadBySessionId s sid \<in> live \<and> GetSessionIdByThread tid s (GetThreadBySessionId s sid) = sid) \<and>
    (sid \<in> set (GetAllSessions s) \<longleftrightarrow> GetThreadBySessionId s sid \<noteq> PtThread_NONE)"
proof -
  have inv: "session_inv tid live s" by (rule sessions_of_inv [OF assms])
  have table: "t' \<in> live \<and> t' \<noteq> PtThread_NONE \<and> GetSessionIdByThread tid s t' = k" if "map_of s k = Some t'" for k t'
  proof -
    have e: "(k, t') \<in> set s" by (rule map_of_SomeD [OF that])
    have "t' \<in> live" "PtThread_NONE \<notin> live"
      using inv image_eqI [OF _ e, of t' snd] by (simp_all add: session_inv_def)
    then show ?thesis using session_inv_ids(2) [OF inv e] by (cases "t' = PtThread_NONE") simp_all
  qed
  have "GetThreadBySessionId s (GetSessionIdByThread tid s t) = t" if t: "t \<in> live"
  proof -
    obtain k where e: "(k, t) \<in> set s" using t inv by (auto simp: session_inv_def)
    then show ?thesis using session_inv_ids [OF inv e] by (simp add: GetThreadBySessionId_def)
  qed
  moreover have "sid \<in> set (GetAllSessions s) \<longleftrightarrow> map_of s sid \<noteq> None"
    by (simp add: GetAllSessions_def map_of_eq_None_iff)
  ultimately show ?thesis using table by (auto simp: GetThreadBySessionId_def split: option.splits)
qed

theorem sessions_name_threads_witness:
  "let s = snd (AddSession (\<lambda>t. t + 4) 3 (snd (AddSession (\<lambda>t. t + 4) 7 [])))
   in GetThreadBySessionId s (GetSessionIdByThread (\<lambda>t. t + 4) s 3) = 3 \<and> set (GetAllSessions s) = {'''', ''7''}"
proof -
  define s where "s = snd (AddSession (\<lambda>t. t + 4) 3 (snd (AddSession (\<lambda>t. t + 4) 7 [])))"
  have "sessions_of (\<lambda>t. t + 4) {3, 7} s"
    unfolding s_def by (intro sessions_of.intros) simp_all
  from sessions_name_threads [OF this, of 3] have "GetThreadBySessionId s (GetSessionIdByThread (\<lambda>t. t + 4) s 3) = 3" by simp
  moreover have "set (GetAllSessions s) = {'''', ''7''}"
    by (simp add: s_def AddSession_def GetAllSessions_def to_string_small Let_def)
  ultimately show ?thesis by (simp add: s_def)
qed


section \<open>Sources\<close>

type_synonym script_key = "string \<times> string"

record source_manager =
  fileNameToId :: "(script_key \<times> nat) list"
  idToScript :: "(nat \<times> script_key) list"
  knownSources :: "nat list"

definition SourceManager_new :: source_manager where
  "SourceManager_new = \<lparr>fileNameToId = [], idToScript = [], knownSources = []\<rparr>"

definition GetScriptId :: "string \<Rightarrow> string \<Rightarrow> source_manager \<Rightarrow> nat \<times> bool \<times> source_manager" where
  "GetScriptId fileName scriptIdentity s =
     (let key = (fileName, scriptIdentity);
          found = map_of (fileNameToId s) key;
          i = (case found of None \<Rightarrow> length (fileNameToId s) | Some j \<Rightarrow> j);
          s = (if found = None then s\<lparr>fileNameToId := fileNameToId s @ [(key, i)]\<rparr> else s);
          isNewForThread = (i \<notin> set (knownSources s));
          s = (if isNewForThread then s\<lparr>knownSources := knownSources s @ [i]\<rparr> else s);
          s = (if found = None then s\<lparr>idToScript := idToScript s @ [(i, key)]\<rparr> else s)
      in (i, isNewForThread, s))"

definition GetSourceFileName :: "source_manager \<Rightarrow> nat \<Rightarrow> string" where
  "GetSourceFileName s i = (case map_of (idToScript s) i of None \<Rightarrow> '''' | Some key \<Rightarrow> fst key)"

definition GetScript :: "source_manager \<Rightarrow> nat \<Rightarrow> script_key" where
  "GetScript s i = (case map_of (idToScript s) i of None \<Rightarrow> ('''', '''') | Some key \<Rightarrow> key)"

text \<open>The manager after it was asked for the ids of the scripts \<open>ks\<close>, and the scripts in the order
  they were first asked for.\<close>

definition sources_after :: "script_key list \<Rightarrow> source_manager" where
  "sources_after ks = fold (\<lambda>k s. snd (snd (GetScriptId (fst k) (snd k) s))) ks SourceManager_new"

definition note_key :: "'a \<Rightarrow> 'a list \<Rightarrow> 'a list" where
  "note_key k seen = (if k \<in> set seen then seen else seen @ [k])"

definition first_seen :: "'a list \<Rightarrow> 'a list" where
  "first_seen ks = fold note_key ks []"

definition position :: "'a \<Rightarrow> 'a list \<Rightarrow> nat" where
  "position k xs = length (takeWhile (\<lambda>x. x \<noteq> k) xs)"

text \<open>The tables of a manager that has seen the scripts \<open>seen\<close>.\<close>

definition manager_of :: "script_key list \<Rightarrow> source_manager" where
  "manager_of seen = \<lparr>fileNameToId = zip seen [0..<length seen], idToScript = zip [0..<length seen] seen,
     knownSources = [0..<length seen]\<rparr>"

lemma position_less: "k \<in> set xs \<Longrightarrow> position k xs < length xs"
  by (induction xs) (auto simp: position_def)

lemma map_of_zip_position:
  "map_of (zip xs [n..<n + length xs]) k = (if k \<in> set xs then Some (n + position k xs) else None)"
proof (induction xs arbitrary: n)
  case (Cons x xs)
  have "[n..<n + length (x # xs)] = n # [Suc n..<Suc n + length xs]" by (simp add: upt_rec)
  then show ?case using Cons [of "Suc n"] by (auto simp: position_def)
qed simp

lemma map_of_zip_upt: "map_of (zip [0..<length xs] xs) i = (if i < length xs then Some (xs ! i) else None)"
proof (cases "i < length xs")
  case True
  then have "(i, xs ! i) \<in> set (zip [0..<length xs] xs)" by (auto simp: in_set_zip intro: exI [of _ i])
  then show ?thesis using True by (simp add: map_of_is_SomeI)
next
  case False
  then have "i \<notin> fst ` set (zip [0..<length xs] xs)" by (auto dest: set_zip_leftD)
  then show ?thesis using False by (simp add: map_of_eq_None_iff)
qed

lemma zip_upt_snoc:
  "zip xs [0..<length xs] @ [(k, length xs)] = zip (xs @ [k]) [0..<length (xs @ [k])]"
  "zip [0..<length xs] xs @ [(length xs, k)] = zip [0..<length (xs @ [k])] (xs @ [k])"
  by simp_all

lemma GetScriptId_manager:
  "GetScriptId fileName scriptIdentity (manager_of seen) =
     (position (fileName, scriptIdentity) (note_key (fileName, scriptIdentity) seen),
      (fileName, scriptIdentity) \<notin> set seen, manager_of (note_key (fileName, scriptIdentity) seen))"
proof (cases "(fileName, scriptIdentity) \<in> set seen")
  case True
  then show ?thesis using map_of_zip_position [of seen 0 "(fileName, scriptIdentity)"] position_less [OF True]
    by (simp add: GetScriptId_def manager_of_def note_key_def Let_def)
next
  case False
  then have "position (fileName, scriptIdentity) (seen @ [(fileName, scriptIdentity)]) = length seen"
    unfolding position_def by (subst takeWhile_append2) auto
  moreover have m: "map_of (zip seen [0..<length seen]) (fileName, scriptIdentity) = None"
    using False map_of_zip_position [of seen 0 "(fileName, scriptIdentity)"] by simp
  ultimately show ?thesis using False
    by (simp add: GetScriptId_def manager_of_def note_key_def m Let_def)
qed

lemma sources_after_seen: "sources_after ks = manager_of (first_seen ks)"
proof (induction ks rule: rev_induct)
  case Nil
  then show ?case by (simp add: sources_after_def first_seen_def manager_of_def SourceManager_new_def)
next
  case (snoc k ks)
  then show ?case by (simp add: sources_after_def first_seen_def GetScriptId_manager)
qed

lemma set_first_seen [simp]: "set (first_seen ks) = set ks"
  by (induction ks rule: rev_induct) (auto simp: first_seen_def note_key_def)

text \<open>
  C32. Script ids number the scripts in the order they are first asked for: the id of a script is its
  position in that order, it is reported as new exactly the first time it is asked for, an id names
  the script at its position from then on, and other numbers name none.
\<close>

theorem script_ids:
  "fst (GetScriptId script ident (sources_after ks)) = position (script, ident) (first_seen (ks @ [(script, ident)])) \<and>
   (fst (snd (GetScriptId script ident (sources_after ks))) \<longleftrightarrow> (script, ident) \<notin> set ks) \<and>
   GetScript (sources_after ks) i = (if i < length (first_seen ks) then first_seen ks ! i else ('''', '''')) \<and>
   GetSourceFileName (sources_after ks) i = fst (GetScript (sources_after ks) i)"
proof -
  have "first_seen (ks @ [(script, ident)]) = note_key (script, ident) (first_seen ks)" by (simp add: first_seen_def)
  then show ?thesis unfolding sources_after_seen GetScriptId_manager
    by (simp add: GetScript_def GetSourceFileName_def manager_of_def map_of_zip_upt)
qed

end
