(* ===== verification/Json_Rpc.thy ===== *)
theory Json_Rpc
  imports Std_Number Complex_Main "HOL-Library.AList"
begin

text \<open>
  The JSON-RPC layer of the static inspector: \<^verbatim>\<open>EndpointBase\<close>, \<^verbatim>\<open>ServerEndpointBase\<close>
  (tooling/static/connection), \<^verbatim>\<open>JRPCError\<close> (tooling/static/json_serialization) and the request and
  response types that are read from and written to JSON (tooling/static/types).
\<close>

section \<open>JSON\<close>

text \<open>
  What is given to a \<^verbatim>\<open>JsonObjectBuilder\<close>, in the order of the calls of \<^verbatim>\<open>AddProperty\<close>. The library's
  parser, its accessors and its printer are parameters: \<open>js_string\<close> and the next four are
  \<^verbatim>\<open>JsonObject::GetValue\<close> at the types the sources use (\<open>None\<close> for a null pointer), \<open>js_array\<close>
  gives for each element the object it is, a \<open>JFloat32\<close> or \<open>JFloat64\<close> is a floating-point value by its bits,
 \<open>js_build\<close> is \<^verbatim>\<open>JsonObjectBuilder::Build\<close>. So are
  \<^verbatim>\<open>helpers::string::ParseInt\<close> and \<^verbatim>\<open>std::to_string(double)\<close>.
\<close>

datatype jb = JNull | JBool bool | JInt int | JDouble real | JFloat32 u32 | JFloat64 u64 | JStr string | JArr "jb list" | JObj "(string \<times> jb) list"

type_synonym props = "(string \<times> jb) list"

record ('j, 'm) json_ops =
  js_parse :: "'m \<Rightarrow> 'j option"
  js_string :: "'j \<Rightarrow> string \<Rightarrow> string option"
  js_num :: "'j \<Rightarrow> string \<Rightarrow> real option"
  js_bool :: "'j \<Rightarrow> string \<Rightarrow> bool option"
  js_object :: "'j \<Rightarrow> string \<Rightarrow> 'j option"
  js_array :: "'j \<Rightarrow> string \<Rightarrow> 'j option list option"
  js_empty :: 'j
  js_build :: "props \<Rightarrow> 'm"
  js_ParseInt :: "string \<Rightarrow> int option"
  js_double_text :: "real \<Rightarrow> string"

text \<open>The object \<open>j\<close> has the properties \<open>ps\<close>. Integers a double holds exactly are read back as
  numbers.\<close>

inductive reads :: "('j, 'm) json_ops \<Rightarrow> 'j \<Rightarrow> props \<Rightarrow> bool" for js where
  "(\<And>k. js_string js j k = (case map_of ps k of Some (JStr s) \<Rightarrow> Some s | _ \<Rightarrow> None)) \<Longrightarrow>
   (\<And>k. js_num js j k = (case map_of ps k of Some (JInt i) \<Rightarrow> Some (of_int i) | Some (JDouble d) \<Rightarrow> Some d | _ \<Rightarrow> None)) \<Longrightarrow>
   (\<And>k. js_bool js j k = (case map_of ps k of Some (JBool b) \<Rightarrow> Some b | _ \<Rightarrow> None)) \<Longrightarrow>
   (\<And>k qs. map_of ps k = Some (JObj qs) \<Longrightarrow> \<exists>j'. js_object js j k = Some j' \<and> reads js j' qs) \<Longrightarrow>
   (\<And>k. (\<nexists>qs. map_of ps k = Some (JObj qs)) \<Longrightarrow> js_object js j k = None) \<Longrightarrow>
   reads js j ps"

text \<open>What the printer and the parser promise each other: a printed object, whose keys differ and
  whose numbers are integers a double holds, is read back.\<close>

fun plain_json :: "jb \<Rightarrow> bool" where
  "plain_json (JInt i) = (\<bar>i\<bar> \<le> 2 ^ 53)"
| "plain_json (JDouble d) = (d \<in> \<int> \<and> \<bar>d\<bar> \<le> 2 ^ 53)"
| "plain_json (JArr xs) = (\<forall>x \<in> set xs. plain_json x)"
| "plain_json (JObj ps) = (distinct (map fst ps) \<and> (\<forall>p \<in> set ps. plain_json (snd p)))"
| "plain_json _ = True"

definition json_ok :: "('j, 'm) json_ops \<Rightarrow> bool" where
  "json_ok js \<longleftrightarrow>
     (\<forall>ps. plain_json (JObj ps) \<longrightarrow> (\<exists>j. js_parse js (js_build js ps) = Some j \<and> reads js j ps)) \<and>
     (\<forall>n < 2 ^ 63. js_ParseInt js (to_string n) = Some (int n))"

section \<open>Errors\<close>

datatype ErrorCode = PARSE_ERROR | INTERNAL_ERROR | INVALID_PARAMS | METHOD_NOT_FOUND | INVALID_REQUEST
  | SESSION_NOT_FOUND | SERVER_ERROR

fun error_number :: "ErrorCode \<Rightarrow> int" where
  "error_number PARSE_ERROR = -32700"
| "error_number INTERNAL_ERROR = -32603"
| "error_number INVALID_PARAMS = -32602"
| "error_number METHOD_NOT_FOUND = -32601"
| "error_number INVALID_REQUEST = -32600"
| "error_number SESSION_NOT_FOUND = -32001"
| "error_number SERVER_ERROR = -32000"

datatype JRPCError = JRPCError (err_message: string) (err_code: ErrorCode)

text \<open>The constructor with the default code.\<close>

abbreviation JRPCError_of :: "string \<Rightarrow> JRPCError" where
  "JRPCError_of message \<equiv> JRPCError message INVALID_REQUEST"

definition JRPCError_Serialize :: "JRPCError \<Rightarrow> props" where
  "JRPCError_Serialize e = [(''code'', JInt (error_number (err_code e))), (''message'', JStr (err_message e))]"

text \<open>A handler's answer: an error, or the object to send, \<open>None\<close> for a null pointer.\<close>

type_synonym method_response = "JRPCError + props option"

section \<open>The endpoint\<close>

record ('j, 's) endpoint =
  methodHandlers :: "(string \<times> (string \<Rightarrow> real option \<Rightarrow> 'j \<Rightarrow> 's \<Rightarrow> 's)) list"
  resultHandlers :: "(real \<times> ('j \<Rightarrow> 's \<Rightarrow> 's)) list"

definition EndpointBase_OnCall ::
  "string \<Rightarrow> (string \<Rightarrow> real option \<Rightarrow> 'j \<Rightarrow> 's \<Rightarrow> 's) \<Rightarrow> ('j, 's) endpoint \<Rightarrow> ('j, 's) endpoint" where
  "EndpointBase_OnCall method handler ep = ep\<lparr>methodHandlers := AList.update method handler (methodHandlers ep)\<rparr>"

definition EndpointBase_OnResult :: "real \<Rightarrow> ('j \<Rightarrow> 's \<Rightarrow> 's) \<Rightarrow> ('j, 's) endpoint \<Rightarrow> ('j, 's) endpoint" where
  "EndpointBase_OnResult i handler ep = ep\<lparr>resultHandlers := AList.update i handler (resultHandlers ep)\<rparr>"

text \<open>The messages: \<open>send\<close> is the virtual \<^verbatim>\<open>SendMessage\<close>.\<close>

definition session_prop :: "string \<Rightarrow> props" where
  "session_prop sessionId = (if sessionId \<noteq> [] then [(''sessionId'', JStr sessionId)] else [])"

definition call_props :: "string \<Rightarrow> real option \<Rightarrow> string \<Rightarrow> props \<Rightarrow> props" where
  "call_props sessionId i method params =
     (case i of Some i \<Rightarrow> [(''id'', JDouble i)] | None \<Rightarrow> []) @
     [(''method'', JStr method), (''params'', JObj params)] @ session_prop sessionId"

definition EndpointBase_Call ::
  "('j, 'm) json_ops \<Rightarrow> ('m \<Rightarrow> 's \<Rightarrow> 's) \<Rightarrow> string \<Rightarrow> real option \<Rightarrow> string \<Rightarrow> props \<Rightarrow> 's \<Rightarrow> 's" where
  "EndpointBase_Call js send sessionId i method params s = send (js_build js (call_props sessionId i method params)) s"

definition reply_props :: "string \<Rightarrow> real \<Rightarrow> props \<Rightarrow> props" where
  "reply_props sessionId i result = [(''id'', JDouble i), (''result'', JObj result)] @ session_prop sessionId"

definition Reply :: "('j, 'm) json_ops \<Rightarrow> ('m \<Rightarrow> 's \<Rightarrow> 's) \<Rightarrow> string \<Rightarrow> real \<Rightarrow> props \<Rightarrow> 's \<Rightarrow> 's" where
  "Reply js send sessionId i result s = send (js_build js (reply_props sessionId i result)) s"

definition error_props :: "string \<Rightarrow> real \<Rightarrow> JRPCError \<Rightarrow> props" where
  "error_props sessionId i error = [(''id'', JDouble i), (''error'', JObj (JRPCError_Serialize error))] @ session_prop sessionId"

definition ReplyError :: "('j, 'm) json_ops \<Rightarrow> ('m \<Rightarrow> 's \<Rightarrow> 's) \<Rightarrow> string \<Rightarrow> real \<Rightarrow> JRPCError \<Rightarrow> 's \<Rightarrow> 's" where
  "ReplyError js send sessionId i error s = send (js_build js (error_props sessionId i error)) s"

definition HandleUnsupportedMethod ::
  "('j, 'm) json_ops \<Rightarrow> ('m \<Rightarrow> 's \<Rightarrow> 's) \<Rightarrow> real option \<Rightarrow> string \<Rightarrow> 's \<Rightarrow> 's" where
  "HandleUnsupportedMethod js send optId method s =
     send (js_build js ((case optId of Some i \<Rightarrow> [(''id'', JDouble i)] | None \<Rightarrow> []) @
       [(''error'', JObj [(''code'', JInt (error_number METHOD_NOT_FOUND)),
          (''message'', JStr (''Unsupported method: '' @ method))])])) s"

definition EndpointBase_HandleMessage ::
  "('j, 'm) json_ops \<Rightarrow> ('m \<Rightarrow> 's \<Rightarrow> 's) \<Rightarrow> 'm \<Rightarrow> ('j, 's) endpoint \<times> 's \<Rightarrow> ('j, 's) endpoint \<times> 's" where
  "EndpointBase_HandleMessage js send message = (\<lambda>(ep, s).
     case js_parse js message of
       None \<Rightarrow> (ep, s)
     | Some request \<Rightarrow>
         let sessionId = js_string js request ''sessionId'';
             i = js_num js request ''id'';
             method = js_string js request ''method'';
             result = js_object js request ''result''
         in case (method, result) of
              (Some method, None) \<Rightarrow>
                (case map_of (methodHandlers ep) method of
                   Some handler \<Rightarrow>
                     (ep, handler (case sessionId of Some sid \<Rightarrow> sid | None \<Rightarrow> '''') i
                            (case js_object js request ''params'' of Some params \<Rightarrow> params | None \<Rightarrow> js_empty js) s)
                 | None \<Rightarrow> (ep, HandleUnsupportedMethod js send i method s))
            | (None, Some result) \<Rightarrow>
                (case i of
                   None \<Rightarrow> (ep, s)
                 | Some i \<Rightarrow>
                     (case map_of (resultHandlers ep) i of
                        None \<Rightarrow> (ep, s)
                      | Some handler \<Rightarrow> (ep\<lparr>resultHandlers := AList.delete i (resultHandlers ep)\<rparr>, handler result s)))
            | _ \<Rightarrow> (ep, s))"

section \<open>The server endpoint\<close>

type_synonym ('j, 's) method_handler = "string \<Rightarrow> 'j \<Rightarrow> 's \<Rightarrow> method_response \<times> 's"

definition call_handler ::
  "('j, 'm) json_ops \<Rightarrow> ('m \<Rightarrow> 's \<Rightarrow> 's) \<Rightarrow> ('j, 's) method_handler \<Rightarrow> string \<Rightarrow> real option \<Rightarrow> 'j \<Rightarrow> 's \<Rightarrow> 's" where
  "call_handler js send handler sessionId i params s =
     (case i of
        None \<Rightarrow> s
      | Some i \<Rightarrow>
          (case handler sessionId params s of
             (Inr (Some res), s) \<Rightarrow> Reply js send sessionId i res s
           | (Inr None, s) \<Rightarrow> Reply js send sessionId i [] s
           | (Inl error, s) \<Rightarrow> ReplyError js send sessionId i error s))"

definition OnCallImpl ::
  "('j, 'm) json_ops \<Rightarrow> ('m \<Rightarrow> 's \<Rightarrow> 's) \<Rightarrow> string \<Rightarrow> ('j, 's) method_handler \<Rightarrow> ('j, 's) endpoint \<Rightarrow> ('j, 's) endpoint" where
  "OnCallImpl js send method handler ep = EndpointBase_OnCall method (call_handler js send handler) ep"

definition ServerEndpointBase_Call ::
  "('j, 'm) json_ops \<Rightarrow> ('m \<Rightarrow> 's \<Rightarrow> 's) \<Rightarrow> bool \<Rightarrow> string \<Rightarrow> string \<Rightarrow> props \<Rightarrow> 's \<Rightarrow> 's" where
  "ServerEndpointBase_Call js send syncMode sessionId method params s =
     (if syncMode then s else EndpointBase_Call js send sessionId None method params s)"

end
