(* ===== verification/Protocol_Types.thy ===== *)
theory Protocol_Types
  imports Json_Rpc
begin

text \<open>
  The parameters and results of the protocol's methods (tooling/static/types): what \<^verbatim>\<open>FromJson\<close>
  reads of a request and what \<^verbatim>\<open>Serialize\<close> writes of a response. Line numbers are counted from 0 in
  the protocol and from 1 in the inspector; a \<^verbatim>\<open>size_t\<close> that becomes an \<^verbatim>\<open>int32_t\<close> keeps its low 32
  bits, \<open>int32_of\<close>. An \<^verbatim>\<open>Expected<T, std::string>\<close> is a sum, the error on the left.
\<close>

text \<open>A name in single quotes.\<close>

definition quoted :: "string \<Rightarrow> string" where
  "quoted s = CHR 0x27 # s @ [CHR 0x27]"

section \<open>Numbers\<close>

definition int32_of :: "int \<Rightarrow> int" where
  "int32_of i = sint (word_of_int i :: 32 word)"

lemma int32_of_id: "-(2 ^ 31) \<le> i \<Longrightarrow> i < 2 ^ 31 \<Longrightarrow> int32_of i = i"
  by (simp add: int32_of_def signed_of_int signed_take_bit_int_eq_self)

definition SIZE_MAX :: nat where "SIZE_MAX = 2 ^ 64 - 1"
definition UINT32_MAX :: nat where "UINT32_MAX = 2 ^ 32 - 1"

definition ParseNumericId :: "('j, 'm) json_ops \<Rightarrow> nat \<Rightarrow> 'j \<Rightarrow> string \<Rightarrow> string + nat" where
  "ParseNumericId js maximum object propertyName =
     (case js_string js object propertyName of
        None \<Rightarrow> Inl (''No such property: '' @ propertyName)
      | Some property \<Rightarrow>
          (case js_ParseInt js property of
             None \<Rightarrow> Inl (''Invalid id: '' @ property)
           | Some val \<Rightarrow> if val < 0 \<or> int maximum < val then Inl (''Invalid id: '' @ property) else Inr (nat val)))"

text \<open>For a finite double the difference to its integral part and the product with \<^verbatim>\<open>DBL_EPSILON\<close>,
  a power of two, are exact. A \<^verbatim>\<open>size_t\<close> is given what it can hold of the result.\<close>

definition DBL_EPSILON :: real where "DBL_EPSILON = 1 / 2 ^ 52"

definition ParseSizeProperty :: "('j, 'm) json_ops \<Rightarrow> 'j \<Rightarrow> string \<Rightarrow> string + nat" where
  "ParseSizeProperty js object propertyName =
     (case js_num js object propertyName of
        None \<Rightarrow> Inl (''No '' @ quoted propertyName @ '' property'')
      | Some val \<Rightarrow>
          let valueTrunc = (if val < 0 then of_int \<lceil>val\<rceil> else of_int \<lfloor>val\<rfloor>)
          in if val < 0 \<or> val - valueTrunc > valueTrunc * DBL_EPSILON
             then Inl (''Invalid line number: '' @ js_double_text js val)
             else Inr (nat \<lfloor>valueTrunc\<rfloor> mod 2 ^ 64))"

section \<open>Locations\<close>

record location =
  l_scriptId :: nat
  l_lineNumber :: int
  l_columnNumber :: "int option"

definition Location :: "nat \<Rightarrow> int \<Rightarrow> location" where
  "Location scriptId lineNumber = \<lparr>l_scriptId = scriptId, l_lineNumber = lineNumber, l_columnNumber = None\<rparr>"

definition Location_FromJsonProperty :: "('j, 'm) json_ops \<Rightarrow> 'j \<Rightarrow> string \<Rightarrow> string + location" where
  "Location_FromJsonProperty js object propertyName =
     (case js_object js object propertyName of
        None \<Rightarrow> Inl (''No such property: '' @ propertyName)
      | Some property \<Rightarrow>
          (case ParseNumericId js SIZE_MAX property ''scriptId'' of
             Inl e \<Rightarrow> Inl e
           | Inr scriptId \<Rightarrow>
               (case ParseSizeProperty js property ''lineNumber'' of
                  Inl e \<Rightarrow> Inl e
                | Inr lineNumber \<Rightarrow> Inr (Location scriptId (int32_of (int lineNumber + 1))))))"

definition Location_Serialize :: "location \<Rightarrow> props" where
  "Location_Serialize l = [(''scriptId'', JStr (to_string (l_scriptId l))), (''lineNumber'', JInt (int32_of (l_lineNumber l - 1)))] @
     (case l_columnNumber l of None \<Rightarrow> [] | Some c \<Rightarrow> [(''columnNumber'', JInt c)])"

section \<open>Breakpoints by URL\<close>

record url_breakpoint_request =
  rq_lineNumber :: int
  rq_url :: "string option"
  rq_urlRegex :: "string option"
  rq_condition :: "string option"

definition UrlBreakpointRequest_FromJson :: "('j, 'm) json_ops \<Rightarrow> 'j \<Rightarrow> string + url_breakpoint_request" where
  "UrlBreakpointRequest_FromJson js object =
     (case ParseSizeProperty js object ''lineNumber'' of
        Inl e \<Rightarrow> Inl e
      | Inr lineNumber \<Rightarrow>
          let url = js_string js object ''url'';
              urlRegex = (if url = None then js_string js object ''urlRegex'' else None)
          in if url = None \<and> urlRegex = None then Inl (''Either '' @ quoted ''url'' @ '' or '' @ quoted ''urlRegex'' @ '' must be specified'')
             else Inr \<lparr>rq_lineNumber = int32_of (int lineNumber + 1), rq_url = url, rq_urlRegex = urlRegex,
                       rq_condition = js_string js object ''condition''\<rparr>)"

record custom_url_breakpoint_response =
  cu_lineNumber :: int
  cu_columnNumber :: int
  cu_scriptId :: nat
  cu_id :: "nat option"

definition CustomUrlBreakpointResponse :: "int \<Rightarrow> custom_url_breakpoint_response" where
  "CustomUrlBreakpointResponse lineNumber =
     \<lparr>cu_lineNumber = lineNumber, cu_columnNumber = 0, cu_scriptId = 0, cu_id = None\<rparr>"

definition CustomUrlBreakpointResponse_Serialize :: "custom_url_breakpoint_response \<Rightarrow> props" where
  "CustomUrlBreakpointResponse_Serialize r =
     [(''id'', JStr (case cu_id r of Some i \<Rightarrow> to_string i | None \<Rightarrow> ''invalid'')),
      (''lineNumber'', JInt (int32_of (cu_lineNumber r - 1))), (''columnNumber'', JInt (cu_columnNumber r)),
      (''scriptId'', JInt (int (cu_scriptId r)))]"

definition CustomUrlBreakpointLocations_Serialize :: "custom_url_breakpoint_response list \<Rightarrow> props" where
  "CustomUrlBreakpointLocations_Serialize locations =
     [(''locations'', JArr (map (\<lambda>l. JObj (CustomUrlBreakpointResponse_Serialize l)) locations))]"

record url_breakpoint_response =
  ur_breakpointId :: nat
  ur_locations :: "location list"

definition UrlBreakpointResponse_Serialize :: "url_breakpoint_response \<Rightarrow> props" where
  "UrlBreakpointResponse_Serialize r =
     [(''breakpointId'', JStr (to_string (ur_breakpointId r))),
      (''locations'', JArr (map (\<lambda>l. JObj (Location_Serialize l)) (ur_locations r)))]"

text \<open>The first of the locations; there is one where it is called.\<close>

definition ToCustomUrlBreakpointResponse :: "url_breakpoint_response \<Rightarrow> custom_url_breakpoint_response" where
  "ToCustomUrlBreakpointResponse r =
     (let loc = hd (ur_locations r)
      in (CustomUrlBreakpointResponse (l_lineNumber loc))
           \<lparr>cu_columnNumber := (case l_columnNumber loc of Some c \<Rightarrow> c | None \<Rightarrow> 0),
            cu_scriptId := l_scriptId loc, cu_id := Some (ur_breakpointId r)\<rparr>)"

definition PossibleBreakpointsResponse_Serialize :: "location list \<Rightarrow> props" where
  "PossibleBreakpointsResponse_Serialize locations =
     [(''locations'', JArr (map (\<lambda>l. JObj (Location_Serialize l)) locations))]"

definition ScriptSourceResponse_Serialize :: "string \<Rightarrow> props" where
  "ScriptSourceResponse_Serialize scriptSource = [(''scriptSource'', JStr scriptSource)]"

section \<open>Evaluation\<close>

record evaluation_request =
  ev_callFrameId :: nat
  ev_text :: string
  ev_silent :: bool
  ev_returnByValue :: bool
  ev_generatePreview :: bool

text \<open>The two requests differ in the property that holds the text and in the message without it.\<close>

definition evaluation_request_of :: "('j, 'm) json_ops \<Rightarrow> string \<Rightarrow> string \<Rightarrow> 'j \<Rightarrow> string + evaluation_request" where
  "evaluation_request_of js textName missing object =
     (case ParseNumericId js UINT32_MAX object ''callFrameId'' of
        Inl e \<Rightarrow> Inl e
      | Inr callFrameId \<Rightarrow>
          (case js_string js object textName of
             None \<Rightarrow> Inl missing
           | Some txt \<Rightarrow>
               Inr \<lparr>ev_callFrameId = callFrameId, ev_text = txt,
                    ev_silent = (case js_bool js object ''silent'' of Some b \<Rightarrow> b | None \<Rightarrow> False),
                    ev_returnByValue = (case js_bool js object ''returnByValue'' of Some b \<Rightarrow> b | None \<Rightarrow> False),
                    ev_generatePreview = (case js_bool js object ''generatePreview'' of Some b \<Rightarrow> b | None \<Rightarrow> False)\<rparr>))"

definition DebuggerEvaluationRequest_FromJson :: "('j, 'm) json_ops \<Rightarrow> 'j \<Rightarrow> string + evaluation_request" where
  "DebuggerEvaluationRequest_FromJson js object =
     evaluation_request_of js ''expression'' (''no '' @ quoted ''expression'' @ '' field'') object"

definition DebuggerCallFunctionOnRequest_FromJson :: "('j, 'm) json_ops \<Rightarrow> 'j \<Rightarrow> string + evaluation_request" where
  "DebuggerCallFunctionOnRequest_FromJson js object =
     evaluation_request_of js ''functionDeclaration'' (''no '' @ quoted ''functionDeclaration'' @ '' field'') object"


section \<open>Reading what was written\<close>

lemma reads_simps:
  assumes "reads js j ps"
  shows "js_string js j k = (case map_of ps k of Some (JStr s) \<Rightarrow> Some s | _ \<Rightarrow> None)"
    "js_num js j k = (case map_of ps k of Some (JInt i) \<Rightarrow> Some (of_int i) | Some (JDouble d) \<Rightarrow> Some d | _ \<Rightarrow> None)"
    "js_bool js j k = (case map_of ps k of Some (JBool b) \<Rightarrow> Some b | _ \<Rightarrow> None)"
    "(\<nexists>qs. map_of ps k = Some (JObj qs)) \<Longrightarrow> js_object js j k = None"
  using assms by (auto elim: reads.cases)

lemma reads_object:
  assumes "reads js j ps" "map_of ps k = Some (JObj qs)"
  obtains j' where "js_object js j k = Some j'" "reads js j' qs"
proof -
  from assms(1) have "\<exists>j'. js_object js j k = Some j' \<and> reads js j' qs" by cases (use assms(2) in blast)
  with that show thesis by blast
qed

lemma json_ok_reads:
  assumes "json_ok js" "plain_json (JObj ps)"
  obtains j where "js_parse js (js_build js ps) = Some j" "reads js j ps"
  using assms by (auto simp: json_ok_def)

lemma json_ok_ParseInt: "json_ok js \<Longrightarrow> n < 2 ^ 63 \<Longrightarrow> js_ParseInt js (to_string n) = Some (int n)"
  by (simp add: json_ok_def)

lemma ParseNumericId_reads:
  assumes "json_ok js" "reads js j ps" "map_of ps k = Some (JStr (to_string n))" "n < 2 ^ 63" "n \<le> maximum"
  shows "ParseNumericId js maximum j k = Inr n"
  using assms by (simp add: ParseNumericId_def reads_simps(1) [OF assms(2)] json_ok_ParseInt)

lemma ParseSizeProperty_reads:
  assumes "reads js j ps" "map_of ps k = Some (JInt (int n))" "n < 2 ^ 64"
  shows "ParseSizeProperty js j k = Inr n"
  using assms by (simp add: ParseSizeProperty_def reads_simps(2) [OF assms(1)] DBL_EPSILON_def Let_def)

lemma Location_reads:
  assumes "json_ok js" "reads js j (Location_Serialize l)"
    and "l_scriptId l < 2 ^ 63" "1 \<le> l_lineNumber l" "l_lineNumber l < 2 ^ 31"
    and "js_object js jo name = Some j"
  shows "Location_FromJsonProperty js jo name = Inr (l\<lparr>l_columnNumber := None\<rparr>)"
proof -
  have ps: "map_of (Location_Serialize l) ''scriptId'' = Some (JStr (to_string (l_scriptId l)))"
    "map_of (Location_Serialize l) ''lineNumber'' = Some (JInt (int (nat (l_lineNumber l - 1))))"
    using assms(4,5) by (simp_all add: Location_Serialize_def int32_of_id)
  have "ParseNumericId js SIZE_MAX j ''scriptId'' = Inr (l_scriptId l)"
    by (rule ParseNumericId_reads [OF assms(1,2) ps(1) assms(3)]) (use assms(3) in \<open>simp add: SIZE_MAX_def\<close>)
  moreover have "ParseSizeProperty js j ''lineNumber'' = Inr (nat (l_lineNumber l - 1))"
    by (rule ParseSizeProperty_reads [OF assms(2) ps(2)]) (use assms(4,5) in simp)
  ultimately show ?thesis
    using assms(4-6) by (simp add: Location_FromJsonProperty_def Location_def int32_of_id)
qed

text \<open>
  C33. A location survives the protocol: the location the inspector writes into a message is read
  back from the message as the same script and line (a column number, which requests do not use, is
  dropped), for script ids and lines in the range the types of the protocol give them.
\<close>

theorem location_roundtrip:
  assumes "json_ok js" "l_scriptId l < 2 ^ 63" "1 \<le> l_lineNumber l" "l_lineNumber l < 2 ^ 31"
    and "\<forall>c \<in> set_option (l_columnNumber l). \<bar>c\<bar> < 2 ^ 31"
  shows "\<exists>j. js_parse js (js_build js [(name, JObj (Location_Serialize l))]) = Some j \<and>
    Location_FromJsonProperty js j name = Inr (l\<lparr>l_columnNumber := None\<rparr>)"
proof -
  have "plain_json (JObj [(name, JObj (Location_Serialize l))])"
    using assms(3-5) by (auto simp: Location_Serialize_def int32_of_id split: option.splits)
  then obtain j where j: "js_parse js (js_build js [(name, JObj (Location_Serialize l))]) = Some j"
    "reads js j [(name, JObj (Location_Serialize l))]"
    by (rule json_ok_reads [OF assms(1)])
  obtain j' where "js_object js j name = Some j'" "reads js j' (Location_Serialize l)"
    by (rule reads_object [OF j(2)]) auto
  then show ?thesis using j(1) Location_reads [OF assms(1) _ assms(2-4)] by blast
qed


text \<open>A parser and a printer that keep the calls.\<close>

definition call_json :: "(props, props) json_ops" where
  "call_json = \<lparr>js_parse = Some,
     js_string = (\<lambda>ps k. case map_of ps k of Some (JStr s) \<Rightarrow> Some s | _ \<Rightarrow> None),
     js_num = (\<lambda>ps k. case map_of ps k of Some (JInt i) \<Rightarrow> Some (of_int i) | Some (JDouble d) \<Rightarrow> Some d | _ \<Rightarrow> None),
     js_bool = (\<lambda>ps k. case map_of ps k of Some (JBool b) \<Rightarrow> Some b | _ \<Rightarrow> None),
     js_object = (\<lambda>ps k. case map_of ps k of Some (JObj qs) \<Rightarrow> Some qs | _ \<Rightarrow> None),
     js_array = (\<lambda>ps k. case map_of ps k of
        Some (JArr xs) \<Rightarrow> Some (map (\<lambda>x. case x of JObj qs \<Rightarrow> Some qs | _ \<Rightarrow> None) xs) | _ \<Rightarrow> None),
     js_empty = [], js_build = (\<lambda>ps. ps),
     js_ParseInt = (\<lambda>s. if s \<noteq> [] \<and> list_all std_isdigit s then Some (int (dec_value s)) else None),
     js_double_text = (\<lambda>_. [])\<rparr>"

lemma call_json_reads: "reads call_json ps ps"
proof (induction "size_list (size_prod (\<lambda>_. 0) size) ps" arbitrary: ps rule: less_induct)
  case less
  have "reads call_json qs qs" if "map_of ps k = Some (JObj qs)" for k qs
  proof (rule less)
    show "size_list (size_prod (\<lambda>_. 0) size) qs < size_list (size_prod (\<lambda>_. 0) size) ps"
      by (rule size_list_estimation [OF map_of_SomeD [OF that]]) simp
  qed
  then show ?case
    by (intro reads.intros) (auto simp: call_json_def split: option.splits jb.splits)
qed

lemma call_json_ok: "json_ok call_json"
  using call_json_reads to_string_digits by (simp add: json_ok_def call_json_def [THEN arg_cong, of js_parse]
      call_json_def [THEN arg_cong, of js_build] call_json_def [THEN arg_cong, of js_ParseInt])

theorem location_roundtrip_witness:
  "\<exists>j. js_parse call_json (js_build call_json [(''start'', JObj (Location_Serialize (Location 3 17)))]) = Some j \<and>
    Location_FromJsonProperty call_json j ''start'' = Inr (Location 3 17)"
  using location_roundtrip [OF call_json_ok, of "Location 3 17" "''start''"] by (simp add: Location_def)

end
