(* ===== verification/Remote_Objects.thy ===== *)
theory Remote_Objects
  imports Debug_Info Protocol_Types
begin

text \<open>
  Values as the client sees them: \<^verbatim>\<open>RemoteObject\<close>, \<^verbatim>\<open>PropertyDescriptor\<close>, \<^verbatim>\<open>ObjectPreview\<close> and
  \<^verbatim>\<open>Scope\<close> (tooling/static/types), and \<^verbatim>\<open>ObjectRepository\<close> (tooling/static/debugger), which gives the
  objects of a paused thread the ids the client asks for their properties by. The language extension
  of the runtime (\<^verbatim>\<open>PtLangExt\<close>), the tagged values, the conversion of a UTF-16 unit and the format
  \<open>%g\<close> are parameters; an object is its address, 0 for the null pointer.
\<close>

section \<open>Remote objects\<close>

definition int_to_string :: "int \<Rightarrow> string" where
  "int_to_string i = (if i < 0 then CHR ''-'' # to_string (nat (- i)) else to_string (nat i))"

type_synonym remote_object_type = "string \<times> string option"

datatype type_value =
    Monostate | Nullptr | VBool bool | VInt int | VFloat32 u32 | VFloat64 u64
  | VBigInt int nat | VBigIntString string | VString string | VSymbol string
  | VObject string "nat option" "string option" | VArray string "nat option" nat
  | VFunction string "nat option" string nat

record property_preview =
  pp_name :: string
  pp_type :: remote_object_type
  pp_value :: "string option"

record object_preview =
  op_type :: remote_object_type
  op_overflow :: bool
  op_properties :: "property_preview list"

record remote_object =
  ro_value :: type_value
  ro_preview :: "object_preview option"

definition RemoteObject :: "type_value \<Rightarrow> remote_object" where
  "RemoteObject v = \<lparr>ro_value = v, ro_preview = None\<rparr>"

definition RemoteObject_Number_signed :: "int \<Rightarrow> remote_object" where
  "RemoteObject_Number_signed number =
     (if -(2 ^ 31) \<le> number \<and> number \<le> 2 ^ 31 - 1 then RemoteObject (VInt number)
      else if number < 0 then RemoteObject (VBigInt (-1) (unat (- (word_of_int number :: u64))))
      else RemoteObject (VBigInt 1 (unat (word_of_int number :: u64))))"

definition RemoteObject_Number_unsigned :: "nat \<Rightarrow> remote_object" where
  "RemoteObject_Number_unsigned number =
     (if number \<le> 2 ^ 31 - 1 then RemoteObject (VInt (int number)) else RemoteObject (VBigInt 1 number))"

text \<open>\<^verbatim>\<open>static_cast<char>('a' + argIdx)\<close> keeps the low byte.\<close>

definition argument_list :: "nat \<Rightarrow> string" where
  "argument_list n = concat (map (\<lambda>argIdx. (if argIdx \<noteq> 0 then '', '' else []) @ [char_of (97 + argIdx)]) [0..<n])"

fun GetDescription :: "type_value \<Rightarrow> string" where
  "GetDescription (VBigInt sign val) = (if sign \<ge> 0 then [] else ''-'') @ to_string val"
| "GetDescription (VBigIntString val) = val"
| "GetDescription (VObject className i description) = (case description of Some d \<Rightarrow> d | None \<Rightarrow> className)"
| "GetDescription (VArray className i len) = className @ ''('' @ to_string len @ '')''"
| "GetDescription (VFunction className i name len) =
     ''function '' @ name @ ''('' @ argument_list len @ '') { [not available] }''"
| "GetDescription _ = []"

fun value_id :: "type_value \<Rightarrow> nat option" where
  "value_id (VObject className i description) = i"
| "value_id (VArray className i len) = i"
| "value_id (VFunction className i name len) = i"
| "value_id _ = None"

abbreviation GetObjectId :: "remote_object \<Rightarrow> nat option" where
  "GetObjectId o' \<equiv> value_id (ro_value o')"

fun value_type :: "type_value \<Rightarrow> remote_object_type" where
  "value_type Monostate = (''undefined'', None)"
| "value_type Nullptr = (''object'', Some ''null'')"
| "value_type (VBool b) = (''boolean'', None)"
| "value_type (VInt i) = (''number'', None)"
| "value_type (VFloat32 f) = (''number'', None)"
| "value_type (VFloat64 f) = (''number'', None)"
| "value_type (VBigInt sign val) = (''bigint'', None)"
| "value_type (VBigIntString val) = (''bigint'', None)"
| "value_type (VString s) = (''string'', None)"
| "value_type (VSymbol s) = (''symbol'', None)"
| "value_type (VObject className i description) = (''object'', None)"
| "value_type (VArray className i len) = (''object'', Some ''array'')"
| "value_type (VFunction className i name len) = (''function'', None)"

fun GetClassName :: "type_value \<Rightarrow> string" where
  "GetClassName (VObject className i description) = className"
| "GetClassName (VArray className i len) = className"
| "GetClassName (VFunction className i name len) = className"
| "GetClassName _ = []"

definition RemoteObjectType_Serialize :: "remote_object_type \<Rightarrow> props" where
  "RemoteObjectType_Serialize t =
     (''type'', JStr (fst t)) # (case snd t of None \<Rightarrow> [] | Some subtype \<Rightarrow> [(''subtype'', JStr subtype)])"

definition PropertyPreview_Serialize :: "property_preview \<Rightarrow> props" where
  "PropertyPreview_Serialize p =
     RemoteObjectType_Serialize (pp_type p) @ [(''name'', JStr (pp_name p))] @
     (case pp_value p of None \<Rightarrow> [] | Some v \<Rightarrow> [(''value'', JStr v)])"

definition ObjectPreview_Serialize :: "object_preview \<Rightarrow> props" where
  "ObjectPreview_Serialize p =
     RemoteObjectType_Serialize (op_type p) @ [(''overflow'', JBool (op_overflow p)),
       (''properties'', JArr (map (\<lambda>q. JObj (PropertyPreview_Serialize q)) (op_properties p)))]"

fun value_props :: "type_value \<Rightarrow> props" where
  "value_props Monostate = [(''description'', JStr ''undefined'')]"
| "value_props Nullptr = [(''value'', JNull)]"
| "value_props (VBool b) = [(''value'', JBool b)]"
| "value_props (VInt i) = [(''value'', JInt i)]"
| "value_props (VFloat32 f) = [(''value'', JFloat32 f)]"
| "value_props (VFloat64 f) = [(''value'', JFloat64 f)]"
| "value_props (VString s) = [(''value'', JStr s)]"
| "value_props (VSymbol s) = [(''description'', JStr s)]"
| "value_props (VBigInt sign val) =
     [(''unserializableValue'', JStr (GetDescription (VBigInt sign val))), (''description'', JStr (GetDescription (VBigInt sign val)))]"
| "value_props (VBigIntString val) =
     [(''unserializableValue'', JStr (GetDescription (VBigIntString val))), (''description'', JStr (GetDescription (VBigIntString val)))]"
| "value_props v = [(''className'', JStr (GetClassName v)), (''description'', JStr (GetDescription v))]"

definition RemoteObject_Serialize :: "remote_object \<Rightarrow> props" where
  "RemoteObject_Serialize o' =
     RemoteObjectType_Serialize (value_type (ro_value o')) @ value_props (ro_value o') @
     (case GetObjectId o' of None \<Rightarrow> [] | Some i \<Rightarrow> [(''objectId'', JStr (to_string i))]) @
     (case ro_preview o' of None \<Rightarrow> [] | Some p \<Rightarrow> [(''preview'', JObj (ObjectPreview_Serialize p))])"

section \<open>Properties\<close>

record property_descriptor =
  pd_name :: string
  pd_symbol :: "remote_object option"
  pd_value :: remote_object
  pd_isAccessor :: bool
  pd_configurable :: bool
  pd_enumerable :: bool
  pd_writable :: bool

definition PropertyDescriptor :: "string \<Rightarrow> remote_object \<Rightarrow> property_descriptor" where
  "PropertyDescriptor name v = \<lparr>pd_name = name, pd_symbol = None, pd_value = v, pd_isAccessor = False,
     pd_configurable = False, pd_enumerable = True, pd_writable = True\<rparr>"

definition PropertyDescriptor_Accessor :: "string \<Rightarrow> remote_object \<Rightarrow> property_descriptor" where
  "PropertyDescriptor_Accessor name getter = (PropertyDescriptor name getter)\<lparr>pd_isAccessor := True\<rparr>"

definition PropertyDescriptor_Serialize :: "property_descriptor \<Rightarrow> props" where
  "PropertyDescriptor_Serialize d =
     [(''name'', JStr (pd_name d))] @
     (case pd_symbol d of None \<Rightarrow> [] | Some s \<Rightarrow> [(''symbol'', JObj (RemoteObject_Serialize s))]) @
     (if pd_isAccessor d then [(''get'', JObj (RemoteObject_Serialize (pd_value d)))]
      else [(''value'', JObj (RemoteObject_Serialize (pd_value d))), (''writable'', JBool (pd_writable d))]) @
     [(''configurable'', JBool (pd_configurable d)), (''enumerable'', JBool (pd_enumerable d))]"

section \<open>Previews\<close>

text \<open>\<open>g\<close> is the format \<open>%g\<close>.\<close>

fun GetPropertyPreviewValue :: "(type_value \<Rightarrow> string) \<Rightarrow> type_value \<Rightarrow> string" where
  "GetPropertyPreviewValue g Monostate = ''undefined''"
| "GetPropertyPreviewValue g Nullptr = ''null''"
| "GetPropertyPreviewValue g (VBool b) = (if b then ''true'' else ''false'')"
| "GetPropertyPreviewValue g (VInt i) = int_to_string i"
| "GetPropertyPreviewValue g (VFloat32 f) = g (VFloat32 f)"
| "GetPropertyPreviewValue g (VFloat64 f) = g (VFloat64 f)"
| "GetPropertyPreviewValue g (VString s) = s"
| "GetPropertyPreviewValue g (VSymbol s) = s"
| "GetPropertyPreviewValue g (VFunction className i name len) = name"
| "GetPropertyPreviewValue g v = GetDescription v"

definition PROPERTIES_NMB_LIMIT :: nat where "PROPERTIES_NMB_LIMIT = 10"

fun preview_loop :: "(type_value \<Rightarrow> string) \<Rightarrow> property_descriptor list \<Rightarrow> property_preview list" where
  "preview_loop g [] = []"
| "preview_loop g (p # ps) =
     (if \<not> pd_enumerable p then preview_loop g ps
      else if pd_isAccessor p
      then \<lparr>pp_name = pd_name p, pp_type = (''accessor'', None), pp_value = None\<rparr> # preview_loop g ps
      else \<lparr>pp_name = pd_name p, pp_type = value_type (ro_value (pd_value p)),
             pp_value = Some (GetPropertyPreviewValue g (ro_value (pd_value p)))\<rparr> # preview_loop g ps)"

definition ObjectPreview :: "(type_value \<Rightarrow> string) \<Rightarrow> remote_object_type \<Rightarrow> property_descriptor list \<Rightarrow> object_preview" where
  "ObjectPreview g type properties =
     \<lparr>op_type = type, op_overflow = (length properties > PROPERTIES_NMB_LIMIT),
      op_properties = preview_loop g (take (min (length properties) PROPERTIES_NMB_LIMIT) properties)\<rparr>"

section \<open>Scopes\<close>

datatype scope_type = GLOBAL | LOCAL

record scope =
  sc_type :: scope_type
  sc_object :: remote_object
  sc_name :: "string option"

fun GetTypeString :: "scope_type \<Rightarrow> string" where
  "GetTypeString GLOBAL = ''global''"
| "GetTypeString LOCAL = ''local''"

definition Scope_Serialize :: "scope \<Rightarrow> props" where
  "Scope_Serialize s =
     [(''type'', JStr (GetTypeString (sc_type s))), (''object'', JObj (RemoteObject_Serialize (sc_object s)))] @
     (case sc_name s of None \<Rightarrow> [] | Some n \<Rightarrow> [(''name'', JStr n)])"


section \<open>The object repository\<close>

datatype tagged_value = THeapObject u64 | TUndefined | THole | TNull | TBoolean bool | TInt int | TDouble u64

text \<open>A property as the extension enumerates it: name, value, whether it is final, whether it is an
  accessor.\<close>

type_synonym enumerated = "string \<times> typed_value \<times> bool \<times> bool"

record lang_ext =
  ext_GetAsString :: "u64 \<Rightarrow> string option"
  ext_GetAsBigIntString :: "u64 \<Rightarrow> string option"
  ext_GetLengthIfArray :: "u64 \<Rightarrow> nat option"
  ext_GetClassName :: "u64 \<Rightarrow> string"
  ext_GetThisParameterName :: string
  ext_globals :: "enumerated list"
  ext_properties :: "u64 \<Rightarrow> enumerated list"
  ext_tagged :: "u64 \<Rightarrow> tagged_value"
  ext_utf8 :: "u16 \<Rightarrow> string"
  ext_format_g :: "type_value \<Rightarrow> string"

record repository =
  rp_counter :: nat
  rp_frames :: "(nat \<times> property_descriptor list) list"
  rp_objects :: "(nat \<times> u64) list"
  rp_failed :: bool

definition GLOBAL_OBJECT_ID :: nat where "GLOBAL_OBJECT_ID = 0"

definition ObjectRepository_new :: repository where
  "ObjectRepository_new = \<lparr>rp_counter = GLOBAL_OBJECT_ID + 1, rp_frames = [], rp_objects = [], rp_failed = False\<rparr>"

definition rp_assert :: "bool \<Rightarrow> repository \<Rightarrow> repository" where
  "rp_assert b r = (if b then r else r\<lparr>rp_failed := True\<rparr>)"

definition CreateGlobalObject :: remote_object where
  "CreateGlobalObject = RemoteObject (VObject ''[Global]'' (Some GLOBAL_OBJECT_ID) (Some ''Global object''))"

definition IsSkippedVariable :: "string \<Rightarrow> bool" where
  "IsSkippedVariable varName \<longleftrightarrow> varName = ''opt''"

definition object_id_of :: "u64 \<Rightarrow> repository \<Rightarrow> nat \<times> repository" where
  "object_id_of object r =
     (case List.find (\<lambda>p. snd p = object) (rp_objects r) of
        None \<Rightarrow> (rp_counter r, r\<lparr>rp_objects := rp_objects r @ [(rp_counter r, object)], rp_counter := Suc (rp_counter r)\<rparr>)
      | Some p \<Rightarrow> (fst p, r))"

definition CreateObject_header :: "lang_ext \<Rightarrow> u64 \<Rightarrow> repository \<Rightarrow> remote_object \<times> repository" where
  "CreateObject_header ext object r =
     (if object = 0 then (RemoteObject Nullptr, r)
      else case ext_GetAsString ext object of
             Some str \<Rightarrow> (RemoteObject (VString str), r)
           | None \<Rightarrow>
               (case ext_GetAsBigIntString ext object of
                  Some str \<Rightarrow> (RemoteObject (VBigIntString str), r)
                | None \<Rightarrow>
                    (case object_id_of object r of
                       (i, r) \<Rightarrow>
                         (case ext_GetLengthIfArray ext object of
                            Some len \<Rightarrow> (RemoteObject (VArray (ext_GetClassName ext object) (Some i) len), r)
                          | None \<Rightarrow> (RemoteObject (VObject (ext_GetClassName ext object) (Some i) None), r)))))"

fun CreateObject_tagged :: "lang_ext \<Rightarrow> tagged_value \<Rightarrow> repository \<Rightarrow> remote_object \<times> repository" where
  "CreateObject_tagged ext (THeapObject object) r = CreateObject_header ext object r"
| "CreateObject_tagged ext TUndefined r = (RemoteObject Monostate, r)"
| "CreateObject_tagged ext THole r = (RemoteObject Monostate, r)"
| "CreateObject_tagged ext TNull r = (RemoteObject Nullptr, r)"
| "CreateObject_tagged ext (TBoolean b) r = (RemoteObject (VBool b), r)"
| "CreateObject_tagged ext (TInt i) r = (RemoteObject (VInt i), r)"
| "CreateObject_tagged ext (TDouble d) r = (RemoteObject (VFloat64 d), r)"

fun CreateObject :: "lang_ext \<Rightarrow> typed_value \<Rightarrow> repository \<Rightarrow> remote_object \<times> repository" where
  "CreateObject ext TV_Invalid r = (RemoteObject Monostate, r)"
| "CreateObject ext TV_Void r = (RemoteObject Monostate, r)"
| "CreateObject ext (TV_U1 b) r = (RemoteObject (VBool b), r)"
| "CreateObject ext (TV_I8 w) r = (RemoteObject (VInt (sint w)), r)"
| "CreateObject ext (TV_U8 w) r = (RemoteObject (VInt (uint w)), r)"
| "CreateObject ext (TV_I16 w) r = (RemoteObject (VInt (sint w)), r)"
| "CreateObject ext (TV_U16 w) r = (RemoteObject (VString (ext_utf8 ext w)), r)"
| "CreateObject ext (TV_I32 w) r = (RemoteObject (VInt (sint w)), r)"
| "CreateObject ext (TV_U32 w) r = (RemoteObject_Number_unsigned (unat w), r)"
| "CreateObject ext (TV_F32 f) r = (RemoteObject (VFloat32 f), r)"
| "CreateObject ext (TV_F64 f) r = (RemoteObject (VFloat64 f), r)"
| "CreateObject ext (TV_I64 w) r = (RemoteObject_Number_signed (sint w), r)"
| "CreateObject ext (TV_U64 w) r = (RemoteObject_Number_unsigned (unat w), r)"
| "CreateObject ext (TV_Reference object) r = CreateObject_header ext object r"
| "CreateObject ext (TV_Tagged t) r = CreateObject_tagged ext (ext_tagged ext t) r"

fun frame_loop ::
  "lang_ext \<Rightarrow> (string \<times> typed_value) list \<Rightarrow> property_descriptor list \<Rightarrow> remote_object option \<Rightarrow> repository \<Rightarrow>
     property_descriptor list \<times> remote_object option \<times> repository" where
  "frame_loop ext [] properties objThis r = (properties, objThis, r)"
| "frame_loop ext ((paramName, val) # rest) properties objThis r =
     (if IsSkippedVariable paramName then frame_loop ext rest properties objThis r
      else case CreateObject ext val r of
             (obj, r) \<Rightarrow>
               if paramName = ext_GetThisParameterName ext then frame_loop ext rest properties (Some obj) r
               else frame_loop ext rest (properties @ [PropertyDescriptor paramName obj]) objThis r)"

definition CreateFrameObject ::
  "lang_ext \<Rightarrow> nat \<Rightarrow> (string \<times> typed_value) list \<Rightarrow> remote_object option \<Rightarrow> repository \<Rightarrow>
     remote_object \<times> remote_object option \<times> repository" where
  "CreateFrameObject ext frameNumber locals objThis r =
     (case frame_loop ext locals [] objThis r of
        (properties, objThis, r) \<Rightarrow>
          (RemoteObject (VObject [] (Some (rp_counter r)) (Some (''Frame #'' @ to_string frameNumber))), objThis,
           r\<lparr>rp_counter := Suc (rp_counter r), rp_frames := rp_frames r @ [(rp_counter r, properties)]\<rparr>))"

fun property_loop ::
  "lang_ext \<Rightarrow> enumerated list \<Rightarrow> property_descriptor list \<Rightarrow> repository \<Rightarrow> property_descriptor list \<times> repository" where
  "property_loop ext [] properties r = (properties, r)"
| "property_loop ext ((name, val, isFinal, isAccessor) # rest) properties r =
     (case CreateObject ext val r of
        (obj, r) \<Rightarrow>
          let property = (if isAccessor then PropertyDescriptor_Accessor name obj else PropertyDescriptor name obj);
              property = (if \<not> isAccessor \<and> isFinal then property\<lparr>pd_writable := False\<rparr> else property)
          in property_loop ext rest (properties @ [property]) r)"

definition ObjectRepository_properties :: "lang_ext \<Rightarrow> nat \<Rightarrow> repository \<Rightarrow> property_descriptor list \<times> repository" where
  "ObjectRepository_properties ext i r =
     (case map_of (rp_frames r) i of
        Some properties \<Rightarrow> (properties, rp_assert (map_of (rp_objects r) i = None) r)
      | None \<Rightarrow>
          if i = GLOBAL_OBJECT_ID
          then property_loop ext (ext_globals ext) [] (rp_assert (map_of (rp_objects r) i = None) r)
          else case map_of (rp_objects r) i of
                 None \<Rightarrow> ([], r)
               | Some object \<Rightarrow> property_loop ext (ext_properties ext object) [] r)"

definition CreateObjectPreview :: "lang_ext \<Rightarrow> remote_object \<Rightarrow> repository \<Rightarrow> object_preview option \<times> repository" where
  "CreateObjectPreview ext remobj r =
     (case GetObjectId remobj of
        None \<Rightarrow> (None, r)
      | Some valueId \<Rightarrow>
          (case ObjectRepository_properties ext valueId r of
             (properties, r) \<Rightarrow> (Some (ObjectPreview (ext_format_g ext) (value_type (ro_value remobj)) properties), r)))"

fun previews_loop :: "lang_ext \<Rightarrow> property_descriptor list \<Rightarrow> repository \<Rightarrow> property_descriptor list \<times> repository" where
  "previews_loop ext [] r = ([], r)"
| "previews_loop ext (p # ps) r =
     (if pd_isAccessor p then (case previews_loop ext ps r of (ps, r) \<Rightarrow> (p # ps, r))
      else case CreateObjectPreview ext (pd_value p) r of
             (preview, r) \<Rightarrow>
               (case previews_loop ext ps r of
                  (ps, r) \<Rightarrow>
                    ((case preview of
                        None \<Rightarrow> p
                      | Some v \<Rightarrow> p\<lparr>pd_value := (pd_value p)\<lparr>ro_preview := Some v\<rparr>\<rparr>) # ps, r)))"

definition ObjectRepository_GetProperties ::
  "lang_ext \<Rightarrow> nat \<Rightarrow> bool \<Rightarrow> repository \<Rightarrow> property_descriptor list \<times> repository" where
  "ObjectRepository_GetProperties ext i generatePreview r =
     (case ObjectRepository_properties ext i r of
        (properties, r) \<Rightarrow> if generatePreview then previews_loop ext properties r else (properties, r))"

section \<open>Ids name objects\<close>

definition repo_inv :: "repository \<Rightarrow> bool" where
  "repo_inv r \<longleftrightarrow> \<not> rp_failed r \<and> distinct (map fst (rp_frames r) @ map fst (rp_objects r)) \<and>
     distinct (map snd (rp_objects r)) \<and>
     (\<forall>i \<in> fst ` set (rp_frames r) \<union> fst ` set (rp_objects r). GLOBAL_OBJECT_ID < i \<and> i < rp_counter r) \<and> 0 < rp_counter r"

text \<open>What an operation does to the repository: the entries that are there stay.\<close>

definition grows :: "repository \<Rightarrow> repository \<Rightarrow> bool" where
  "grows r r' \<longleftrightarrow> (repo_inv r \<longrightarrow> repo_inv r') \<and> set (rp_objects r) \<subseteq> set (rp_objects r') \<and> set (rp_frames r) \<subseteq> set (rp_frames r')"

lemma grows_refl [simp, intro]: "grows r r"
  by (simp add: grows_def)

lemma grows_trans: "grows r s \<Longrightarrow> grows s t \<Longrightarrow> grows r t"
  by (auto simp: grows_def)

lemma repo_inv_fresh:
  assumes "repo_inv r"
  shows "rp_counter r \<notin> fst ` set (rp_frames r)" "rp_counter r \<notin> fst ` set (rp_objects r)"
  using assms by (auto simp: repo_inv_def)

lemma repo_inv_frame:
  assumes "repo_inv r"
  shows "repo_inv (r\<lparr>rp_counter := Suc (rp_counter r), rp_frames := rp_frames r @ [(rp_counter r, ps)]\<rparr>)"
  using assms repo_inv_fresh [OF assms]
  by (simp add: repo_inv_def GLOBAL_OBJECT_ID_def ball_Un less_Suc_eq)

lemma repo_inv_object:
  assumes "repo_inv r" "object \<notin> snd ` set (rp_objects r)"
  shows "repo_inv (r\<lparr>rp_objects := rp_objects r @ [(rp_counter r, object)], rp_counter := Suc (rp_counter r)\<rparr>)"
  using assms repo_inv_fresh [OF assms(1)]
  by (simp add: repo_inv_def GLOBAL_OBJECT_ID_def ball_Un less_Suc_eq)

lemma object_id_of_spec:
  assumes "object_id_of object r = (i, r')"
  shows "(i, object) \<in> set (rp_objects r')" "grows r r'"
proof -
  show "(i, object) \<in> set (rp_objects r')"
    using assms by (auto simp: object_id_of_def find_Some_iff split: option.splits)
  show "grows r r'"
  proof (cases "List.find (\<lambda>p. snd p = object) (rp_objects r)")
    case None
    then have "object \<notin> snd ` set (rp_objects r)" by (auto simp: find_None_iff)
    then show ?thesis using assms None repo_inv_object [of r object]
      by (auto simp: object_id_of_def grows_def)
  next
    case (Some p)
    then show ?thesis using assms by (simp add: object_id_of_def)
  qed
qed

lemma CreateObject_header_grows: "CreateObject_header ext object r = (o', r') \<Longrightarrow> grows r r'"
  by (auto simp: CreateObject_header_def dest: object_id_of_spec(2) split: if_splits option.splits prod.splits)

lemma CreateObject_header_id:
  assumes "CreateObject_header ext object r = (o', r')" "GetObjectId o' = Some i"
  shows "(i, object) \<in> set (rp_objects r')"
  using assms by (auto simp: CreateObject_header_def RemoteObject_def dest: object_id_of_spec(1) split: if_splits option.splits prod.splits)

lemma CreateObject_grows: "CreateObject ext v r = (o', r') \<Longrightarrow> grows r r'"
proof (induction ext v r rule: CreateObject.induct)
  case (15 ext t r)
  then show ?case by (cases "ext_tagged ext t") (auto dest: CreateObject_header_grows)
qed (auto dest: CreateObject_header_grows)



lemma frame_loop_grows: "frame_loop ext locals ps th r = (ps', th', r') \<Longrightarrow> grows r r'"
proof (induction ext locals ps th r rule: frame_loop.induct)
  case (2 ext paramName val rest properties objThis r)
  then show ?case
    by (cases "CreateObject ext val r") (auto dest: CreateObject_grows intro: grows_trans split: if_splits)
qed simp

lemma CreateFrameObject_grows: "CreateFrameObject ext n locals th r = (o', th', r') \<Longrightarrow> grows r r'"
proof -
  assume a: "CreateFrameObject ext n locals th r = (o', th', r')"
  obtain ps t s where l: "frame_loop ext locals [] th r = (ps, t, s)" by (cases "frame_loop ext locals [] th r")
  have "grows s r'" using a l repo_inv_frame [of s] by (auto simp: CreateFrameObject_def grows_def)
  with frame_loop_grows [OF l] show ?thesis by (rule grows_trans)
qed

lemma property_loop_grows:
  "property_loop ext es ps r = (ps', r') \<Longrightarrow> grows r r' \<and> map pd_name ps' = map pd_name ps @ map fst es"
proof (induction ext es ps r rule: property_loop.induct)
  case (2 ext name val isFinal isAccessor rest properties r)
  obtain obj s where s: "CreateObject ext val r = (obj, s)" by (cases "CreateObject ext val r")
  then show ?case using 2 CreateObject_grows [OF s]
    by (auto simp: Let_def PropertyDescriptor_def PropertyDescriptor_Accessor_def intro: grows_trans split: if_splits)
qed simp

lemma repo_inv_frames: "repo_inv r \<Longrightarrow> i \<in> fst ` set (rp_frames r) \<Longrightarrow> map_of (rp_objects r) i = None"
  by (auto simp: repo_inv_def map_of_eq_None_iff)

lemma repo_inv_global: "repo_inv r \<Longrightarrow> map_of (rp_objects r) GLOBAL_OBJECT_ID = None"
  by (auto simp: repo_inv_def map_of_eq_None_iff)

lemma assert_grows: "(repo_inv r \<Longrightarrow> b) \<Longrightarrow> grows r (rp_assert b r)"
  by (auto simp: grows_def rp_assert_def)

lemma properties_grows: "ObjectRepository_properties ext i r = (ps, r') \<Longrightarrow> grows r r'"
proof -
  assume a: "ObjectRepository_properties ext i r = (ps, r')"
  show ?thesis
  proof (cases "map_of (rp_frames r) i")
    case (Some fs)
    have "i \<in> fst ` set (rp_frames r)" using image_eqI [OF _ map_of_SomeD [OF Some], of i fst] by simp
    then have "grows r (rp_assert (map_of (rp_objects r) i = None) r)" by (intro assert_grows repo_inv_frames)
    then show ?thesis using a Some by (auto simp: ObjectRepository_properties_def)
  next
    case None
    have "grows r (rp_assert (map_of (rp_objects r) GLOBAL_OBJECT_ID = None) r)"
      by (rule assert_grows) (rule repo_inv_global)
    then show ?thesis using a None property_loop_grows
      by (auto simp: ObjectRepository_properties_def intro: grows_trans split: if_splits option.splits)
  qed
qed

lemma CreateObjectPreview_grows: "CreateObjectPreview ext o' r = (p, r') \<Longrightarrow> grows r r'"
  by (auto simp: CreateObjectPreview_def dest: properties_grows split: option.splits prod.splits)

lemma previews_loop_grows: "previews_loop ext ps r = (ps', r') \<Longrightarrow> grows r r'"
proof (induction ext ps r arbitrary: ps' r' rule: previews_loop.induct)
  case (2 ext p ps r)
  obtain v s where s: "CreateObjectPreview ext (pd_value p) r = (v, s)" by (cases "CreateObjectPreview ext (pd_value p) r")
  then show ?case using 2 CreateObjectPreview_grows [OF s]
    by (auto intro: grows_trans split: if_splits prod.splits)
qed simp

lemma GetProperties_grows: "ObjectRepository_GetProperties ext i b r = (ps, r') \<Longrightarrow> grows r r'"
  by (auto simp: ObjectRepository_GetProperties_def dest: properties_grows previews_loop_grows
      intro: grows_trans split: if_splits prod.splits)

text \<open>The operations of the repository, in any order.\<close>

inductive repo_reach :: "lang_ext \<Rightarrow> repository \<Rightarrow> repository \<Rightarrow> bool" for ext r where
  here: "repo_reach ext r r"
| creates: "repo_reach ext r s \<Longrightarrow> CreateObject ext v s = (o', t) \<Longrightarrow> repo_reach ext r t"
| frames: "repo_reach ext r s \<Longrightarrow> CreateFrameObject ext n locals th s = (o', th', t) \<Longrightarrow> repo_reach ext r t"
| enumerates: "repo_reach ext r s \<Longrightarrow> ObjectRepository_GetProperties ext i b s = (ps, t) \<Longrightarrow> repo_reach ext r t"

lemma repo_reach_grows: "repo_reach ext r s \<Longrightarrow> grows r s"
  by (induction rule: repo_reach.induct)
     (auto dest: CreateObject_grows CreateFrameObject_grows GetProperties_grows intro: grows_trans)

lemma repo_inv_new: "repo_inv ObjectRepository_new"
  by (simp add: repo_inv_def ObjectRepository_new_def)

lemma repo_ids_unique:
  assumes "repo_inv r" "(i, p) \<in> set (rp_objects r)" "(j, q) \<in> set (rp_objects r)"
  shows "i = j \<longleftrightarrow> p = q"
  using assms distinct_map_fst_unique [of "rp_objects r" i p q] distinct_map_snd_unique [of "rp_objects r" i p j]
  by (auto simp: repo_inv_def)

text \<open>
  C34. Object ids name objects: whatever was created and listed before and in between, two objects
  are shown under the same id exactly when they are the same object, the id lists the properties of
  that object in the order the runtime enumerates them, and the repository's assertions, that an id
  is not that of a frame and of an object, hold.
\<close>

theorem object_ids:
  assumes "repo_reach ext ObjectRepository_new r" "CreateObject ext (TV_Reference p) r = (o1, r1)"
    and "repo_reach ext r1 r2" "CreateObject ext (TV_Reference q) r2 = (o2, r3)"
    and "GetObjectId o1 = Some i" "GetObjectId o2 = Some j"
  shows "(i = j \<longleftrightarrow> p = q) \<and> map pd_name (fst (ObjectRepository_properties ext i r3)) = map fst (ext_properties ext p) \<and>
    \<not> rp_failed (snd (ObjectRepository_properties ext i r3))"
proof -
  note g = repo_reach_grows [OF assms(1)] CreateObject_grows [OF assms(2)] repo_reach_grows [OF assms(3)]
    CreateObject_grows [OF assms(4)]
  have inv: "repo_inv r3" using g repo_inv_new by (simp add: grows_def)
  have "(i, p) \<in> set (rp_objects r1)" using CreateObject_header_id assms(2,5) by simp
  then have p: "(i, p) \<in> set (rp_objects r3)" using g(3,4) by (auto simp: grows_def)
  have q: "(j, q) \<in> set (rp_objects r3)" using CreateObject_header_id assms(4,6) by simp
  have "map_of (rp_objects r3) i = Some p" using p inv by (simp add: repo_inv_def)
  moreover have "i \<noteq> GLOBAL_OBJECT_ID" using calculation repo_inv_global [OF inv] by auto
  moreover have "map_of (rp_frames r3) i = None"
    using calculation repo_inv_frames [OF inv, of i] by (auto simp: map_of_eq_None_iff)
  ultimately have e: "ObjectRepository_properties ext i r3 = property_loop ext (ext_properties ext p) [] r3"
    by (simp add: ObjectRepository_properties_def)
  obtain ps r4 where ps: "property_loop ext (ext_properties ext p) [] r3 = (ps, r4)"
    by (cases "property_loop ext (ext_properties ext p) [] r3")
  have "repo_inv r4" "map pd_name ps = map fst (ext_properties ext p)"
    using property_loop_grows [OF ps] inv by (simp_all add: grows_def)
  then show ?thesis using repo_ids_unique [OF inv p q] e ps by (simp add: repo_inv_def)
qed


definition sample_ext :: lang_ext where
  "sample_ext = \<lparr>ext_GetAsString = (\<lambda>_. None), ext_GetAsBigIntString = (\<lambda>_. None),
     ext_GetLengthIfArray = (\<lambda>p. if p = 16 then Some 3 else None), ext_GetClassName = (\<lambda>_. ''A''),
     ext_GetThisParameterName = ''this'', ext_globals = [],
     ext_properties = (\<lambda>p. if p = 8 then [(''x'', TV_I32 5, False, False), (''next'', TV_Reference 16, True, False)] else []),
     ext_tagged = (\<lambda>_. TUndefined), ext_utf8 = (\<lambda>_. []), ext_format_g = (\<lambda>_. [])\<rparr>"

lemmas sample_repo_defs = sample_ext_def ObjectRepository_new_def CreateObject_header_def object_id_of_def RemoteObject_def
  GLOBAL_OBJECT_ID_def CreateFrameObject_def IsSkippedVariable_def

theorem object_ids_witness:
  "let (o1, r1) = CreateObject sample_ext (TV_Reference 8) ObjectRepository_new;
       (f, th, r2) = CreateFrameObject sample_ext 0 [(''a'', TV_Reference 16)] None r1;
       (o2, r3) = CreateObject sample_ext (TV_Reference 16) r2
   in GetObjectId o1 = Some 1 \<and> GetObjectId o2 = Some 2 \<and>
      map pd_name (fst (ObjectRepository_properties sample_ext 1 r3)) = [''x'', ''next'']"
proof -
  obtain o1 r1 where 1: "CreateObject sample_ext (TV_Reference 8) ObjectRepository_new = (o1, r1)" "GetObjectId o1 = Some 1"
    "rp_counter r1 = 2" "rp_objects r1 = [(1, 8)]"
    by (simp add: sample_repo_defs)
  obtain f th r2 where 2: "CreateFrameObject sample_ext 0 [(''a'', TV_Reference 16)] None r1 = (f, th, r2)"
    "rp_objects r2 = [(1, 8), (2, 16)]"
    using 1 by (simp add: sample_repo_defs)
  obtain o2 r3 where 3: "CreateObject sample_ext (TV_Reference 16) r2 = (o2, r3)" "GetObjectId o2 = Some 2"
    using 2 by (simp add: sample_repo_defs)
  have "repo_reach sample_ext r1 r2" by (rule repo_reach.frames [OF repo_reach.here 2(1)])
  from object_ids [OF repo_reach.here 1(1) this 3(1) 1(2) 3(2)] show ?thesis
    using 1 2 3 by (simp add: sample_ext_def)
qed

section \<open>Integers are shown exactly\<close>

text \<open>The text a client shows for a number: the number itself, or the description of a big integer.\<close>

fun integer_text :: "type_value \<Rightarrow> string option" where
  "integer_text (VInt i) = Some (int_to_string i)"
| "integer_text (VBigInt sign val) = Some (GetDescription (VBigInt sign val))"
| "integer_text _ = None"

fun integer_value :: "typed_value \<Rightarrow> int option" where
  "integer_value (TV_I8 w) = Some (sint w)"
| "integer_value (TV_U8 w) = Some (uint w)"
| "integer_value (TV_I16 w) = Some (sint w)"
| "integer_value (TV_I32 w) = Some (sint w)"
| "integer_value (TV_U32 w) = Some (uint w)"
| "integer_value (TV_I64 w) = Some (sint w)"
| "integer_value (TV_U64 w) = Some (uint w)"
| "integer_value _ = None"

lemma Number_signed_text:
  fixes w :: u64
  shows "integer_text (ro_value (RemoteObject_Number_signed (sint w))) = Some (int_to_string (sint w))"
proof -
  have r: "- (2 ^ 63) \<le> sint w" "sint w < 2 ^ 63" using sint_range_size [of w] by (simp_all add: word_size)
  have k: "unat (word_of_int k :: u64) = nat k" if "0 \<le> k" "k < 2 ^ 64" for k
    using that by (simp add: unsigned_of_int take_bit_int_eq_self)
  have "unat (- w) = nat (- sint w)" if "sint w < 0" using k [of "- sint w"] that r by simp
  moreover have "unat w = nat (sint w)" if "0 \<le> sint w" using k [of "sint w"] that r by simp
  ultimately show ?thesis by (auto simp: RemoteObject_Number_signed_def RemoteObject_def int_to_string_def)
qed


lemma Number_unsigned_text: "integer_text (ro_value (RemoteObject_Number_unsigned n)) = Some (int_to_string (int n))"
  by (simp add: RemoteObject_Number_unsigned_def RemoteObject_def int_to_string_def)



end
