(* ===== verification/Hybrid_Frames.thy ===== *)
theory Hybrid_Frames
  imports Remote_Objects
begin

text \<open>
  Frames of a stack that static and dynamic code share: the common form of objects, scopes and frames
  (tooling/hybrid_step/frame_info.h), the registry of the two debuggers' providers
  (frame_info_extractor.cpp), the static debugger's provider (tooling/static/hybrid) and the
  conversions back (tooling/static/inspector.cpp). Addresses of frames and virtual machines are
  numbers, 0 for the null pointer; a \<^verbatim>\<open>double\<close> is its bits.
\<close>

section \<open>The common form\<close>

datatype unified_type = UNDEFINED | NULL_VALUE | BOOLEAN | NUMBER | STRING | OBJECT | FUNCTION | ARRAY

record unified_object =
  un_type :: unified_type
  un_className :: string
  un_objectId :: "nat option"
  un_description :: "string option"
  un_booleanValue :: "bool option"
  un_numberValue :: "u64 option"
  un_stringValue :: "string option"

definition UnifiedRemoteObject_new :: unified_object where
  "UnifiedRemoteObject_new = \<lparr>un_type = UNDEFINED, un_className = [], un_objectId = None, un_description = None,
     un_booleanValue = None, un_numberValue = None, un_stringValue = None\<rparr>"

datatype unified_scope_type = US_GLOBAL | US_LOCAL | US_CLOSURE | US_WITH | US_CATCH | US_BLOCK | US_MODULE

record unified_scope =
  us_type :: unified_scope_type
  us_object :: unified_object
  us_name :: "string option"

record unified_frame =
  uf_methodName :: string
  uf_sourceFile :: string
  uf_lineNumber :: int
  uf_columnNumber :: int
  uf_isStaticFrame :: bool
  uf_hasInfo :: bool
  uf_scopeChain :: "unified_scope list"
  uf_thisObject :: "unified_object option"
  uf_returnValue :: "unified_object option"

definition UnifiedFrameInfo_new :: unified_frame where
  "UnifiedFrameInfo_new = \<lparr>uf_methodName = [], uf_sourceFile = [], uf_lineNumber = 0, uf_columnNumber = 0,
     uf_isStaticFrame = False, uf_hasInfo = False, uf_scopeChain = [], uf_thisObject = None, uf_returnValue = None\<rparr>"

section \<open>Providers\<close>

text \<open>A provider fills in the frame it is given and says whether it could.\<close>

type_synonym provider = "nat \<Rightarrow> unified_frame \<Rightarrow> bool \<times> unified_frame"

record frame_info_extractor =
  fx_static :: "provider option"
  fx_dynamic :: "(nat \<times> provider option) list"

definition RegisterProvider :: "bool \<Rightarrow> nat \<Rightarrow> provider option \<Rightarrow> frame_info_extractor \<Rightarrow> frame_info_extractor" where
  "RegisterProvider isStaticFrame vm provider x =
     (if isStaticFrame then x\<lparr>fx_static := provider\<rparr> else x\<lparr>fx_dynamic := AList.update vm provider (fx_dynamic x)\<rparr>)"

definition UnregisterProvider :: "nat \<Rightarrow> frame_info_extractor \<Rightarrow> frame_info_extractor" where
  "UnregisterProvider vm x = x\<lparr>fx_dynamic := AList.delete vm (fx_dynamic x)\<rparr>"

definition Extractor_ExtractFrameInfo ::
  "nat \<Rightarrow> nat \<Rightarrow> bool \<Rightarrow> unified_frame \<Rightarrow> frame_info_extractor \<Rightarrow> bool \<times> unified_frame" where
  "Extractor_ExtractFrameInfo vm framePtr isStaticFrame info x =
     (let info = info\<lparr>uf_isStaticFrame := isStaticFrame\<rparr>
      in if isStaticFrame
         then (case fx_static x of
                 Some provider \<Rightarrow> provider framePtr info
               | None \<Rightarrow> (False, info\<lparr>uf_hasInfo := False\<rparr>))
         else (case map_of (fx_dynamic x) vm of
                 Some (Some provider) \<Rightarrow> provider framePtr info
               | _ \<Rightarrow> (False, info\<lparr>uf_hasInfo := False\<rparr>)))"

definition ExtractStaticFrameInfo :: "nat \<Rightarrow> unified_frame \<Rightarrow> frame_info_extractor \<Rightarrow> bool \<times> unified_frame" where
  "ExtractStaticFrameInfo framePtr info x = Extractor_ExtractFrameInfo 0 framePtr True info x"

definition ExtractDynamicFrameInfo :: "nat \<Rightarrow> nat \<Rightarrow> unified_frame \<Rightarrow> frame_info_extractor \<Rightarrow> bool \<times> unified_frame" where
  "ExtractDynamicFrameInfo vm framePtr info x = Extractor_ExtractFrameInfo vm framePtr False info x"

section \<open>The static provider\<close>

definition ConvertToUnifiedRemoteObject :: "remote_object \<Rightarrow> unified_object" where
  "ConvertToUnifiedRemoteObject staticObj =
     (let objType = value_type (ro_value staticObj); u = UnifiedRemoteObject_new;
          u = (if objType = (''undefined'', None) then u\<lparr>un_type := UNDEFINED\<rparr>
               else if objType = (''object'', Some ''null'') then u\<lparr>un_type := NULL_VALUE\<rparr>
               else if objType = (''boolean'', None) then u\<lparr>un_type := BOOLEAN\<rparr>
               else if objType = (''number'', None) then u\<lparr>un_type := NUMBER\<rparr>
               else if objType = (''string'', None) then u\<lparr>un_type := STRING\<rparr>
               else if objType = (''object'', None)
               then u\<lparr>un_type := OBJECT, un_description := Some (GetDescription (ro_value staticObj))\<rparr>
               else if objType = (''function'', None) then u\<lparr>un_type := FUNCTION\<rparr>
               else u\<lparr>un_type := OBJECT\<rparr>)
      in u\<lparr>un_className := GetClassName (ro_value staticObj)\<rparr>)"

text \<open>The frame at an address and its number are the runtime's; a frame whose offset lies before its
  line table is \<open>None\<close>, as in \<open>GetSourceLocation\<close>.\<close>

definition StaticFrameProvider_ExtractFrameInfo ::
  "lang_ext \<Rightarrow> u64 set \<Rightarrow> debug_info_cache \<Rightarrow> (nat \<Rightarrow> pt_frame \<times> nat) \<Rightarrow> nat \<Rightarrow> unified_frame \<Rightarrow> (bool \<times> unified_frame) option" where
  "StaticFrameProvider_ExtractFrameInfo ext special c frame_at framePtr info =
     (if framePtr = 0 then Some (False, info\<lparr>uf_hasInfo := False\<rparr>)
      else let (frame, frameNumber) = frame_at framePtr
           in case GetSourceLocation c frame ([], [], 0) of
                None \<Rightarrow> None
              | Some (sourceFile, methodName, lineNumber) \<Rightarrow>
                  if sourceFile = [] then Some (False, info\<lparr>uf_hasInfo := False\<rparr>)
                  else let (frameObject, objThis, _) =
                             CreateFrameObject ext frameNumber (GetLocals special c frame) None ObjectRepository_new;
                           localScope = \<lparr>us_type = US_LOCAL, us_object = ConvertToUnifiedRemoteObject frameObject, us_name = None\<rparr>;
                           globalScope = \<lparr>us_type = US_GLOBAL, us_object = ConvertToUnifiedRemoteObject CreateGlobalObject, us_name = None\<rparr>
                       in Some (True, info\<lparr>uf_methodName := methodName, uf_sourceFile := sourceFile, uf_lineNumber := lineNumber,
                            uf_columnNumber := 0, uf_isStaticFrame := True, uf_hasInfo := True,
                            uf_scopeChain := uf_scopeChain info @ [localScope, globalScope],
                            uf_thisObject := (case objThis of None \<Rightarrow> uf_thisObject info
                                              | Some t \<Rightarrow> Some (ConvertToUnifiedRemoteObject t))\<rparr>))"

section \<open>Back to the static debugger\<close>

fun ConvertUnifiedScopeType :: "unified_scope_type \<Rightarrow> scope_type" where
  "ConvertUnifiedScopeType US_GLOBAL = GLOBAL"
| "ConvertUnifiedScopeType _ = LOCAL"

definition ConvertFromUnifiedRemoteObject :: "unified_object \<Rightarrow> remote_object" where
  "ConvertFromUnifiedRemoteObject u =
     (let named = (\<lambda>d. if un_className u = [] then d else un_className u)
      in case un_type u of
           UNDEFINED \<Rightarrow> RemoteObject Monostate
         | NULL_VALUE \<Rightarrow> RemoteObject Nullptr
         | BOOLEAN \<Rightarrow> RemoteObject (VBool (case un_booleanValue u of Some b \<Rightarrow> b | None \<Rightarrow> False))
         | NUMBER \<Rightarrow> RemoteObject (case un_numberValue u of Some d \<Rightarrow> VFloat64 d | None \<Rightarrow> VInt 0)
         | STRING \<Rightarrow> RemoteObject (VString (case un_stringValue u of Some s \<Rightarrow> s | None \<Rightarrow> []))
         | OBJECT \<Rightarrow> RemoteObject (VObject (named ''Object'') (un_objectId u) (un_description u))
         | FUNCTION \<Rightarrow> RemoteObject (VFunction (named ''Function'') (un_objectId u) [] 0)
         | ARRAY \<Rightarrow> RemoteObject (VArray (named ''Array'') (un_objectId u) 0))"

text \<open>What the client is told of a frame.\<close>

record call_frame =
  cf_frameId :: nat
  cf_methodName :: string
  cf_sourceFile :: string
  cf_scriptIdentity :: string
  cf_lineNumber :: int
  cf_scopeChain :: "scope list"
  cf_this :: "remote_object option"
  cf_isStaticFrame :: bool

definition ProcessDynamicFrame ::
  "frame_info_extractor \<Rightarrow> nat \<Rightarrow> nat \<Rightarrow> nat \<Rightarrow> call_frame option" where
  "ProcessDynamicFrame x vm frame frameId =
     (case ExtractDynamicFrameInfo vm frame UnifiedFrameInfo_new x of
        (ok, info) \<Rightarrow>
          if \<not> ok \<or> \<not> uf_hasInfo info then None
          else Some \<lparr>cf_frameId = frameId, cf_methodName = uf_methodName info, cf_sourceFile = uf_sourceFile info,
                 cf_scriptIdentity = [], cf_lineNumber = int32_of (uf_lineNumber info + 1),
                 cf_scopeChain = map (\<lambda>s. \<lparr>sc_type = ConvertUnifiedScopeType (us_type s),
                   sc_object = ConvertFromUnifiedRemoteObject (us_object s), sc_name = us_name s\<rparr>) (uf_scopeChain info),
                 cf_this = map_option ConvertFromUnifiedRemoteObject (uf_thisObject info), cf_isStaticFrame = False\<rparr>)"

text \<open>What the two conversions keep of an object: its kind (but an array, a symbol and a big integer
  become an object) and its class; a primitive value and the id are lost.\<close>

fun unified_kept :: "type_value \<Rightarrow> type_value" where
  "unified_kept (VBool b) = VBool False"
| "unified_kept (VInt i) = VInt 0"
| "unified_kept (VFloat32 f) = VInt 0"
| "unified_kept (VFloat64 f) = VInt 0"
| "unified_kept (VString s) = VString []"
| "unified_kept (VBigInt s n) = VObject ''Object'' None None"
| "unified_kept (VBigIntString s) = VObject ''Object'' None None"
| "unified_kept (VSymbol s) = VObject ''Object'' None None"
| "unified_kept (VObject c i d) = VObject (if c = [] then ''Object'' else c) None (Some (case d of Some d \<Rightarrow> d | None \<Rightarrow> c))"
| "unified_kept (VArray c i n) = VObject (if c = [] then ''Object'' else c) None None"
| "unified_kept (VFunction c i n l) = VFunction (if c = [] then ''Function'' else c) None [] 0"
| "unified_kept v = v"

lemma unified_conversions:
  "ro_value (ConvertFromUnifiedRemoteObject (ConvertToUnifiedRemoteObject o')) = unified_kept (ro_value o')"
  by (cases "ro_value o'") (simp_all add: ConvertFromUnifiedRemoteObject_def ConvertToUnifiedRemoteObject_def
      UnifiedRemoteObject_new_def RemoteObject_def Let_def)

end
