(* ===== verification/Inspector_Events.thy ===== *)
theory Inspector_Events
  imports Sessions Hybrid_Frames Debuggable_Thread Base64 "HOL-Library.Product_Lexorder"
begin

text \<open>
  What the static inspector tells the client: the events of \<^verbatim>\<open>InspectorServer\<close>
  (tooling/static/inspector_server.cpp), the endpoint they leave through
  (tooling/static/connection/ohos_ws) and the frames, asynchronous stack traces and evaluation
  results they carry (tooling/static/inspector.cpp and tooling/static/types).
\<close>

section \<open>The server\<close>

text \<open>The state of \<^verbatim>\<open>InspectorServer\<close> and of the server it sends through: \<open>sv_connected\<close> says that there is
  an endpoint and that it is connected, \<open>sv_sent\<close> holds what it was given to send.\<close>

record 'msg inspector_server =
  sv_sessions :: sessions
  sv_sources :: source_manager
  sv_running :: bool
  sv_connected :: bool
  sv_syncMode :: bool
  sv_syncResponse :: "'msg option"
  sv_sent :: "'msg list"

definition SetSyncResponse :: "'msg \<Rightarrow> 'msg inspector_server \<Rightarrow> 'msg inspector_server" where
  "SetSyncResponse response s = s\<lparr>sv_syncResponse := Some response\<rparr>"

definition SendMessage :: "'msg \<Rightarrow> 'msg inspector_server \<Rightarrow> 'msg inspector_server" where
  "SendMessage message s =
     (if sv_syncMode s then SetSyncResponse message s
      else if sv_connected s then s\<lparr>sv_sent := sv_sent s @ [message]\<rparr> else s)"

definition Server_Kill :: "'msg inspector_server \<Rightarrow> 'msg inspector_server" where
  "Server_Kill s = s\<lparr>sv_running := False\<rparr>"

definition Server_Call ::
  "('j, 'msg) json_ops \<Rightarrow> string \<Rightarrow> string \<Rightarrow> props \<Rightarrow> 'msg inspector_server \<Rightarrow> 'msg inspector_server" where
  "Server_Call js sessionId method params s = ServerEndpointBase_Call js SendMessage (sv_syncMode s) sessionId method params s"

section \<open>Events\<close>

fun GetPauseReasonString :: "PauseReason \<Rightarrow> string" where
  "GetPauseReasonString PR_EXCEPTION = ''exception''"
| "GetPauseReasonString PR_BREAK_ON_START = ''Break on start''"
| "GetPauseReasonString _ = ''other''"

definition CallDebuggerResumed ::
  "('j, 'msg) json_ops \<Rightarrow> (pt_thread \<Rightarrow> nat) \<Rightarrow> pt_thread \<Rightarrow> 'msg inspector_server \<Rightarrow> 'msg inspector_server" where
  "CallDebuggerResumed js tid thread s =
     Server_Call js (GetSessionIdByThread tid (sv_sessions s) thread) ''Debugger.resumed'' [] s"

definition CallDebuggerScriptParsed ::
  "('j, 'msg) json_ops \<Rightarrow> nat \<Rightarrow> string \<Rightarrow> 'msg inspector_server \<Rightarrow> 'msg inspector_server" where
  "CallDebuggerScriptParsed js scriptId sourceFile s =
     Server_Call js '''' ''Debugger.scriptParsed''
       [(''executionContextId'', JInt 0), (''scriptId'', JStr (to_string scriptId)), (''url'', JStr sourceFile),
        (''startLine'', JInt 0), (''startColumn'', JInt 0), (''endLine'', JInt (2 ^ 31 - 1)),
        (''endColumn'', JInt (2 ^ 31 - 1)), (''hash'', JStr '''')] s"

text \<open>The id of a script, with the event when the script is new.\<close>

definition announce_script ::
  "('j, 'msg) json_ops \<Rightarrow> string \<Rightarrow> string \<Rightarrow> 'msg inspector_server \<Rightarrow> nat \<times> 'msg inspector_server" where
  "announce_script js sourceFile scriptIdentity s =
     (case GetScriptId sourceFile scriptIdentity (sv_sources s) of
        (scriptId, isNew, sources) \<Rightarrow>
          let s = s\<lparr>sv_sources := sources\<rparr>
          in (scriptId, if isNew then CallDebuggerScriptParsed js scriptId sourceFile s else s))"

datatype ConsoleCallType = CC_LOG | CC_DEBUG | CC_INFO | CC_ERROR | CC_WARNING

fun console_type :: "ConsoleCallType \<Rightarrow> string" where
  "console_type CC_LOG = ''log''"
| "console_type CC_DEBUG = ''debug''"
| "console_type CC_INFO = ''info''"
| "console_type CC_ERROR = ''error''"
| "console_type CC_WARNING = ''warning''"

definition CallRuntimeConsoleApiCalled ::
  "('j, 'msg) json_ops \<Rightarrow> (pt_thread \<Rightarrow> nat) \<Rightarrow> pt_thread \<Rightarrow> ConsoleCallType \<Rightarrow> u64 \<Rightarrow> remote_object list \<Rightarrow>
     'msg inspector_server \<Rightarrow> 'msg inspector_server" where
  "CallRuntimeConsoleApiCalled js tid thread type timestamp arguments s =
     Server_Call js (GetSessionIdByThread tid (sv_sessions s) thread) ''Runtime.consoleAPICalled''
       [(''executionContextId'', JInt 0), (''timestamp'', JInt (uint timestamp)), (''type'', JStr (console_type type)),
        (''args'', JArr (map (\<lambda>a. JObj (RemoteObject_Serialize a)) arguments))] s"

text \<open>\<open>pid\<close> is the number of the process.\<close>

definition GetExecutionContextUniqueId :: "nat \<Rightarrow> (pt_thread \<Rightarrow> nat) \<Rightarrow> pt_thread \<Rightarrow> string" where
  "GetExecutionContextUniqueId pid tid thread = to_string pid @ '':'' @ to_string (tid thread)"

definition CallRuntimeExecutionContextCreated ::
  "('j, 'msg) json_ops \<Rightarrow> nat \<Rightarrow> (pt_thread \<Rightarrow> nat) \<Rightarrow> pt_thread \<Rightarrow> 'msg inspector_server \<Rightarrow> 'msg inspector_server" where
  "CallRuntimeExecutionContextCreated js pid tid thread s =
     (let name = (if thread \<noteq> PtThread_NONE then ''Thread #'' @ to_string (tid thread) else '''')
      in Server_Call js (GetSessionIdByThread tid (sv_sessions s) thread) ''Runtime.executionContextCreated''
           [(''context'', JObj [(''id'', JInt (int (tid thread))), (''origin'', JStr ''''), (''name'', JStr name),
              (''uniqueId'', JStr (GetExecutionContextUniqueId pid tid thread))])] s)"

definition CallRuntimeExecutionContextsCleared :: "('j, 'msg) json_ops \<Rightarrow> 'msg inspector_server \<Rightarrow> 'msg inspector_server" where
  "CallRuntimeExecutionContextsCleared js s = Server_Call js '''' ''Runtime.executionContextsCleared'' [] s"

definition SendTargetAttachedToTarget ::
  "('j, 'msg) json_ops \<Rightarrow> string \<Rightarrow> 'msg inspector_server \<Rightarrow> 'msg inspector_server" where
  "SendTargetAttachedToTarget js sessionId s =
     Server_Call js '''' ''Target.attachedToTarget''
       [(''sessionId'', JStr sessionId),
        (''targetInfo'', JObj [(''targetId'', JStr sessionId), (''type'', JStr ''worker''), (''title'', JStr sessionId),
           (''url'', JStr ''''), (''attached'', JBool True), (''canAccessOpener'', JBool False)]),
        (''waitingForDebugger'', JBool True)] s"

definition CallTargetAttachedToTarget ::
  "('j, 'msg) json_ops \<Rightarrow> (pt_thread \<Rightarrow> nat) \<Rightarrow> pt_thread \<Rightarrow> 'msg inspector_server \<Rightarrow> bool \<times> 'msg inspector_server" where
  "CallTargetAttachedToTarget js tid thread s =
     (case AddSession tid thread (sv_sessions s) of
        (sessionId, sessions) \<Rightarrow>
          let s = s\<lparr>sv_sessions := sessions\<rparr>
          in if sessionId \<noteq> [] then (True, SendTargetAttachedToTarget js sessionId s) else (False, s))"

definition CallTargetDetachedFromTarget ::
  "('j, 'msg) json_ops \<Rightarrow> (pt_thread \<Rightarrow> nat) \<Rightarrow> pt_thread \<Rightarrow> 'msg inspector_server \<Rightarrow> 'msg inspector_server" where
  "CallTargetDetachedFromTarget js tid thread s =
     (let sessionId = GetSessionIdByThread tid (sv_sessions s) thread;
          s = s\<lparr>sv_sessions := RemoveSession sessionId (sv_sessions s)\<rparr>
      in if sessionId \<noteq> []
         then Server_Call js '''' ''Target.detachedFromTarget'' [(''sessionId'', JStr sessionId)] s else s)"

definition SendNativeMethodCallEvent ::
  "('j, 'msg) json_ops \<Rightarrow> (pt_thread \<Rightarrow> nat) \<Rightarrow> pt_thread \<Rightarrow> u64 \<Rightarrow> bool \<Rightarrow> 'msg inspector_server \<Rightarrow> 'msg inspector_server" where
  "SendNativeMethodCallEvent js tid thread nativeAddress isStepInto s =
     (let sessionId = GetSessionIdByThread tid (sv_sessions s) thread
      in Server_Call js sessionId ''Debugger.nativeCalling''
           [(''nativeAddress'', JInt (sint nativeAddress)), (''isStepInto'', JBool isStepInto),
            (''sessionId'', JStr sessionId)] s)"

text \<open>A client has connected: it is told of the threads that have a named session.\<close>

definition InspectorServer_OnOpen :: "('j, 'msg) json_ops \<Rightarrow> 'msg inspector_server \<Rightarrow> 'msg inspector_server" where
  "InspectorServer_OnOpen js s =
     EnumerateSessions (\<lambda>sid thread s. if sid \<noteq> [] then SendTargetAttachedToTarget js sid s else s) (sv_sessions s) s"

section \<open>Asynchronous stack traces\<close>

record async_call_frame =
  ac_functionName :: string
  ac_url :: string
  ac_scriptId :: nat
  ac_lineNumber :: int

datatype async_stack_trace = AsyncStackTrace string "async_call_frame list" "async_stack_trace option"

definition async_frame_props :: "async_call_frame \<Rightarrow> props" where
  "async_frame_props f = [(''functionName'', JStr (ac_functionName f)), (''scriptId'', JStr (to_string (ac_scriptId f))),
     (''url'', JStr (ac_url f)), (''lineNumber'', JInt (int32_of (ac_lineNumber f - 1))), (''columnNumber'', JInt 0)]"

fun AsyncStackTrace_Serialize :: "async_stack_trace \<Rightarrow> props" where
  "AsyncStackTrace_Serialize (AsyncStackTrace description callFrames None) =
     [(''description'', JStr description), (''callFrames'', JArr (map (\<lambda>f. JObj (async_frame_props f)) callFrames))]"
| "AsyncStackTrace_Serialize (AsyncStackTrace description callFrames (Some parent)) =
     [(''description'', JStr description), (''callFrames'', JArr (map (\<lambda>f. JObj (async_frame_props f)) callFrames)),
      (''parent'', JObj (AsyncStackTrace_Serialize parent))]"

text \<open>The runtime's snapshot: the frames of every segment, by name, panda file, method and offset.\<close>

record async_frame_view =
  av_functionName :: string
  av_pandaFile :: string
  av_methodId :: u64
  av_bytecodeOffset :: u32

type_synonym async_segment = "string \<times> async_frame_view list"

fun async_frames_loop ::
  "('j, 'msg) json_ops \<Rightarrow> (async_frame_view \<Rightarrow> (string \<times> int) option) \<Rightarrow> async_frame_view list \<Rightarrow>
     'msg inspector_server \<Rightarrow> async_call_frame list \<times> 'msg inspector_server" where
  "async_frames_loop js resolveFrame [] s = ([], s)"
| "async_frames_loop js resolveFrame (frame # frames) s =
     (case resolveFrame frame of
        None \<Rightarrow> async_frames_loop js resolveFrame frames s
      | Some (sourceFile, lineNumber) \<Rightarrow>
          if lineNumber < 0 then async_frames_loop js resolveFrame frames s
          else case announce_script js sourceFile (av_pandaFile frame) s of
                 (scriptId, s) \<Rightarrow>
                   (case async_frames_loop js resolveFrame frames s of
                      (callFrames, s) \<Rightarrow>
                        (\<lparr>ac_functionName = av_functionName frame, ac_url = sourceFile, ac_scriptId = scriptId,
                          ac_lineNumber = lineNumber\<rparr> # callFrames, s)))"

fun async_segments_loop ::
  "('j, 'msg) json_ops \<Rightarrow> (async_frame_view \<Rightarrow> (string \<times> int) option) \<Rightarrow> async_segment list \<Rightarrow>
     async_stack_trace option \<Rightarrow> 'msg inspector_server \<Rightarrow> async_stack_trace option \<times> 'msg inspector_server" where
  "async_segments_loop js resolveFrame [] trace s = (trace, s)"
| "async_segments_loop js resolveFrame ((description, frames) # segments) trace s =
     (if frames = [] then async_segments_loop js resolveFrame segments trace s
      else case async_frames_loop js resolveFrame frames s of
             (callFrames, s) \<Rightarrow>
               if callFrames = [] then async_segments_loop js resolveFrame segments trace s
               else async_segments_loop js resolveFrame segments (Some (AsyncStackTrace description callFrames trace)) s)"

definition CreateAsyncStackTrace ::
  "('j, 'msg) json_ops \<Rightarrow> (async_frame_view \<Rightarrow> (string \<times> int) option) \<Rightarrow> async_segment list \<Rightarrow>
     'msg inspector_server \<Rightarrow> async_stack_trace option \<times> 'msg inspector_server" where
  "CreateAsyncStackTrace js resolveFrame segments s = async_segments_loop js resolveFrame (rev segments) None s"

section \<open>The frames of a paused thread\<close>

text \<open>
  What the runtime answers about the thread an event is of: the frames of its stack, innermost
  first, with their numbers (\<open>None\<close> for a frame without a method), the current frame, the stack it
  shares with dynamic code, the asynchronous snapshot and whether a frame could be restarted.
\<close>

datatype union_frame = StaticFrame "pt_frame option" nat | DynamicFrame nat

record view =
  v_frames :: "(pt_frame option \<times> nat) list"
  v_current :: "pt_frame option"
  v_unionEmpty :: bool
  v_union :: "union_frame list"
  v_vm :: nat
  v_async :: "async_segment list option"
  v_extractor :: frame_info_extractor
  v_restarted :: bool

definition ProcessStaticFrame ::
  "lang_ext \<Rightarrow> u64 set \<Rightarrow> debug_info_cache \<Rightarrow> pt_frame option \<Rightarrow> nat \<Rightarrow> nat \<Rightarrow> repository \<Rightarrow>
     (call_frame option \<times> repository) option" where
  "ProcessStaticFrame ext special c ptFrame frameNumber frameId r =
     (case ptFrame of
        None \<Rightarrow> Some (None, r)
      | Some frame \<Rightarrow>
          (case GetSourceLocation c frame ([], [], 0) of
             None \<Rightarrow> None
           | Some (sourceFile, methodName, lineNumber) \<Rightarrow>
               if sourceFile = [] then Some (None, r)
               else case CreateFrameObject ext frameNumber (GetLocals special c frame) None r of
                      (frameObject, objThis, r) \<Rightarrow>
                        Some (Some \<lparr>cf_frameId = frameId, cf_methodName = methodName, cf_sourceFile = sourceFile,
                          cf_scriptIdentity = pf_filename (m_pandaFile (fr_method frame)), cf_lineNumber = lineNumber,
                          cf_scopeChain = [\<lparr>sc_type = LOCAL, sc_object = frameObject, sc_name = None\<rparr>,
                                           \<lparr>sc_type = GLOBAL, sc_object = CreateGlobalObject, sc_name = None\<rparr>],
                          cf_this = objThis, cf_isStaticFrame = True\<rparr>, r)))"

definition AddCallFrameInfo ::
  "('j, 'msg) json_ops \<Rightarrow> call_frame \<Rightarrow> 'msg inspector_server \<Rightarrow> jb \<times> 'msg inspector_server" where
  "AddCallFrameInfo js f s =
     (case announce_script js (cf_sourceFile f) (cf_scriptIdentity f) s of
        (scriptId, s) \<Rightarrow>
          (JObj ([(''callFrameId'', JStr (to_string (cf_frameId f))), (''functionName'', JStr (cf_methodName f)),
             (''location'', JObj (Location_Serialize (Location scriptId (cf_lineNumber f)))), (''url'', JStr (cf_sourceFile f)),
             (''scopeChain'', JArr (map (\<lambda>sc. JObj (Scope_Serialize sc)) (cf_scopeChain f))),
             (''this'', JObj (RemoteObject_Serialize (case cf_this f of Some t \<Rightarrow> t | None \<Rightarrow> RemoteObject Monostate))),
             (''canBeRestarted'', JBool True)] @ (if cf_isStaticFrame f then [(''isStaticFrame'', JBool True)] else [])), s))"

fun process_frame ::
  "lang_ext \<Rightarrow> u64 set \<Rightarrow> debug_info_cache \<Rightarrow> view \<Rightarrow> union_frame \<Rightarrow> nat \<Rightarrow> repository \<Rightarrow> (call_frame option \<times> repository) option" where
  "process_frame ext special c v (StaticFrame frame n) frameId r = ProcessStaticFrame ext special c frame n frameId r"
| "process_frame ext special c v (DynamicFrame frame) frameId r =
     Some (ProcessDynamicFrame (v_extractor v) (v_vm v) frame frameId, r)"

text \<open>\<^verbatim>\<open>frameId\<close> has 32 bits.\<close>

fun EnumerateHybridFrames ::
  "('j, 'msg) json_ops \<Rightarrow> lang_ext \<Rightarrow> u64 set \<Rightarrow> debug_info_cache \<Rightarrow> view \<Rightarrow> union_frame list \<Rightarrow> nat \<Rightarrow> repository \<Rightarrow>
     'msg inspector_server \<Rightarrow> (jb list \<times> repository \<times> 'msg inspector_server) option" where
  "EnumerateHybridFrames js ext special c v [] frameId r s = Some ([], r, s)"
| "EnumerateHybridFrames js ext special c v (frame # frames) frameId r s =
     (case process_frame ext special c v frame frameId r of
        None \<Rightarrow> None
      | Some (None, r) \<Rightarrow> EnumerateHybridFrames js ext special c v frames frameId r s
      | Some (Some f, r) \<Rightarrow>
          (case AddCallFrameInfo js f s of
             (j, s) \<Rightarrow>
               (case EnumerateHybridFrames js ext special c v frames (Suc frameId mod 2 ^ 32) r s of
                  None \<Rightarrow> None
                | Some (callFrames, r, s) \<Rightarrow> Some (j # callFrames, r, s))))"

definition EnumerateStaticFrames ::
  "('j, 'msg) json_ops \<Rightarrow> lang_ext \<Rightarrow> u64 set \<Rightarrow> debug_info_cache \<Rightarrow> view \<Rightarrow> nat \<Rightarrow> repository \<Rightarrow>
     'msg inspector_server \<Rightarrow> (jb list \<times> repository \<times> 'msg inspector_server) option" where
  "EnumerateStaticFrames js ext special c v frameId r s =
     EnumerateHybridFrames js ext special c v (map (\<lambda>f. StaticFrame (fst f) (snd f)) (v_frames v)) frameId r s"

definition AddHitBreakpoints :: "BreakpointId list \<Rightarrow> jb" where
  "AddHitBreakpoints hitBreakpoints = JArr (map (\<lambda>i. JStr (to_string i)) hitBreakpoints)"

definition paused_props ::
  "string \<Rightarrow> sessions \<Rightarrow> jb list \<Rightarrow> async_stack_trace option \<Rightarrow> BreakpointId list \<Rightarrow> remote_object option \<Rightarrow> PauseReason \<Rightarrow> props" where
  "paused_props sessionId sessions callFrames asyncStackTrace hitBreakpoints exception reason =
     [(''callFrames'', JArr callFrames)] @
     (case asyncStackTrace of None \<Rightarrow> [] | Some t \<Rightarrow> [(''asyncStackTrace'', JObj (AsyncStackTrace_Serialize t))]) @
     [(''hitBreakpoints'', AddHitBreakpoints hitBreakpoints)] @
     (case exception of None \<Rightarrow> [] | Some e \<Rightarrow> [(''data'', JObj (RemoteObject_Serialize e))]) @
     [(''reason'', JStr (GetPauseReasonString reason)), (''sessionId'', JStr sessionId),
      (''allSessions'', JArr (map JStr (GetAllSessions sessions)))]"

text \<open>In sync mode the event is dropped and its parameters are not computed.\<close>

definition CallDebuggerPaused ::
  "('j, 'msg) json_ops \<Rightarrow> (pt_thread \<Rightarrow> nat) \<Rightarrow> pt_thread \<Rightarrow> BreakpointId list \<Rightarrow> remote_object option \<Rightarrow> PauseReason \<Rightarrow>
     (repository \<Rightarrow> 'msg inspector_server \<Rightarrow> (jb list \<times> repository \<times> 'msg inspector_server) option) \<Rightarrow>
     async_stack_trace option \<Rightarrow> repository \<Rightarrow> 'msg inspector_server \<Rightarrow> (repository \<times> 'msg inspector_server) option" where
  "CallDebuggerPaused js tid thread hitBreakpoints exception reason enumerateFrames asyncStackTrace r s =
     (let sessionId = GetSessionIdByThread tid (sv_sessions s) thread
      in if sv_syncMode s then Some (r, s)
         else case enumerateFrames r s of
                None \<Rightarrow> None
              | Some (callFrames, r, s) \<Rightarrow>
                  Some (r, Server_Call js sessionId ''Debugger.paused''
                    (paused_props sessionId (sv_sessions s) callFrames asyncStackTrace hitBreakpoints exception reason) s))"

section \<open>Evaluation results\<close>

record exception_details =
  xd_exceptionId :: nat
  xd_text :: string
  xd_lineNumber :: int
  xd_columnNumber :: int
  xd_scriptId :: "nat option"
  xd_url :: "string option"
  xd_exception :: "remote_object option"
  xd_executionContextId :: "nat option"

definition ExceptionDetails :: "nat \<Rightarrow> string \<Rightarrow> int \<Rightarrow> int \<Rightarrow> exception_details" where
  "ExceptionDetails exceptionId txt lineNumber columnNumber =
     \<lparr>xd_exceptionId = exceptionId, xd_text = txt, xd_lineNumber = lineNumber, xd_columnNumber = columnNumber,
      xd_scriptId = None, xd_url = None, xd_exception = None, xd_executionContextId = None\<rparr>"

definition ExceptionDetails_Serialize :: "exception_details \<Rightarrow> props" where
  "ExceptionDetails_Serialize d =
     [(''exceptionId'', JInt (int (xd_exceptionId d))), (''text'', JStr (xd_text d)),
      (''lineNumber'', JInt (xd_lineNumber d)), (''columnNumber'', JInt (xd_columnNumber d))] @
     (case xd_scriptId d of None \<Rightarrow> [] | Some i \<Rightarrow> [(''scriptId'', JInt (int i))]) @
     (case xd_url d of None \<Rightarrow> [] | Some u \<Rightarrow> [(''url'', JStr u)]) @
     (case xd_exception d of None \<Rightarrow> [] | Some e \<Rightarrow> [(''exception'', JObj (RemoteObject_Serialize e))]) @
     (case xd_executionContextId d of None \<Rightarrow> [] | Some i \<Rightarrow> [(''executionContextId'', JInt (int i))])"

definition EvaluationResult_Serialize :: "remote_object \<Rightarrow> exception_details option \<Rightarrow> props" where
  "EvaluationResult_Serialize res exceptionDetails =
     [(''result'', JObj (RemoteObject_Serialize res))] @
     (case exceptionDetails of None \<Rightarrow> [] | Some d \<Rightarrow> [(''exceptionDetails'', JObj (ExceptionDetails_Serialize d))])"


end
