(* ===== verification/Inspector.thy ===== *)
theory Inspector
  imports Inspector_Events
begin

text \<open>
  \<^verbatim>\<open>Inspector\<close> (tooling/static/inspector.h and inspector.cpp): the hooks the runtime calls on the
  application threads and the commands the server thread gives, over the debugged threads, the
  breakpoint storage, the debug information and the server. An \<open>option\<close> result is \<open>None\<close> where the
  code leaves its defined behaviour, such as a frame whose offset lies before its line table.
\<close>

section \<open>State\<close>

text \<open>The libraries and the runtime the inspector is built on.\<close>

record ('w, 'm, 'j, 'msg) env =
  e_ops :: "'w debugger_ops"
  e_mo :: "'m managed_ops"
  e_js :: "('j, 'msg) json_ops"
  e_tid :: "pt_thread \<Rightarrow> nat"
  e_ext :: lang_ext
  e_special :: "u64 set"
  e_pid :: nat
  e_GetClassName :: "pt_method \<Rightarrow> string"
  e_file :: "string \<Rightarrow> string option"

text \<open>A debugged thread: where its application thread is, its \<^verbatim>\<open>DebuggableThread\<close>, the object repository
  of the current suspension (a local variable of \<^verbatim>\<open>OnSingleStep\<close> and \<^verbatim>\<open>OnException\<close>) and the cached one.\<close>

record ('w, 'm) debugged =
  th_pc :: app_pc
  th_dt :: "('w, 'm) dthread"
  th_repository :: repository
  th_objectRepository :: "repository option"

text \<open>Calls on the runtime's debugger that change its state.\<close>

datatype dbg_call = NotifyFramePop pt_thread nat | SetAsyncDepth nat

record ('w, 'm, 'msg) inspector =
  in_server :: "'msg inspector_server"
  in_connecting :: bool
  mixedDebugEnabled :: bool
  debugInfoCache :: debug_info_cache
  threads :: "(pt_thread \<times> ('w, 'm) debugged) list"
  currentExceptionId :: u64
  isVmDead :: bool
  in_storage :: storage
  in_hybrid :: hybrid_stepper
  sourceFiles :: "(string \<times> bool) list"
  samplingInterval :: u32
  nativeMethodCallWaiting :: bool
  waitDebuggerSignals :: nat
  in_calls :: "dbg_call list"
  in_failed :: bool

definition in_assert :: "bool \<Rightarrow> ('w, 'm, 'msg) inspector \<Rightarrow> ('w, 'm, 'msg) inspector" where
  "in_assert b i = (if b then i else i\<lparr>in_failed := True\<rparr>)"

definition on_server ::
  "('msg inspector_server \<Rightarrow> 'msg inspector_server) \<Rightarrow> ('w, 'm, 'msg) inspector \<Rightarrow> ('w, 'm, 'msg) inspector" where
  "on_server f i = i\<lparr>in_server := f (in_server i)\<rparr>"

definition CheckVmDead :: "('w, 'm, 'msg) inspector \<Rightarrow> bool \<times> ('w, 'm, 'msg) inspector" where
  "CheckVmDead i = (if isVmDead i then (True, on_server Server_Kill i) else (False, i))"

definition GetDebuggableThread :: "pt_thread \<Rightarrow> ('w, 'm, 'msg) inspector \<Rightarrow> ('w, 'm) debugged option" where
  "GetDebuggableThread thread i = map_of (threads i) thread"

text \<open>The threads share the breakpoint storage and the flags of the hybrid stepper.\<close>

definition shared_in :: "('w, 'm, 'msg) inspector \<Rightarrow> ('w, 'm) dthread \<Rightarrow> ('w, 'm) dthread" where
  "shared_in i d = (case dt_state d of (t, h, s, eng) \<Rightarrow> d\<lparr>dt_state := (t, in_hybrid i, in_storage i, eng), dt_callbacks := []\<rparr>)"

definition shared_out :: "('w, 'm) dthread \<Rightarrow> ('w, 'm, 'msg) inspector \<Rightarrow> ('w, 'm, 'msg) inspector" where
  "shared_out d i = (case dt_state d of (t, h, s, eng) \<Rightarrow> i\<lparr>in_hybrid := h, in_storage := s\<rparr>)"

definition put_thread :: "pt_thread \<Rightarrow> ('w, 'm) debugged \<Rightarrow> ('w, 'm, 'msg) inspector \<Rightarrow> ('w, 'm, 'msg) inspector" where
  "put_thread thread x i = i\<lparr>threads := AList.update thread x (threads i)\<rparr>"

section \<open>Suspension callbacks\<close>

definition PauseOtherThreads ::
  "(pt_thread \<Rightarrow> nat) \<Rightarrow> pt_thread \<Rightarrow> ('w, 'm, 'msg) inspector \<Rightarrow> ('w, 'm, 'msg) inspector" where
  "PauseOtherThreads tid thread i =
     i\<lparr>threads := map (\<lambda>(t, x). if tid t = tid thread then (t, x) else (t, x\<lparr>th_dt := DebuggableThread_Pause (th_dt x)\<rparr>)) (threads i)\<rparr>"

definition set_repository :: "pt_thread \<Rightarrow> repository \<Rightarrow> ('w, 'm, 'msg) inspector \<Rightarrow> ('w, 'm, 'msg) inspector" where
  "set_repository thread r i =
     (case GetDebuggableThread thread i of None \<Rightarrow> i | Some x \<Rightarrow> put_thread thread (x\<lparr>th_repository := r\<rparr>) i)"

definition resolveAsyncFrame :: "debug_info_cache \<Rightarrow> async_frame_view \<Rightarrow> (string \<times> int) option" where
  "resolveAsyncFrame c frame = GetAsyncFrameSourceLocation c (av_pandaFile frame) (av_methodId frame) (av_bytecodeOffset frame)"

text \<open>The repository is made for the suspension.\<close>

definition DebuggableThreadPostSuspend ::
  "('w, 'm, 'j, 'msg) env \<Rightarrow> view \<Rightarrow> pt_thread \<Rightarrow> BreakpointId list \<Rightarrow> object_header option \<Rightarrow> PauseReason \<Rightarrow>
     ('w, 'm, 'msg) inspector \<Rightarrow> ('w, 'm, 'msg) inspector option" where
  "DebuggableThreadPostSuspend e v thread hitBreakpoints exception reason i =
     (let (exceptionRemoteObject, r) =
            (case exception of
               None \<Rightarrow> (None, ObjectRepository_new)
             | Some p \<Rightarrow> (case CreateObject (e_ext e) (TV_Reference (of_nat p)) ObjectRepository_new of (obj, r) \<Rightarrow> (Some obj, r)));
          (asyncStackTrace, s) =
            (case v_async v of
               None \<Rightarrow> (None, in_server i)
             | Some segments \<Rightarrow> CreateAsyncStackTrace (e_js e) (resolveAsyncFrame (debugInfoCache i)) segments (in_server i));
          enumerateFrames =
            (if v_unionEmpty v then EnumerateStaticFrames (e_js e) (e_ext e) (e_special e) (debugInfoCache i) v 0
             else EnumerateHybridFrames (e_js e) (e_ext e) (e_special e) (debugInfoCache i) v (v_union v) 0)
      in case CallDebuggerPaused (e_js e) (e_tid e) thread hitBreakpoints exceptionRemoteObject reason enumerateFrames asyncStackTrace r s of
           None \<Rightarrow> None
         | Some (r, s) \<Rightarrow>
             let i = set_repository thread r (i\<lparr>in_server := s\<rparr>)
             in Some (if hitBreakpoints \<noteq> [] then PauseOtherThreads (e_tid e) thread i else i))"

fun deliver ::
  "('w, 'm, 'j, 'msg) env \<Rightarrow> view \<Rightarrow> pt_thread \<Rightarrow> callback list \<Rightarrow> ('w, 'm, 'msg) inspector \<Rightarrow> ('w, 'm, 'msg) inspector option" where
  "deliver e v thread [] i = Some i"
| "deliver e v thread (PostSuspend hitBreakpoints exception reason # cs) i =
     (case DebuggableThreadPostSuspend e v thread hitBreakpoints exception reason i of
        None \<Rightarrow> None
      | Some i \<Rightarrow> deliver e v thread cs i)"
| "deliver e v thread (PostResume # cs) i =
     deliver e v thread cs (on_server (CallDebuggerResumed (e_js e) (e_tid e) thread) i)"
| "deliver e v thread (PreSuspend hitBreakpoints exception # cs) i = deliver e v thread cs i"
| "deliver e v thread (PreResume # cs) i = deliver e v thread cs i"

text \<open>A call on a debugged thread, with the callbacks it makes.\<close>

definition on_thread ::
  "('w, 'm, 'j, 'msg) env \<Rightarrow> view \<Rightarrow> pt_thread \<Rightarrow> (app_pc \<Rightarrow> ('w, 'm) dthread \<Rightarrow> (app_pc \<times> ('w, 'm) dthread) option) \<Rightarrow>
     ('w, 'm, 'msg) inspector \<Rightarrow> ('w, 'm, 'msg) inspector option" where
  "on_thread e v thread f i =
     (case GetDebuggableThread thread i of
        None \<Rightarrow> Some i
      | Some x \<Rightarrow>
          (case f (th_pc x) (shared_in i (th_dt x)) of
             None \<Rightarrow> None
           | Some (pc, d) \<Rightarrow>
               deliver e v thread (dt_callbacks d)
                 (put_thread thread (x\<lparr>th_pc := pc, th_dt := d\<lparr>dt_callbacks := []\<rparr>\<rparr>) (shared_out d i))))"

definition call_thread ::
  "('w, 'm, 'j, 'msg) env \<Rightarrow> view \<Rightarrow> pt_thread \<Rightarrow> (('w, 'm) dthread \<Rightarrow> ('w, 'm) dthread) \<Rightarrow>
     ('w, 'm, 'msg) inspector \<Rightarrow> ('w, 'm, 'msg) inspector option" where
  "call_thread e v thread f i = on_thread e v thread (\<lambda>pc d. Some (pc, f d)) i"

fun each_thread ::
  "(pt_thread \<Rightarrow> ('w, 'm, 'msg) inspector \<Rightarrow> ('w, 'm, 'msg) inspector option) \<Rightarrow> pt_thread list \<Rightarrow>
     ('w, 'm, 'msg) inspector \<Rightarrow> ('w, 'm, 'msg) inspector option" where
  "each_thread f [] i = Some i"
| "each_thread f (t # ts) i = (case f t i of None \<Rightarrow> None | Some i \<Rightarrow> each_thread f ts i)"

section \<open>Connections\<close>

definition Inspector_OnValidate :: "('w, 'm, 'msg) inspector \<Rightarrow> ('w, 'm, 'msg) inspector" where
  "Inspector_OnValidate i = (in_assert (\<not> in_connecting i) i)\<lparr>in_connecting := True\<rparr>"

definition Inspector_OnOpen :: "('w, 'm, 'j, 'msg) env \<Rightarrow> ('w, 'm, 'msg) inspector \<Rightarrow> ('w, 'm, 'msg) inspector" where
  "Inspector_OnOpen e i =
     (let i = on_server (InspectorServer_OnOpen (e_js e)) i in (in_assert (in_connecting i) i)\<lparr>in_connecting := False\<rparr>)"

definition Inspector_OnFail :: "('w, 'm, 'msg) inspector \<Rightarrow> ('w, 'm, 'msg) inspector" where
  "Inspector_OnFail i = (if in_connecting i then i\<lparr>in_connecting := False\<rparr> else i)"

section \<open>Hooks of the application threads\<close>

definition DebuggableThread_OnConsoleCall :: "lang_ext \<Rightarrow> typed_value list \<Rightarrow> remote_object list" where
  "DebuggableThread_OnConsoleCall ext arguments =
     fst (fold (\<lambda>v (objs, r). case CreateObject ext v r of (obj, r) \<Rightarrow> (objs @ [obj], r)) arguments ([], ObjectRepository_new))"

definition ConsoleCall ::
  "('w, 'm, 'j, 'msg) env \<Rightarrow> pt_thread \<Rightarrow> ConsoleCallType \<Rightarrow> u64 \<Rightarrow> typed_value list \<Rightarrow>
     ('w, 'm, 'msg) inspector \<Rightarrow> ('w, 'm, 'msg) inspector" where
  "ConsoleCall e thread type timestamp arguments i =
     (case GetDebuggableThread thread i of
        None \<Rightarrow> i
      | Some x \<Rightarrow> on_server (CallRuntimeConsoleApiCalled (e_js e) (e_tid e) thread type timestamp
                    (DebuggableThread_OnConsoleCall (e_ext e) arguments)) i)"

text \<open>\<open>catchOffset\<close> is the offset of the handler, all ones when there is none; \<open>exception\<close> is what the
  managed thread's \<^verbatim>\<open>GetException\<close> answers.\<close>

definition Inspector_Exception ::
  "('w, 'm, 'j, 'msg) env \<Rightarrow> view \<Rightarrow> pt_thread \<Rightarrow> u32 \<Rightarrow> object_header option \<Rightarrow> ('w, 'm, 'msg) inspector \<Rightarrow>
     ('w, 'm, 'msg) inspector option" where
  "Inspector_Exception e v thread catchOffset exception i =
     on_thread e v thread (\<lambda>pc d. Some (DebuggableThread_OnException (e_mo e) (catchOffset = 0xFFFFFFFF) exception d)) i"

definition FramePop ::
  "('w, 'm, 'j, 'msg) env \<Rightarrow> view \<Rightarrow> pt_thread \<Rightarrow> ('w, 'm, 'msg) inspector \<Rightarrow> ('w, 'm, 'msg) inspector option" where
  "FramePop e v thread i = on_thread e v thread (\<lambda>pc d. Some (DebuggableThread_OnFramePop d)) i"

text \<open>\<open>isCFrame\<close>: the innermost frame is compiled code's.\<close>

definition MethodEntry ::
  "('w, 'm, 'j, 'msg) env \<Rightarrow> view \<Rightarrow> pt_thread \<Rightarrow> pt_method \<Rightarrow> bool \<Rightarrow> ('w, 'm, 'msg) inspector \<Rightarrow>
     ('w, 'm, 'msg) inspector option" where
  "MethodEntry e v thread method isCFrame i =
     (if isCFrame \<or> GetDebuggableThread thread i = None then Some i
      else let first = (case GetUserSourceFile (debugInfoCache i) method of
                          None \<Rightarrow> None
                        | Some f \<Rightarrow> if map_of (sourceFiles i) f = None then Some f else None)
           in case (case first of
                      None \<Rightarrow> Some i
                    | Some f \<Rightarrow> call_thread e v thread DebuggableThread_BreakOnStart (i\<lparr>sourceFiles := map_insert f True (sourceFiles i)\<rparr>)) of
                None \<Rightarrow> None
              | Some i \<Rightarrow>
                  let notify = (case GetDebuggableThread thread i of
                                  None \<Rightarrow> False
                                | Some x \<Rightarrow> fst (DebuggableThread_OnMethodEntry (shared_in i (th_dt x))))
                  in case on_thread e v thread (\<lambda>pc d. Some (snd (DebuggableThread_OnMethodEntry d))) i of
                       None \<Rightarrow> None
                     | Some i \<Rightarrow> Some (if notify then i\<lparr>in_calls := in_calls i @ [NotifyFramePop thread 0]\<rparr> else i))"

text \<open>The files are those the class linker enumerates, with the extractors built for them.\<close>

definition CollectModules :: "(panda_file \<times> extractor) list \<Rightarrow> ('w, 'm, 'msg) inspector \<Rightarrow> ('w, 'm, 'msg) inspector" where
  "CollectModules files i =
     i\<lparr>debugInfoCache := fold (\<lambda>(file, built) c. AddPandaFile c file built False) files (debugInfoCache i)\<rparr>"

definition LoadModule :: "string \<Rightarrow> (panda_file \<times> extractor) list \<Rightarrow> ('w, 'm, 'msg) inspector \<Rightarrow> ('w, 'm, 'msg) inspector" where
  "LoadModule fileName files i =
     i\<lparr>debugInfoCache := fold (\<lambda>(file, built) c. if pf_filename file = fileName then AddPandaFile c file built True else c)
         files (debugInfoCache i)\<rparr>"

definition Inspector_ResolveBreakpoints :: "panda_file \<Rightarrow> extractor \<Rightarrow> ('w, 'm, 'msg) inspector \<Rightarrow> ('w, 'm, 'msg) inspector" where
  "Inspector_ResolveBreakpoints file debugInfo i =
     i\<lparr>in_storage := BreakpointStorage_ResolveBreakpoints file debugInfo (in_storage i)\<rparr>"

definition NeedSkippedForSingleStep :: "string \<Rightarrow> string \<Rightarrow> bool" where
  "NeedSkippedForSingleStep methodName className =
     (if methodName = ''<cctor>'' \<and> find_sub ''ETSGLOBAL'' className \<noteq> None \<or>
         methodName = ''<ctor>'' \<and> find_sub ''__EntryWrapper'' className \<noteq> None then True
      else methodName = ''<ctor>'' \<and> find_sub ''lambda-lambda_invoke'' className \<noteq> None)"

definition SingleStep ::
  "('w, 'm, 'j, 'msg) env \<Rightarrow> view \<Rightarrow> pt_thread \<Rightarrow> pt_method \<Rightarrow> pt_location \<Rightarrow> ('w, 'm, 'msg) inspector \<Rightarrow>
     ('w, 'm, 'msg) inspector option" where
  "SingleStep e v thread method location i =
     (case GetUserSourceFile (debugInfoCache i) method of
        None \<Rightarrow> Some i
      | Some f \<Rightarrow>
          if f = ''etsstdlib.ets'' then Some i
          else case map_of (sourceFiles i) f of
                 None \<Rightarrow> Some i
               | Some True \<Rightarrow>
                   on_thread e v thread (\<lambda>pc d. DebuggableThread_OnSingleStep (e_ops e) (e_mo e) location d)
                     (i\<lparr>sourceFiles := AList.update f False (sourceFiles i)\<rparr>)
               | Some False \<Rightarrow>
                   if NeedSkippedForSingleStep (m_name method) (e_GetClassName e method) then Some i
                   else on_thread e v thread (\<lambda>pc d. DebuggableThread_OnSingleStep (e_ops e) (e_mo e) location d) i)"

text \<open>\<open>w\<close> and \<open>m\<close> are the evaluation state and the managed thread of the new thread.\<close>

definition ThreadStart ::
  "('w, 'm, 'j, 'msg) env \<Rightarrow> pt_thread \<Rightarrow> 'w \<Rightarrow> 'm \<Rightarrow> ('w, 'm, 'msg) inspector \<Rightarrow> ('w, 'm, 'msg) inspector" where
  "ThreadStart e thread w m i =
     (let i = (if thread \<noteq> PtThread_NONE then on_server (snd \<circ> CallTargetAttachedToTarget (e_js e) (e_tid e) thread) i else i);
          x = \<lparr>th_pc = Running,
               th_dt = DebuggableThread_new (in_hybrid i) (in_storage i, \<lparr>evaluating = False, ev_thread = w\<rparr>) m,
               th_repository = ObjectRepository_new, th_objectRepository = None\<rparr>
      in (in_assert (map_of (threads i) thread = None) i)\<lparr>threads := map_insert thread x (threads i)\<rparr>)"

definition ThreadEnd :: "('w, 'm, 'j, 'msg) env \<Rightarrow> pt_thread \<Rightarrow> ('w, 'm, 'msg) inspector \<Rightarrow> ('w, 'm, 'msg) inspector" where
  "ThreadEnd e thread i =
     (let i = (if thread \<noteq> PtThread_NONE then on_server (CallTargetDetachedFromTarget (e_js e) (e_tid e) thread) i else i)
      in (in_assert (map_of (threads i) thread \<noteq> None) i)\<lparr>threads := AList.delete thread (threads i)\<rparr>)"

definition NotifyExecutionEnded :: "('w, 'm, 'j, 'msg) env \<Rightarrow> ('w, 'm, 'msg) inspector \<Rightarrow> ('w, 'm, 'msg) inspector" where
  "NotifyExecutionEnded e i = on_server (CallRuntimeExecutionContextsCleared (e_js e)) i"

definition VmDeath :: "('w, 'm, 'j, 'msg) env \<Rightarrow> ('w, 'm, 'msg) inspector \<Rightarrow> ('w, 'm, 'msg) inspector" where
  "VmDeath e i = NotifyExecutionEnded e ((in_assert (\<not> isVmDead i) i)\<lparr>isVmDead := True\<rparr>)"

text \<open>A suspended application thread: \<^verbatim>\<open>WaitSuspension\<close> returns once the managed thread is resumed, and
  the loop of \<^verbatim>\<open>Suspend\<close> goes on.\<close>

definition thread_wakes ::
  "('w, 'm, 'j, 'msg) env \<Rightarrow> view \<Rightarrow> pt_thread \<Rightarrow> ('w, 'm, 'msg) inspector \<Rightarrow> ('w, 'm, 'msg) inspector option" where
  "thread_wakes e v thread i =
     on_thread e v thread
       (\<lambda>pc d. case pc of
                 Running \<Rightarrow> Some (pc, d)
               | Waiting ctx \<Rightarrow> Some (if mt_IsSuspended (e_mo e) (dt_managed d) then (pc, d) else Suspend_woken (e_mo e) ctx d)
               | Woken ctx \<Rightarrow> Some (Suspend_woken (e_mo e) ctx d)) i"


section \<open>Commands of the server thread\<close>

definition unless_dead ::
  "'r \<Rightarrow> (('w, 'm, 'msg) inspector \<Rightarrow> ('r \<times> ('w, 'm, 'msg) inspector) option) \<Rightarrow> ('w, 'm, 'msg) inspector \<Rightarrow>
     ('r \<times> ('w, 'm, 'msg) inspector) option" where
  "unless_dead r f i = (case CheckVmDead i of (True, i) \<Rightarrow> Some (r, i) | (False, i) \<Rightarrow> f i)"

abbreviation finish :: "('w, 'm, 'msg) inspector option \<Rightarrow> (unit \<times> ('w, 'm, 'msg) inspector) option" where
  "finish i \<equiv> map_option (\<lambda>i. ((), i)) i"

definition RuntimeEnable ::
  "('w, 'm, 'j, 'msg) env \<Rightarrow> pt_thread \<Rightarrow> ('w, 'm, 'msg) inspector \<Rightarrow> (unit \<times> ('w, 'm, 'msg) inspector) option" where
  "RuntimeEnable e thread =
     unless_dead () (\<lambda>i. Some ((), on_server (CallRuntimeExecutionContextCreated (e_js e) (e_pid e) (e_tid e) thread) i))"

definition RunIfWaitingForDebugger ::
  "('w, 'm, 'j, 'msg) env \<Rightarrow> view \<Rightarrow> pt_thread \<Rightarrow> ('w, 'm, 'msg) inspector \<Rightarrow> (unit \<times> ('w, 'm, 'msg) inspector) option" where
  "RunIfWaitingForDebugger e v thread =
     unless_dead () (\<lambda>i. case call_thread e v thread (DebuggableThread_Touch (e_mo e)) i of
        None \<Rightarrow> None
      | Some i \<Rightarrow> Some ((), i\<lparr>waitDebuggerSignals := Suc (waitDebuggerSignals i)\<rparr>))"

definition Inspector_Pause ::
  "('w, 'm, 'j, 'msg) env \<Rightarrow> view \<Rightarrow> pt_thread \<Rightarrow> ('w, 'm, 'msg) inspector \<Rightarrow> (unit \<times> ('w, 'm, 'msg) inspector) option" where
  "Inspector_Pause e v thread =
     unless_dead () (\<lambda>i. finish (each_thread (\<lambda>t. call_thread e v t DebuggableThread_Pause) (map fst (threads i)) i))"

definition Inspector_Continue ::
  "('w, 'm, 'j, 'msg) env \<Rightarrow> view \<Rightarrow> pt_thread \<Rightarrow> ('w, 'm, 'msg) inspector \<Rightarrow> (unit \<times> ('w, 'm, 'msg) inspector) option" where
  "Inspector_Continue e v thread =
     unless_dead () (\<lambda>i.
       if (\<exists>x \<in> set_option (GetDebuggableThread thread i). IsPausedByBreakOnStart (th_dt x))
       then if list_ex (\<lambda>(t, x). t \<noteq> thread \<and> IsPausedByBreakPoint (th_dt x)) (threads i) then Some ((), i)
            else finish (call_thread e v thread (DebuggableThread_Continue (e_mo e)) i)
       else finish (each_thread (\<lambda>t. call_thread e v t (DebuggableThread_Continue (e_mo e))) (map fst (threads i)) i))"

definition Inspector_SetBreakpointsActive :: "bool \<Rightarrow> ('w, 'm, 'msg) inspector \<Rightarrow> (unit \<times> ('w, 'm, 'msg) inspector) option" where
  "Inspector_SetBreakpointsActive active =
     unless_dead () (\<lambda>i. Some ((), i\<lparr>in_storage := BreakpointStorage_SetBreakpointsActive active (in_storage i)\<rparr>))"

definition Inspector_SetSkipAllPauses ::
  "('w, 'm, 'j, 'msg) env \<Rightarrow> view \<Rightarrow> pt_thread \<Rightarrow> bool \<Rightarrow> ('w, 'm, 'msg) inspector \<Rightarrow> (unit \<times> ('w, 'm, 'msg) inspector) option" where
  "Inspector_SetSkipAllPauses e v thread skip =
     unless_dead () (\<lambda>i. finish (call_thread e v thread (DebuggableThread_SetSkipAllPauses skip) i))"

definition SetMixedDebugEnabled :: "bool \<Rightarrow> ('w, 'm, 'msg) inspector \<Rightarrow> (unit \<times> ('w, 'm, 'msg) inspector) option" where
  "SetMixedDebugEnabled b = unless_dead () (\<lambda>i. Some ((), i\<lparr>mixedDebugEnabled := b\<rparr>))"

definition GetPossibleBreakpoints ::
  "string \<Rightarrow> string \<Rightarrow> int \<Rightarrow> int \<Rightarrow> bool \<Rightarrow> ('w, 'm, 'msg) inspector \<Rightarrow> (int set \<times> ('w, 'm, 'msg) inspector) option" where
  "GetPossibleBreakpoints sourceFile scriptIdentity startLine endLine restrictToFunction =
     unless_dead {} (\<lambda>i. Some (GetValidLineNumbers (debugInfoCache i) sourceFile scriptIdentity startLine endLine restrictToFunction, i))"

text \<open>A condition that is not base64 leaves the bytecode empty.\<close>

definition breakpoint_condition :: "string option \<Rightarrow> string option" where
  "breakpoint_condition condition =
     (case condition of
        None \<Rightarrow> None
      | Some c \<Rightarrow> if c = [] then None else Some (text_of (snd (Base64_Decode_string (bytes_of c) []))))"

definition Inspector_SetBreakpoint ::
  "source_file_filter \<Rightarrow> int \<Rightarrow> string option \<Rightarrow> ('w, 'm, 'msg) inspector \<Rightarrow>
     ((BreakpointId option \<times> source_file_set) \<times> ('w, 'm, 'msg) inspector) option" where
  "Inspector_SetBreakpoint sourceFilesFilter lineNumber condition =
     unless_dead (None, {}) (\<lambda>i.
       case BreakpointStorage_SetBreakpoint sourceFilesFilter lineNumber (breakpoint_condition condition) (debugInfoCache i) (in_storage i) of
         (bpId, files, s) \<Rightarrow> Some ((bpId, files), i\<lparr>in_storage := s\<rparr>))"

definition Inspector_RemoveBreakpoint :: "BreakpointId \<Rightarrow> ('w, 'm, 'msg) inspector \<Rightarrow> (unit \<times> ('w, 'm, 'msg) inspector) option" where
  "Inspector_RemoveBreakpoint bpId =
     unless_dead () (\<lambda>i. Some ((), i\<lparr>in_storage := BreakpointStorage_RemoveBreakpoint bpId (in_storage i)\<rparr>))"

text \<open>The loop of the filter returns in its first round.\<close>

fun url_location :: "debug_info_cache \<Rightarrow> string \<Rightarrow> panda_file list \<Rightarrow> pt_location \<Rightarrow> bool" where
  "url_location c url [] loc = False"
| "url_location c url (pf # pfs) loc =
     (case GetDebugInfo c pf of None \<Rightarrow> False | Some debugInfo \<Rightarrow> xt_sourceFile debugInfo (loc_methodId loc) = url)"

definition Inspector_RemoveBreakpointsByUrl ::
  "pt_thread \<Rightarrow> string \<Rightarrow> source_file_filter \<Rightarrow> ('w, 'm, 'msg) inspector \<Rightarrow> (unit \<times> ('w, 'm, 'msg) inspector) option" where
  "Inspector_RemoveBreakpointsByUrl thread url sourceFilesFilter =
     unless_dead () (\<lambda>i.
       if url = [] \<or> GetDebuggableThread thread i = None then Some ((), i)
       else let pandaFilesPaths = GetPandaFiles (debugInfoCache i) sourceFilesFilter
            in Some ((), i\<lparr>in_storage := BreakpointStorage_RemoveBreakpoints (url_location (debugInfoCache i) url pandaFilesPaths) (in_storage i)\<rparr>))"

definition Inspector_SetPauseOnExceptions ::
  "('w, 'm, 'j, 'msg) env \<Rightarrow> view \<Rightarrow> pt_thread \<Rightarrow> PauseOnExceptionsState \<Rightarrow> ('w, 'm, 'msg) inspector \<Rightarrow>
     (unit \<times> ('w, 'm, 'msg) inspector) option" where
  "Inspector_SetPauseOnExceptions e v thread state =
     unless_dead () (\<lambda>i. finish (call_thread e v thread (DebuggableThread_SetPauseOnExceptions state) i))"

text \<open>The commands of a paused thread do nothing on one that is not.\<close>

definition if_paused ::
  "pt_thread \<Rightarrow> (('w, 'm, 'msg) inspector \<Rightarrow> ('w, 'm, 'msg) inspector option) \<Rightarrow> ('w, 'm, 'msg) inspector \<Rightarrow>
     (unit \<times> ('w, 'm, 'msg) inspector) option" where
  "if_paused thread f =
     unless_dead () (\<lambda>i. case GetDebuggableThread thread i of
        None \<Rightarrow> Some ((), i)
      | Some x \<Rightarrow> if \<not> DebuggableThread_IsPaused (th_dt x) then Some ((), i) else finish (f i))"

definition Inspector_StepInto ::
  "('w, 'm, 'j, 'msg) env \<Rightarrow> view \<Rightarrow> pt_thread \<Rightarrow> ('w, 'm, 'msg) inspector \<Rightarrow> (unit \<times> ('w, 'm, 'msg) inspector) option" where
  "Inspector_StepInto e v thread =
     if_paused thread (\<lambda>i. case v_current v of
        None \<Rightarrow> Some i
      | Some frame \<Rightarrow> call_thread e v thread (DebuggableThread_StepInto (e_mo e) (GetCurrentLineLocations (debugInfoCache i) frame)) i)"

definition Inspector_StepOver ::
  "('w, 'm, 'j, 'msg) env \<Rightarrow> view \<Rightarrow> pt_thread \<Rightarrow> ('w, 'm, 'msg) inspector \<Rightarrow> (unit \<times> ('w, 'm, 'msg) inspector) option" where
  "Inspector_StepOver e v thread =
     if_paused thread (\<lambda>i. case v_current v of
        None \<Rightarrow> Some i
      | Some frame \<Rightarrow> call_thread e v thread (DebuggableThread_StepOver (e_mo e) (GetCurrentLineLocations (debugInfoCache i) frame)) i)"

definition Inspector_StepOut ::
  "('w, 'm, 'j, 'msg) env \<Rightarrow> view \<Rightarrow> pt_thread \<Rightarrow> ('w, 'm, 'msg) inspector \<Rightarrow> (unit \<times> ('w, 'm, 'msg) inspector) option" where
  "Inspector_StepOut e v thread =
     if_paused thread (\<lambda>i. call_thread e v thread (DebuggableThread_StepOut (e_mo e))
       (i\<lparr>in_calls := in_calls i @ [NotifyFramePop thread 0]\<rparr>))"

definition Inspector_ContinueToLocation ::
  "('w, 'm, 'j, 'msg) env \<Rightarrow> view \<Rightarrow> pt_thread \<Rightarrow> string \<Rightarrow> string \<Rightarrow> int \<Rightarrow> ('w, 'm, 'msg) inspector \<Rightarrow>
     (unit \<times> ('w, 'm, 'msg) inspector) option" where
  "Inspector_ContinueToLocation e v thread sourceFile scriptIdentity lineNumber =
     if_paused thread (\<lambda>i. call_thread e v thread
       (DebuggableThread_ContinueTo (e_mo e) (GetContinueToLocations (debugInfoCache i) sourceFile scriptIdentity lineNumber)) i)"

text \<open>\<open>v_restarted\<close> is the runtime's answer to \<^verbatim>\<open>RestartFrame\<close>.\<close>

definition Inspector_RestartFrame ::
  "('w, 'm, 'j, 'msg) env \<Rightarrow> view \<Rightarrow> pt_thread \<Rightarrow> nat \<Rightarrow> ('w, 'm, 'msg) inspector \<Rightarrow> (unit \<times> ('w, 'm, 'msg) inspector) option" where
  "Inspector_RestartFrame e v thread frameId =
     if_paused thread (\<lambda>i. if \<not> v_restarted v then Some i
       else call_thread e v thread (DebuggableThread_StepInto (e_mo e) {}) i)"

definition Inspector_GetSourceCode ::
  "('w, 'm, 'j, 'msg) env \<Rightarrow> string \<Rightarrow> string \<Rightarrow> ('w, 'm, 'msg) inspector \<Rightarrow> (string \<times> ('w, 'm, 'msg) inspector) option" where
  "Inspector_GetSourceCode e sourceFile scriptIdentity =
     unless_dead [] (\<lambda>i. Some (DebugInfoCache_GetSourceCode (e_file e) (debugInfoCache i) sourceFile scriptIdentity, i))"

definition Inspector_Disable ::
  "('w, 'm, 'j, 'msg) env \<Rightarrow> view \<Rightarrow> pt_thread \<Rightarrow> ('w, 'm, 'msg) inspector \<Rightarrow> (unit \<times> ('w, 'm, 'msg) inspector) option" where
  "Inspector_Disable e v thread =
     unless_dead () (\<lambda>i. case call_thread e v thread DebuggableThread_Reset i of
        None \<Rightarrow> None
      | Some i \<Rightarrow> finish (call_thread e v thread (DebuggableThread_Continue (e_mo e)) i))"

definition SetAsyncCallStackDepth :: "nat \<Rightarrow> ('w, 'm, 'msg) inspector \<Rightarrow> (unit \<times> ('w, 'm, 'msg) inspector) option" where
  "SetAsyncCallStackDepth maxDepth i = Some ((), i\<lparr>in_calls := in_calls i @ [SetAsyncDepth maxDepth]\<rparr>)"

definition ReplyNativeMethodCall ::
  "('w, 'm, 'j, 'msg) env \<Rightarrow> view \<Rightarrow> pt_thread \<Rightarrow> bool \<Rightarrow> ('w, 'm, 'msg) inspector \<Rightarrow> (unit \<times> ('w, 'm, 'msg) inspector) option" where
  "ReplyNativeMethodCall e v thread userCode i =
     (case (if userCode then Inspector_Continue e v thread i else Some ((), i)) of
        None \<Rightarrow> None
      | Some (_, i) \<Rightarrow> Some ((), i\<lparr>nativeMethodCallWaiting := False\<rparr>))"

definition ProfilerSetSamplingInterval :: "int \<Rightarrow> ('w, 'm, 'msg) inspector \<Rightarrow> (unit \<times> ('w, 'm, 'msg) inspector) option" where
  "ProfilerSetSamplingInterval interval =
     unless_dead () (\<lambda>i. Some ((), if interval < 0 then i else i\<lparr>samplingInterval := word_of_int interval\<rparr>))"

definition DebuggerEnable ::
  "('w, 'm, 'j, 'msg) env \<Rightarrow> view \<Rightarrow> ('w, 'm, 'msg) inspector \<Rightarrow> (unit \<times> ('w, 'm, 'msg) inspector) option" where
  "DebuggerEnable e v i =
     (case each_thread (\<lambda>t. call_thread e v t DebuggableThread_Reset) (map fst (threads i)) i of
        None \<Rightarrow> None
      | Some i \<Rightarrow> Some ((), i\<lparr>in_storage := BreakpointStorage_Reset (in_storage i)\<rparr>))"


section \<open>Requests to the object repository\<close>

text \<open>
  \<^verbatim>\<open>RequestToObjectRepository\<close> with the steps the application thread makes while the server waits
  for it: it wakes up, runs the request on its repository and suspends again. \<open>Some (None, \<dots>)\<close> is a
  request that is refused; \<open>None\<close> is a wait that does not end, when a thread counts as suspended that
  is not in \<^verbatim>\<open>Suspend\<close>.
\<close>

definition RequestToObjectRepository ::
  "'m managed_ops \<Rightarrow> (repository \<times> 'w evaluation_engine \<Rightarrow> 'r \<times> repository \<times> 'w evaluation_engine) \<Rightarrow> ('w, 'm) debugged \<Rightarrow>
     ('r option \<times> ('w, 'm) debugged) option" where
  "RequestToObjectRepository mo request x =
     (case Request_begin mo (length (dt_done (th_dt x))) (th_dt x) of
        (Inl _, d) \<Rightarrow> Some (None, x\<lparr>th_dt := d\<rparr>)
      | (Inr _, d) \<Rightarrow>
          (case th_pc x of
             Running \<Rightarrow> None
           | Waiting ctx \<Rightarrow>
               (case dt_state d of
                  (t, h, s, eng) \<Rightarrow>
                    (case request (th_repository x, eng) of
                       (res, r, eng) \<Rightarrow>
                         (case Suspend_woken mo ctx (d\<lparr>dt_state := (t, h, s, eng)\<rparr>) of
                            (pc, d) \<Rightarrow> Some (Some res, x\<lparr>th_pc := pc, th_dt := snd (Request_end mo d), th_repository := r\<rparr>))))
           | Woken ctx \<Rightarrow> None))"

definition Inspector_GetProperties ::
  "('w, 'm, 'j, 'msg) env \<Rightarrow> pt_thread \<Rightarrow> nat \<Rightarrow> bool \<Rightarrow> ('w, 'm, 'msg) inspector \<Rightarrow>
     (property_descriptor list \<times> ('w, 'm, 'msg) inspector) option" where
  "Inspector_GetProperties e thread objectId generatePreview =
     unless_dead [] (\<lambda>i.
       case GetDebuggableThread thread i of
         None \<Rightarrow> Some ([], i)
       | Some x \<Rightarrow>
           (case RequestToObjectRepository (e_mo e)
                   (\<lambda>(r, eng). case ObjectRepository_GetProperties (e_ext e) objectId generatePreview r of (ps, r) \<Rightarrow> (ps, r, eng)) x of
              None \<Rightarrow> None
            | Some (Some properties, x) \<Rightarrow> Some (properties, put_thread thread x i)
            | Some (None, x) \<Rightarrow>
                (case th_objectRepository x of
                   None \<Rightarrow> Some ([], put_thread thread x i)
                 | Some r \<Rightarrow>
                     (case ObjectRepository_GetProperties (e_ext e) objectId generatePreview r of
                        (properties, r) \<Rightarrow> Some (properties, put_thread thread (x\<lparr>th_objectRepository := Some r\<rparr>) i)))))"

text \<open>The request evaluates the bytecode, drops what that gives and answers a fixed string. A refused
  request leaves no result to dereference.\<close>

definition DebuggableThread_EvaluateExpression ::
  "('w, 'm, 'j, 'msg) env \<Rightarrow> nat \<Rightarrow> string \<Rightarrow> ('w, 'm) debugged \<Rightarrow>
     ((remote_object \<times> remote_object option) \<times> ('w, 'm) debugged) option" where
  "DebuggableThread_EvaluateExpression e frameNumber bytecode x =
     (case RequestToObjectRepository (e_mo e)
             (\<lambda>(r, eng). case EvaluateExpression (e_ops e) (of_nat frameNumber) bytecode None eng of
                (_, _, eng) \<Rightarrow> (RemoteObject (VString ''hello world''), r, eng)) x of
        None \<Rightarrow> None
      | Some (None, x) \<Rightarrow> None
      | Some (Some res, x) \<Rightarrow> Some ((res, None), x))"

fun GetFrameCount_loop :: "debug_info_cache \<Rightarrow> (pt_frame option \<times> nat) list \<Rightarrow> nat \<Rightarrow> nat option" where
  "GetFrameCount_loop c [] totalFrames = Some totalFrames"
| "GetFrameCount_loop c ((None, n) # frames) totalFrames = None"
| "GetFrameCount_loop c ((Some frame, n) # frames) totalFrames =
     (case GetSourceLocation c frame ([], [], 0) of
        None \<Rightarrow> None
      | Some (sourceFile, _) \<Rightarrow> if sourceFile = [] then Some totalFrames else GetFrameCount_loop c frames (Suc totalFrames))"

definition GetFrameCount :: "view \<Rightarrow> ('w, 'm, 'msg) inspector \<Rightarrow> nat option" where
  "GetFrameCount v i = GetFrameCount_loop (debugInfoCache i) (v_frames v) 0"

definition GetNewExceptionId :: "('w, 'm, 'msg) inspector \<Rightarrow> nat \<times> ('w, 'm, 'msg) inspector" where
  "GetNewExceptionId i = (unat (currentExceptionId i), i\<lparr>currentExceptionId := currentExceptionId i + 1\<rparr>)"

definition CreateExceptionDetails ::
  "view \<Rightarrow> remote_object \<Rightarrow> ('w, 'm, 'msg) inspector \<Rightarrow> (exception_details option \<times> ('w, 'm, 'msg) inspector) option" where
  "CreateExceptionDetails v exception i =
     (case v_current v of
        None \<Rightarrow> Some (None, i)
      | Some frame \<Rightarrow>
          (case GetSourceLocation (debugInfoCache i) frame ([], [], 0) of
             None \<Rightarrow> None
           | Some (sourceFile, methodName, lineNumber) \<Rightarrow>
               (case GetNewExceptionId i of
                  (exceptionId, i) \<Rightarrow>
                    Some (Some ((ExceptionDetails exceptionId [] lineNumber 0)\<lparr>xd_url := Some sourceFile, xd_exception := Some exception\<rparr>), i))))"

definition Evaluate ::
  "('w, 'm, 'j, 'msg) env \<Rightarrow> view \<Rightarrow> pt_thread \<Rightarrow> string \<Rightarrow> nat \<Rightarrow> ('w, 'm, 'msg) inspector \<Rightarrow>
     ((string + remote_object \<times> exception_details option) \<times> ('w, 'm, 'msg) inspector) option" where
  "Evaluate e v thread bytecodeBase64 frameNumber =
     unless_dead (Inl ''Fatal, VM is dead'') (\<lambda>i.
       case GetDebuggableThread thread i of
         None \<Rightarrow> Some (Inl ''No thread found'', i)
       | Some x \<Rightarrow>
           if \<not> DebuggableThread_IsPaused (th_dt x) then Some (Inl ''Expression evaluation can be done only on pause'', i)
           else case GetFrameCount v i of
                  None \<Rightarrow> None
                | Some totalFrames \<Rightarrow>
                    if frameNumber \<ge> totalFrames then Some (Inl ''Invalid frameNumber.'', i)
                    else case Base64_Decode_string (bytes_of bytecodeBase64) [] of
                           (False, _) \<Rightarrow> Some (Inl ''EvaluateValue: base64 decode failed'', i)
                         | (True, bytecode) \<Rightarrow>
                             (case DebuggableThread_EvaluateExpression e frameNumber (text_of bytecode) x of
                                None \<Rightarrow> None
                              | Some ((res, exc), x) \<Rightarrow>
                                  let i = put_thread thread x i
                                  in case exc of
                                       None \<Rightarrow> Some (Inr (res, None), i)
                                     | Some exc \<Rightarrow>
                                         (case CreateExceptionDetails v exc i of
                                            None \<Rightarrow> None
                                          | Some (details, i) \<Rightarrow> Some (Inr (res, details), i))))"

section \<open>Native calls\<close>

text \<open>\<^verbatim>\<open>NativeMethodCall\<close> up to the event, and from the lock of its own mutex to the wait.\<close>

definition NativeMethodCall_send ::
  "('w, 'm, 'j, 'msg) env \<Rightarrow> pt_thread \<Rightarrow> u64 \<Rightarrow> ('w, 'm, 'msg) inspector \<Rightarrow> bool \<times> ('w, 'm, 'msg) inspector" where
  "NativeMethodCall_send e thread nativeAddress i =
     (if \<not> mixedDebugEnabled i then (False, i)
      else case GetDebuggableThread thread i of
             None \<Rightarrow> (False, i)
           | Some x \<Rightarrow>
               if \<not> DebuggableThread_IsStepInto (th_dt x) then (False, i)
               else (True, on_server (SendNativeMethodCallEvent (e_js e) (e_tid e) thread nativeAddress True) i))"

definition NativeMethodCall_wait :: "('w, 'm, 'msg) inspector \<Rightarrow> ('w, 'm, 'msg) inspector" where
  "NativeMethodCall_wait i = i\<lparr>nativeMethodCallWaiting := True\<rparr>"

section \<open>Profiling\<close>

text \<open>The sampler is the runtime's: whether it runs, whether it starts and the profiles it gives.\<close>

record 'p profiler =
  pr_IsProfilerRunning :: bool
  pr_StartProfilingSession :: "u32 \<Rightarrow> bool"
  pr_StopProfilingSession :: "'p option option"

definition ProfilerStart :: "'p profiler \<Rightarrow> ('w, 'm, 'msg) inspector \<Rightarrow> ((string + bool) \<times> ('w, 'm, 'msg) inspector) option" where
  "ProfilerStart p =
     unless_dead (Inl ''Fatal, VM is dead'') (\<lambda>i.
       if pr_IsProfilerRunning p then Some (Inl ''Fatal, profiling operation is already running.'', i)
       else if \<not> pr_StartProfilingSession p (samplingInterval i) then Some (Inl ''Fatal, profiling operation failed to start.'', i)
       else Some (Inr True, i))"

definition ProfilerStop :: "'p profiler \<Rightarrow> ('w, 'm, 'msg) inspector \<Rightarrow> ((string + 'p) \<times> ('w, 'm, 'msg) inspector) option" where
  "ProfilerStop p =
     unless_dead (Inl ''Fatal, VM is dead'') (\<lambda>i.
       case pr_StopProfilingSession p of
         None \<Rightarrow> Some (Inl ''Fatal, profiler inactive'', i)
       | Some None \<Rightarrow> Some (Inl ''Fatal, profiler info is empty'', i)
       | Some (Some profile) \<Rightarrow> Some (Inr profile, i))"


end
