(* ===== verification/Inspector_Server.thy ===== *)
theory Inspector_Server
  imports Inspector
begin

text \<open>
  The methods of the protocol: what \<^verbatim>\<open>InspectorServer\<close> (tooling/static/inspector_server.cpp) does with a
  request, down to the command of the \<^verbatim>\<open>Inspector\<close> it calls and the response it gives, and the table
  \<^verbatim>\<open>Inspector::RegisterMethodHandlers\<close> fills. A handler takes the session id and the parameters; the
  answers of the runtime that a command needs are the \<open>view\<close>.
\<close>

section \<open>Handlers\<close>

type_synonym ('w, 'm, 'j, 'msg) handler =
  "string \<Rightarrow> 'j \<Rightarrow> ('w, 'm, 'msg) inspector \<Rightarrow> (method_response \<times> ('w, 'm, 'msg) inspector) option"

abbreviation session_thread :: "string \<Rightarrow> ('w, 'm, 'msg) inspector \<Rightarrow> pt_thread" where
  "session_thread sessionId i \<equiv> GetThreadBySessionId (sv_sessions (in_server i)) sessionId"

abbreviation session_script :: "nat \<Rightarrow> ('w, 'm, 'msg) inspector \<Rightarrow> script_key" where
  "session_script scriptId i \<equiv> GetScript (sv_sources (in_server i)) scriptId"

text \<open>The handlers that call a command and answer without a result.\<close>

definition empty_reply :: "(unit \<times> ('w, 'm, 'msg) inspector) option \<Rightarrow> (method_response \<times> ('w, 'm, 'msg) inspector) option" where
  "empty_reply res = map_option (\<lambda>(_, i). (Inr None, i)) res"

definition thread_command ::
  "(pt_thread \<Rightarrow> ('w, 'm, 'msg) inspector \<Rightarrow> (unit \<times> ('w, 'm, 'msg) inspector) option) \<Rightarrow> ('w, 'm, 'j, 'msg) handler" where
  "thread_command f sessionId params i = empty_reply (f (session_thread sessionId i) i)"

definition OnCallDebuggerContinueToLocation :: "('w, 'm, 'j, 'msg) env \<Rightarrow> view \<Rightarrow> ('w, 'm, 'j, 'msg) handler" where
  "OnCallDebuggerContinueToLocation e v sessionId params i =
     (case Location_FromJsonProperty (e_js e) params ''location'' of
        Inl err \<Rightarrow> Some (Inl (JRPCError_of err), i)
      | Inr loc \<Rightarrow>
          let script = session_script (l_scriptId loc) i
          in empty_reply (Inspector_ContinueToLocation e v (session_thread sessionId i) (fst script) (snd script) (l_lineNumber loc) i))"

definition OnCallDebuggerEnable :: "('w, 'm, 'j, 'msg) env \<Rightarrow> view \<Rightarrow> ('w, 'm, 'j, 'msg) handler" where
  "OnCallDebuggerEnable e v sessionId params i =
     map_option (\<lambda>(_, i). (Inr (Some [(''debuggerId'', JInt 0), (''protocols'', JArr [])]), i)) (DebuggerEnable e v i)"

text \<open>\<^verbatim>\<open>~0U\<close> as an \<^verbatim>\<open>int32_t\<close> is -1.\<close>

definition OnCallDebuggerGetPossibleBreakpoints :: "('w, 'm, 'j, 'msg) env \<Rightarrow> ('w, 'm, 'j, 'msg) handler" where
  "OnCallDebuggerGetPossibleBreakpoints e sessionId params i =
     (case Location_FromJsonProperty (e_js e) params ''start'' of
        Inl err \<Rightarrow> Some (Inl (JRPCError err PARSE_ERROR), i)
      | Inr start \<Rightarrow>
          let scriptId = l_scriptId start;
              script = session_script scriptId i;
              restrictToFunction = (case js_bool (e_js e) params ''restrictToFunction'' of Some b \<Rightarrow> b | None \<Rightarrow> False);
              respond = (\<lambda>endLine. map_option
                (\<lambda>(lineNumbers, i). (Inr (Some (PossibleBreakpointsResponse_Serialize (map (Location scriptId) (sorted_list_of_set lineNumbers)))), i))
                (GetPossibleBreakpoints (fst script) (snd script) (l_lineNumber start) endLine restrictToFunction i))
          in case Location_FromJsonProperty (e_js e) params ''end'' of
               Inl _ \<Rightarrow> respond (int32_of (2 ^ 32 - 1))
             | Inr end' \<Rightarrow>
                 if l_scriptId end' \<noteq> scriptId
                 then Some (Inl (JRPCError (''Script ids don'' @ [CHR 0x27] @ ''t match'') INVALID_PARAMS), i)
                 else respond (l_lineNumber end'))"

definition OnCallDebuggerGetScriptSource :: "('w, 'm, 'j, 'msg) env \<Rightarrow> ('w, 'm, 'j, 'msg) handler" where
  "OnCallDebuggerGetScriptSource e sessionId params i =
     (case ParseNumericId (e_js e) SIZE_MAX params ''scriptId'' of
        Inl err \<Rightarrow> Some (Inl (JRPCError err PARSE_ERROR), i)
      | Inr scriptId \<Rightarrow>
          let script = session_script scriptId i
          in map_option (\<lambda>(code, i). (Inr (Some (ScriptSourceResponse_Serialize code)), i))
               (Inspector_GetSourceCode e (fst script) (snd script) i))"

definition OnCallDebuggerRemoveBreakpoint :: "('w, 'm, 'j, 'msg) env \<Rightarrow> ('w, 'm, 'j, 'msg) handler" where
  "OnCallDebuggerRemoveBreakpoint e sessionId params i =
     (case ParseNumericId (e_js e) SIZE_MAX params ''breakpointId'' of
        Inl err \<Rightarrow> Some (Inl (JRPCError_of err), i)
      | Inr breakpointId \<Rightarrow> empty_reply (Inspector_RemoveBreakpoint breakpointId i))"

definition path_separator :: "char \<Rightarrow> bool" where
  "path_separator c \<longleftrightarrow> c = CHR 0x5C \<or> c = CHR ''/''"

definition IsPathEqual :: "string \<Rightarrow> string \<Rightarrow> bool" where
  "IsPathEqual src dst \<longleftrightarrow> length src = length dst \<and>
     list_all (\<lambda>(a, b). path_separator a \<and> path_separator b \<or> a = b) (zip src dst)"

definition FILE_PREFIX :: string where "FILE_PREFIX = ''file://''"

definition GetUrlFileFilter :: "string \<Rightarrow> source_file_filter" where
  "GetUrlFileFilter url fileName pandaFile =
     IsPathEqual (if find_sub FILE_PREFIX url = Some 0 then drop (length FILE_PREFIX) url else url) fileName"

definition OnCallDebuggerRemoveBreakpointsByUrl :: "('w, 'm, 'j, 'msg) env \<Rightarrow> ('w, 'm, 'j, 'msg) handler" where
  "OnCallDebuggerRemoveBreakpointsByUrl e sessionId params i =
     (case js_string (e_js e) params ''url'' of
        None \<Rightarrow> Some (Inl (JRPCError (''No '' @ quoted ''url'' @ '' parameter was provided for Debugger.removeBreakpointsByUrl'') PARSE_ERROR), i)
      | Some url \<Rightarrow> empty_reply (Inspector_RemoveBreakpointsByUrl (session_thread sessionId i) url (GetUrlFileFilter url) i))"

definition OnCallDebuggerRestartFrame :: "('w, 'm, 'j, 'msg) env \<Rightarrow> view \<Rightarrow> ('w, 'm, 'j, 'msg) handler" where
  "OnCallDebuggerRestartFrame e v sessionId params i =
     (case ParseNumericId (e_js e) UINT32_MAX params ''callFrameId'' of
        Inl err \<Rightarrow> Some (Inl (JRPCError err PARSE_ERROR), i)
      | Inr frameId \<Rightarrow>
          map_option (\<lambda>(_, i). (Inr (Some [(''callFrames'', JArr [])]), i))
            (Inspector_RestartFrame e v (session_thread sessionId i) frameId i))"

definition OnCallDebuggerSetBreakpoint :: "('w, 'm, 'j, 'msg) env \<Rightarrow> ('w, 'm, 'j, 'msg) handler" where
  "OnCallDebuggerSetBreakpoint e sessionId params i =
     (case Location_FromJsonProperty (e_js e) params ''location'' of
        Inl err \<Rightarrow> Some (Inl (JRPCError err PARSE_ERROR), i)
      | Inr loc \<Rightarrow>
          let condition = js_string (e_js e) params ''condition'';
              script = session_script (l_scriptId loc) i
          in case Inspector_SetBreakpoint
                    (\<lambda>fileName pandaFile. fileName = fst script \<and> (snd script = [] \<or> pandaFile = snd script))
                    (l_lineNumber loc) condition i of
               None \<Rightarrow> None
             | Some ((None, _), i) \<Rightarrow> Some (Inl (JRPCError ''Failed to set breakpoint'' INTERNAL_ERROR), i)
             | Some ((Some bpId, _), i) \<Rightarrow>
                 Some (Inr (Some [(''breakpointId'', JStr (to_string bpId)), (''actualLocation'', JObj (Location_Serialize loc))]), i))"

fun AddLocations_loop ::
  "('j, 'msg) json_ops \<Rightarrow> (string \<times> string) list \<Rightarrow> int \<Rightarrow> 'msg inspector_server \<Rightarrow> location list \<times> 'msg inspector_server" where
  "AddLocations_loop js [] lineNumber s = ([], s)"
| "AddLocations_loop js ((sourceFile, scriptIdentity) # files) lineNumber s =
     (case announce_script js sourceFile scriptIdentity s of
        (scriptId, s) \<Rightarrow> (case AddLocations_loop js files lineNumber s of (locs, s) \<Rightarrow> (Location scriptId lineNumber # locs, s)))"

definition AddLocations ::
  "('j, 'msg) json_ops \<Rightarrow> source_file_set \<Rightarrow> int \<Rightarrow> 'msg inspector_server \<Rightarrow> location list \<times> 'msg inspector_server" where
  "AddLocations js files lineNumber s = AddLocations_loop js (sorted_list_of_set files) lineNumber s"

definition SetBreakpointByUrl ::
  "('w, 'm, 'j, 'msg) env \<Rightarrow> url_breakpoint_request \<Rightarrow> ('w, 'm, 'msg) inspector \<Rightarrow>
     ((string + url_breakpoint_response) \<times> ('w, 'm, 'msg) inspector) option" where
  "SetBreakpointByUrl e request i =
     (case rq_url request of
        None \<Rightarrow> Some (Inl ''Failed to set breakpoint, url is none'', i)
      | Some url \<Rightarrow>
          (case Inspector_SetBreakpoint (GetUrlFileFilter url) (rq_lineNumber request) (rq_condition request) i of
             None \<Rightarrow> None
           | Some ((None, _), i) \<Rightarrow> Some (Inl ''Failed to set breakpoint'', i)
           | Some ((Some bpId, files), i) \<Rightarrow>
               (case AddLocations (e_js e) files (rq_lineNumber request) (in_server i) of
                  (locs, s) \<Rightarrow> Some (Inr \<lparr>ur_breakpointId = bpId, ur_locations = locs\<rparr>, i\<lparr>in_server := s\<rparr>))))"

definition OnCallDebuggerSetBreakpointByUrl :: "('w, 'm, 'j, 'msg) env \<Rightarrow> ('w, 'm, 'j, 'msg) handler" where
  "OnCallDebuggerSetBreakpointByUrl e sessionId params i =
     (case UrlBreakpointRequest_FromJson (e_js e) params of
        Inl err \<Rightarrow> Some (Inl (JRPCError (''Parse error: '' @ err) PARSE_ERROR), i)
      | Inr request \<Rightarrow>
          map_option (\<lambda>(res, i). (case res of Inl err \<Rightarrow> Inl (JRPCError_of err)
              | Inr response \<Rightarrow> Inr (Some (UrlBreakpointResponse_Serialize response)), i))
            (SetBreakpointByUrl e request i))"

fun ParseUrlBreakpointRequests :: "('j, 'msg) json_ops \<Rightarrow> 'j option list \<Rightarrow> string + url_breakpoint_request list" where
  "ParseUrlBreakpointRequests js [] = Inr []"
| "ParseUrlBreakpointRequests js (None # rest) =
     Inl (''Invalid '' @ quoted ''locations'' @ '' array in getPossibleAndSetBreakpointByUrl'')"
| "ParseUrlBreakpointRequests js (Some j # rest) =
     (case UrlBreakpointRequest_FromJson js j of
        Inl err \<Rightarrow> Inl (''Invalid breakpoint request: '' @ err)
      | Inr request \<Rightarrow>
          (case ParseUrlBreakpointRequests js rest of Inl err \<Rightarrow> Inl err | Inr requests \<Rightarrow> Inr (request # requests)))"

fun set_url_breakpoints ::
  "('w, 'm, 'j, 'msg) env \<Rightarrow> url_breakpoint_request list \<Rightarrow> ('w, 'm, 'msg) inspector \<Rightarrow>
     (custom_url_breakpoint_response list \<times> ('w, 'm, 'msg) inspector) option" where
  "set_url_breakpoints e [] i = Some ([], i)"
| "set_url_breakpoints e (req # reqs) i =
     (case SetBreakpointByUrl e req i of
        None \<Rightarrow> None
      | Some (res, i) \<Rightarrow>
          let resp = (case res of
                        Inl _ \<Rightarrow> CustomUrlBreakpointResponse (rq_lineNumber req)
                      | Inr response \<Rightarrow>
                          if ur_locations response \<noteq> [] then ToCustomUrlBreakpointResponse response
                          else (CustomUrlBreakpointResponse (rq_lineNumber req))\<lparr>cu_id := Some (ur_breakpointId response)\<rparr>)
          in map_option (\<lambda>(resps, i). (resp # resps, i)) (set_url_breakpoints e reqs i))"

definition OnCallDebuggerGetPossibleAndSetBreakpointByUrl :: "('w, 'm, 'j, 'msg) env \<Rightarrow> ('w, 'm, 'j, 'msg) handler" where
  "OnCallDebuggerGetPossibleAndSetBreakpointByUrl e sessionId params i =
     (case js_array (e_js e) params ''locations'' of
        None \<Rightarrow> Some (Inl (JRPCError (''No '' @ quoted ''locations'' @ '' array in getPossibleAndSetBreakpointByUrl'') PARSE_ERROR), i)
      | Some rawRequests \<Rightarrow>
          (case ParseUrlBreakpointRequests (e_js e) rawRequests of
             Inl err \<Rightarrow> Some (Inl (JRPCError err PARSE_ERROR), i)
           | Inr requests \<Rightarrow>
               map_option (\<lambda>(resps, i). (Inr (Some (CustomUrlBreakpointLocations_Serialize resps)), i)) (set_url_breakpoints e requests i)))"

text \<open>A boolean property that has to be there.\<close>

definition bool_command ::
  "('j, 'msg) json_ops \<Rightarrow> string \<Rightarrow> JRPCError \<Rightarrow>
     (pt_thread \<Rightarrow> bool \<Rightarrow> ('w, 'm, 'msg) inspector \<Rightarrow> (unit \<times> ('w, 'm, 'msg) inspector) option) \<Rightarrow> ('w, 'm, 'j, 'msg) handler" where
  "bool_command js name err f sessionId params i =
     (case js_bool js params name of
        None \<Rightarrow> Some (Inl err, i)
      | Some b \<Rightarrow> empty_reply (f (session_thread sessionId i) b i))"

definition no_property :: "string \<Rightarrow> string" where
  "no_property name = ''No '' @ quoted name @ '' property''"

definition OnCallDebuggerSetBreakpointsActive :: "('w, 'm, 'j, 'msg) env \<Rightarrow> ('w, 'm, 'j, 'msg) handler" where
  "OnCallDebuggerSetBreakpointsActive e =
     bool_command (e_js e) ''active'' (JRPCError_of (no_property ''active'')) (\<lambda>thread. Inspector_SetBreakpointsActive)"

definition OnCallDebuggerSetSkipAllPauses :: "('w, 'm, 'j, 'msg) env \<Rightarrow> view \<Rightarrow> ('w, 'm, 'j, 'msg) handler" where
  "OnCallDebuggerSetSkipAllPauses e v =
     bool_command (e_js e) ''skip'' (JRPCError (no_property ''active'') INVALID_PARAMS) (Inspector_SetSkipAllPauses e v)"

definition OnCallDebuggerSetMixedDebugEnabled :: "('w, 'm, 'j, 'msg) env \<Rightarrow> ('w, 'm, 'j, 'msg) handler" where
  "OnCallDebuggerSetMixedDebugEnabled e =
     bool_command (e_js e) ''enabled'' (JRPCError (no_property ''enabled'') INVALID_PARAMS) (\<lambda>thread. SetMixedDebugEnabled)"

definition OnCallDebuggerReplyNativeMethodCall :: "('w, 'm, 'j, 'msg) env \<Rightarrow> view \<Rightarrow> ('w, 'm, 'j, 'msg) handler" where
  "OnCallDebuggerReplyNativeMethodCall e v =
     bool_command (e_js e) ''userCode'' (JRPCError_of (no_property ''userCode'')) (ReplyNativeMethodCall e v)"

definition exceptions_state :: "string \<Rightarrow> PauseOnExceptionsState option" where
  "exceptions_state state =
     (if state = ''none'' then Some POE_NONE
      else if state = ''caught'' then Some POE_CAUGHT
      else if state = ''uncaught'' then Some POE_UNCAUGHT
      else if state = ''all'' then Some POE_ALL else None)"

definition OnCallDebuggerSetPauseOnExceptions :: "('w, 'm, 'j, 'msg) env \<Rightarrow> view \<Rightarrow> ('w, 'm, 'j, 'msg) handler" where
  "OnCallDebuggerSetPauseOnExceptions e v sessionId params i =
     (case js_string (e_js e) params ''state'' of
        None \<Rightarrow> Some (Inl (JRPCError (no_property ''state'') INVALID_PARAMS), i)
      | Some stateStr \<Rightarrow>
          (case exceptions_state stateStr of
             None \<Rightarrow> Some (Inl (JRPCError (''Invalid '' @ quoted ''state'' @ '' value: '' @ stateStr) INVALID_PARAMS), i)
           | Some state \<Rightarrow> empty_reply (Inspector_SetPauseOnExceptions e v (session_thread sessionId i) state i)))"

text \<open>The answer to an evaluation.\<close>

definition evaluation_reply ::
  "((string + remote_object \<times> exception_details option) \<times> ('w, 'm, 'msg) inspector) option \<Rightarrow>
     (method_response \<times> ('w, 'm, 'msg) inspector) option" where
  "evaluation_reply res = map_option (\<lambda>(res, i).
     (case res of
        Inl err \<Rightarrow> Inl (JRPCError (''Evaluation failed: '' @ err) INTERNAL_ERROR)
      | Inr (obj, details) \<Rightarrow> Inr (Some (EvaluationResult_Serialize obj details)), i)) res"

definition OnCallDebuggerEvaluateOnCallFrame :: "('w, 'm, 'j, 'msg) env \<Rightarrow> view \<Rightarrow> ('w, 'm, 'j, 'msg) handler" where
  "OnCallDebuggerEvaluateOnCallFrame e v sessionId params i =
     (case DebuggerEvaluationRequest_FromJson (e_js e) params of
        Inl err \<Rightarrow> Some (Inl (JRPCError err PARSE_ERROR), i)
      | Inr request \<Rightarrow> evaluation_reply (Evaluate e v (session_thread sessionId i) (ev_text request) (ev_callFrameId request) i))"

definition OnCallDebuggerCallFunctionOn :: "('w, 'm, 'j, 'msg) env \<Rightarrow> view \<Rightarrow> ('w, 'm, 'j, 'msg) handler" where
  "OnCallDebuggerCallFunctionOn e v sessionId params i =
     (case DebuggerCallFunctionOnRequest_FromJson (e_js e) params of
        Inl err \<Rightarrow> Some (Inl (JRPCError err PARSE_ERROR), i)
      | Inr request \<Rightarrow> evaluation_reply (Evaluate e v (session_thread sessionId i) (ev_text request) (ev_callFrameId request) i))"

definition OnCallRuntimeEvaluate :: "('w, 'm, 'j, 'msg) env \<Rightarrow> view \<Rightarrow> ('w, 'm, 'j, 'msg) handler" where
  "OnCallRuntimeEvaluate e v sessionId params i =
     (case js_string (e_js e) params ''expression'' of
        None \<Rightarrow> Some (Inl (JRPCError (quoted ''expression'' @ '' property is absent or empty'') PARSE_ERROR), i)
      | Some expressionStr \<Rightarrow>
          if expressionStr = [] then Some (Inl (JRPCError (quoted ''expression'' @ '' property is absent or empty'') PARSE_ERROR), i)
          else evaluation_reply (Evaluate e v (session_thread sessionId i) expressionStr 0 i))"

text \<open>\<^verbatim>\<open>std::trunc\<close>\<close>

definition trunc :: "real \<Rightarrow> int" where
  "trunc x = (if x < 0 then \<lceil>x\<rceil> else \<lfloor>x\<rfloor>)"

definition OnCallDebuggerSetAsyncCallStackDepth :: "('w, 'm, 'j, 'msg) env \<Rightarrow> ('w, 'm, 'j, 'msg) handler" where
  "OnCallDebuggerSetAsyncCallStackDepth e sessionId params i =
     (case js_num (e_js e) params ''maxDepth'' of
        None \<Rightarrow> Some (Inl (JRPCError (no_property ''maxDepth'') INVALID_PARAMS), i)
      | Some depth \<Rightarrow>
          if depth < 0 \<or> depth \<noteq> of_int (trunc depth) \<or> of_int (trunc depth) > real UINT32_MAX
          then Some (Inl (JRPCError (''Invalid '' @ quoted ''maxDepth'' @ '' property'') INVALID_PARAMS), i)
          else empty_reply (SetAsyncCallStackDepth (nat (trunc depth)) i))"

definition OnCallRuntimeGetProperties :: "('w, 'm, 'j, 'msg) env \<Rightarrow> ('w, 'm, 'j, 'msg) handler" where
  "OnCallRuntimeGetProperties e sessionId params i =
     (case ParseNumericId (e_js e) SIZE_MAX params ''objectId'' of
        Inl err \<Rightarrow> Some (Inl (JRPCError err PARSE_ERROR), i)
      | Inr objectId \<Rightarrow>
          let generatePreview = (case js_bool (e_js e) params ''generatePreview'' of Some b \<Rightarrow> b | None \<Rightarrow> False)
          in map_option (\<lambda>(properties, i). (Inr (Some [(''result'', JArr (map (\<lambda>d. JObj (PropertyDescriptor_Serialize d)) properties))]), i))
               (Inspector_GetProperties e (session_thread sessionId i) objectId generatePreview i))"

text \<open>A number an \<^verbatim>\<open>int32_t\<close> does not hold has no defined conversion.\<close>

definition OnCallProfilerSetSamplingInterval :: "('w, 'm, 'j, 'msg) env \<Rightarrow> ('w, 'm, 'j, 'msg) handler" where
  "OnCallProfilerSetSamplingInterval e sessionId params i =
     (case js_num (e_js e) params ''interval'' of
        None \<Rightarrow> Some (Inl (JRPCError (no_property ''interval'') INVALID_REQUEST), i)
      | Some x \<Rightarrow>
          if trunc x < -(2 ^ 31) \<or> 2 ^ 31 \<le> trunc x then None
          else empty_reply (ProfilerSetSamplingInterval (trunc x) i))"

definition OnCallProfilerStart :: "props profiler \<Rightarrow> ('w, 'm, 'j, 'msg) handler" where
  "OnCallProfilerStart p sessionId params i =
     map_option (\<lambda>(res, i). (case res of
        Inl err \<Rightarrow> Inl (JRPCError (''Profiler failed: '' @ err) INTERNAL_ERROR) | Inr _ \<Rightarrow> Inr None, i)) (ProfilerStart p i)"

definition OnCallProfilerStop :: "props profiler \<Rightarrow> ('w, 'm, 'j, 'msg) handler" where
  "OnCallProfilerStop p sessionId params i =
     map_option (\<lambda>(res, i). (case res of
        Inl err \<Rightarrow> Inl (JRPCError (''Profiler failed: '' @ err) INTERNAL_ERROR) | Inr profile \<Rightarrow> Inr (Some profile), i)) (ProfilerStop p i)"

definition OnCallTargetAttachToTarget :: "('w, 'm, 'j, 'msg) env \<Rightarrow> ('w, 'm, 'j, 'msg) handler" where
  "OnCallTargetAttachToTarget e sessionId params i =
     (case js_string (e_js e) params ''targetId'' of
        None \<Rightarrow> Some (Inl (JRPCError (no_property ''targetId'') INVALID_REQUEST), i)
      | Some targetId \<Rightarrow>
          if session_thread targetId i = PtThread_NONE
          then Some (Inl (JRPCError (quoted ''targetId'' @ '' '' @ targetId @ '' did not start'') INVALID_PARAMS), i)
          else Some (Inr (Some [(''sessionId'', JStr targetId)]), i))"

section \<open>The table of methods\<close>

text \<open>Commands the inspector accepts and ignores.\<close>

definition ignored :: "pt_thread \<Rightarrow> ('w, 'm, 'msg) inspector \<Rightarrow> (unit \<times> ('w, 'm, 'msg) inspector) option" where
  "ignored thread i = Some ((), i)"

definition method_table ::
  "('w, 'm, 'j, 'msg) env \<Rightarrow> view \<Rightarrow> props profiler \<Rightarrow> (string \<times> ('w, 'm, 'j, 'msg) handler) list" where
  "method_table e v p =
     [(''Target.attachToTarget'', OnCallTargetAttachToTarget e),
      (''Debugger.continueToLocation'', OnCallDebuggerContinueToLocation e v),
      (''Debugger.enable'', OnCallDebuggerEnable e v),
      (''Debugger.getPossibleBreakpoints'', OnCallDebuggerGetPossibleBreakpoints e),
      (''Debugger.getScriptSource'', OnCallDebuggerGetScriptSource e),
      (''Debugger.pause'', thread_command (Inspector_Pause e v)),
      (''Debugger.removeBreakpoint'', OnCallDebuggerRemoveBreakpoint e),
      (''Debugger.removeBreakpointsByUrl'', OnCallDebuggerRemoveBreakpointsByUrl e),
      (''Debugger.restartFrame'', OnCallDebuggerRestartFrame e v),
      (''Debugger.resume'', thread_command (Inspector_Continue e v)),
      (''Debugger.setAsyncCallStackDepth'', OnCallDebuggerSetAsyncCallStackDepth e),
      (''Debugger.setBlackboxPatterns'', thread_command ignored),
      (''Debugger.smartStepInto'', thread_command ignored),
      (''Debugger.setBreakpoint'', OnCallDebuggerSetBreakpoint e),
      (''Debugger.setBreakpointByUrl'', OnCallDebuggerSetBreakpointByUrl e),
      (''Debugger.getPossibleAndSetBreakpointByUrl'', OnCallDebuggerGetPossibleAndSetBreakpointByUrl e),
      (''Debugger.setBreakpointsActive'', OnCallDebuggerSetBreakpointsActive e),
      (''Debugger.setSkipAllPauses'', OnCallDebuggerSetSkipAllPauses e v),
      (''Debugger.setPauseOnExceptions'', OnCallDebuggerSetPauseOnExceptions e v),
      (''Debugger.stepInto'', thread_command (Inspector_StepInto e v)),
      (''Debugger.stepOut'', thread_command (Inspector_StepOut e v)),
      (''Debugger.stepOver'', thread_command (Inspector_StepOver e v)),
      (''Debugger.evaluateOnCallFrame'', OnCallDebuggerEvaluateOnCallFrame e v),
      (''Debugger.disable'', thread_command (Inspector_Disable e v)),
      (''Debugger.clientDisconnect'', thread_command ignored),
      (''Debugger.dropFrame'', thread_command ignored),
      (''Debugger.setNativeRange'', thread_command ignored),
      (''Debugger.replyNativeCalling'', OnCallDebuggerReplyNativeMethodCall e v),
      (''Debugger.callFunctionOn'', OnCallDebuggerCallFunctionOn e v),
      (''Debugger.setMixedDebugEnabled'', OnCallDebuggerSetMixedDebugEnabled e),
      (''Runtime.enable'', thread_command (RuntimeEnable e)),
      (''Runtime.getProperties'', OnCallRuntimeGetProperties e),
      (''Runtime.runIfWaitingForDebugger'', thread_command (RunIfWaitingForDebugger e v)),
      (''Runtime.evaluate'', OnCallRuntimeEvaluate e v),
      (''Profiler.enable'', thread_command ignored),
      (''Profiler.disable'', thread_command ignored),
      (''Profiler.setSamplingInterval'', OnCallProfilerSetSamplingInterval e),
      (''Profiler.start'', OnCallProfilerStart p),
      (''Profiler.stop'', OnCallProfilerStop p)]"

text \<open>The endpoint works on an inspector or on \<open>None\<close>, after the code has left its defined behaviour.\<close>

definition lift_handler :: "('w, 'm, 'j, 'msg) handler \<Rightarrow> ('j, ('w, 'm, 'msg) inspector option) method_handler" where
  "lift_handler h sessionId params s =
     (case s of
        None \<Rightarrow> (Inr None, None)
      | Some i \<Rightarrow> (case h sessionId params i of None \<Rightarrow> (Inr None, None) | Some (res, i) \<Rightarrow> (res, Some i)))"

definition send_reply :: "'msg \<Rightarrow> ('w, 'm, 'msg) inspector option \<Rightarrow> ('w, 'm, 'msg) inspector option" where
  "send_reply message = map_option (on_server (SendMessage message))"

definition RegisterMethodHandlers ::
  "('w, 'm, 'j, 'msg) env \<Rightarrow> view \<Rightarrow> props profiler \<Rightarrow> ('j, ('w, 'm, 'msg) inspector option) endpoint" where
  "RegisterMethodHandlers e v p =
     fold (\<lambda>(method, h). OnCallImpl (e_js e) send_reply method (lift_handler h)) (method_table e v p)
       \<lparr>methodHandlers = [], resultHandlers = []\<rparr>"

definition HandleMessage ::
  "('w, 'm, 'j, 'msg) env \<Rightarrow> view \<Rightarrow> props profiler \<Rightarrow> 'msg \<Rightarrow> ('w, 'm, 'msg) inspector \<Rightarrow> ('w, 'm, 'msg) inspector option" where
  "HandleMessage e v p message i =
     snd (EndpointBase_HandleMessage (e_js e) send_reply message (RegisterMethodHandlers e v p, Some i))"

text \<open>\<open>accepted\<close>: a new connection is made when there is none. \<open>hasEndpoint\<close>: the endpoint has been set.\<close>

definition OhosWsServer_ParseMessage ::
  "('w, 'm, 'j, 'msg) env \<Rightarrow> view \<Rightarrow> props profiler \<Rightarrow> bool \<Rightarrow> bool \<Rightarrow> 'msg \<Rightarrow> ('w, 'm, 'msg) inspector \<Rightarrow>
     (bool \<times> ('w, 'm, 'msg) inspector) option" where
  "OhosWsServer_ParseMessage e v p hasEndpoint accepted msg i =
     (if \<not> hasEndpoint then Some (False, i)
      else if \<not> sv_connected (in_server i) \<and> \<not> accepted then Some (False, i)
      else map_option (Pair True) (HandleMessage e v p msg (on_server (\<lambda>s. s\<lparr>sv_connected := True\<rparr>) i)))"

text \<open>The wait ends at once when the handler has answered and after its five seconds otherwise; an
  answer that never comes is \<open>None\<close>, the empty string of the source.\<close>

definition RunSync ::
  "('w, 'm, 'j, 'msg) env \<Rightarrow> view \<Rightarrow> props profiler \<Rightarrow> bool \<Rightarrow> bool \<Rightarrow> 'msg \<Rightarrow> ('w, 'm, 'msg) inspector \<Rightarrow>
     ('msg option \<times> ('w, 'm, 'msg) inspector) option" where
  "RunSync e v p hasEndpoint accepted msg i =
     (case OhosWsServer_ParseMessage e v p hasEndpoint accepted msg (on_server (\<lambda>s. s\<lparr>sv_syncMode := True, sv_syncResponse := None\<rparr>) i) of
        None \<Rightarrow> None
      | Some (_, i) \<Rightarrow>
          Some (sv_syncResponse (in_server i), on_server (\<lambda>s. s\<lparr>sv_syncMode := False, sv_syncResponse := None\<rparr>) i))"


end
