(* ===== verification/Inspector_Laws.thy ===== *)
theory Inspector_Laws
  imports Inspector_Server
begin

text \<open>
  What the commands of the protocol do to the inspector as a whole. A relation between inspectors
  that the elementary changes respect (an event that is sent, a script that becomes known, a thread
  that is updated) is respected by every handler; it is instantiated with the messages that leave
  the server and with what a command leaves alone.
\<close>

lemmas handler_defs = thread_command_def bool_command_def empty_reply_def ignored_def
  OnCallTargetAttachToTarget_def OnCallDebuggerContinueToLocation_def OnCallDebuggerEnable_def
  OnCallDebuggerGetPossibleBreakpoints_def OnCallDebuggerGetScriptSource_def OnCallDebuggerRemoveBreakpoint_def
  OnCallDebuggerRemoveBreakpointsByUrl_def OnCallDebuggerRestartFrame_def OnCallDebuggerSetAsyncCallStackDepth_def
  OnCallDebuggerSetBreakpoint_def OnCallDebuggerGetPossibleAndSetBreakpointByUrl_def
  OnCallDebuggerSetBreakpointsActive_def OnCallDebuggerSetSkipAllPauses_def OnCallDebuggerSetPauseOnExceptions_def
  OnCallDebuggerReplyNativeMethodCall_def OnCallDebuggerSetMixedDebugEnabled_def OnCallRuntimeGetProperties_def
  OnCallProfilerSetSamplingInterval_def Let_def

lemma update_storage [simp]:
  "fst (snd (snd (dt_state (dt_update g d)))) = fst (snd (snd (dt_state d)))"
  "fst (snd (snd (dt_state (dt_update2 g2 d)))) = fst (snd (snd (dt_state d)))"
  by (auto simp: dt_update_def dt_update2_def split: prod.split)

lemma server_call_storage:
  "dt_server_call mo d d' \<Longrightarrow> fst (snd (snd (dt_state d'))) = fst (snd (snd (dt_state d)))"
  by (erule dt_server_call.cases)
    (simp_all add: DebuggableThread_Reset_def DebuggableThread_Continue_def DebuggableThread_ContinueTo_def DebuggableThread_StepInto_def
      DebuggableThread_StepOver_def DebuggableThread_StepOut_def DebuggableThread_Touch_def DebuggableThread_Pause_def
      DebuggableThread_SetSkipAllPauses_def DebuggableThread_SetPauseOnExceptions_def DebuggableThread_Resume_def
      dt_assert_def dt_call_def Let_def)

section \<open>Relations the handlers respect\<close>

locale inspector_relation =
  fixes e :: "('w, 'm, 'j, 'msg) env"
    and S :: "'msg inspector_server \<Rightarrow> 'msg inspector_server \<Rightarrow> bool"
    and T :: "('w, 'm) debugged \<Rightarrow> ('w, 'm) debugged \<Rightarrow> bool"
    and R :: "('w, 'm, 'msg) inspector \<Rightarrow> ('w, 'm, 'msg) inspector \<Rightarrow> bool"
  assumes S_refl [intro, simp]: "S s s"
    and S_trans: "S s s' \<Longrightarrow> S s' s'' \<Longrightarrow> S s s''"
    and S_call: "S s (Server_Call (e_js e) sid m ps s)"
    and S_kill: "S s (Server_Kill s)"
    and S_sources: "S s (s\<lparr>sv_sources := src\<rparr>)"
    and R_refl [intro, simp]: "R i i"
    and R_trans: "R i i' \<Longrightarrow> R i' i'' \<Longrightarrow> R i i''"
    and R_server: "S (in_server i) s \<Longrightarrow> R i (i\<lparr>in_server := s\<rparr>)"
    and T_trans: "T x x' \<Longrightarrow> T x' x'' \<Longrightarrow> T x x''"
    and T_call: "dt_server_call (e_mo e) (shared_in i (th_dt x)) d \<Longrightarrow> T x (x\<lparr>th_dt := d\<lparr>dt_callbacks := []\<rparr>\<rparr>)"
    and T_properties: "RequestToObjectRepository (e_mo e) req x = Some (pds :: property_descriptor list option, x') \<Longrightarrow> T x x'"
    and T_evaluate: "RequestToObjectRepository (e_mo e) req' x = Some (ob :: remote_object option, x') \<Longrightarrow> T x x'"
    and T_repository: "T x (x\<lparr>th_repository := r\<rparr>)" "T x (x\<lparr>th_objectRepository := ro\<rparr>)"
    and R_thread: "GetDebuggableThread t i = Some x \<Longrightarrow> T x x' \<Longrightarrow> R i (put_thread t x' i)"
    and R_pause: "R i (PauseOtherThreads tid t i)"
    and R_storage: "R i (i\<lparr>in_storage := BreakpointStorage_SetBreakpointsActive b (in_storage i)\<rparr>)"
      "R i (i\<lparr>in_storage := snd (snd (BreakpointStorage_SetBreakpoint flt line cond c (in_storage i)))\<rparr>)"
      "R i (i\<lparr>in_storage := BreakpointStorage_RemoveBreakpoint bpId (in_storage i)\<rparr>)"
      "R i (i\<lparr>in_storage := BreakpointStorage_RemoveBreakpoints lflt (in_storage i)\<rparr>)"
      "R i (i\<lparr>in_storage := BreakpointStorage_Reset (in_storage i)\<rparr>)"
    and R_hybrid: "R i (i\<lparr>in_hybrid := h\<rparr>)"
    and R_other: "R i (i\<lparr>in_calls := cs\<rparr>)" "R i (i\<lparr>waitDebuggerSignals := n\<rparr>)" "R i (i\<lparr>mixedDebugEnabled := b\<rparr>)"
      "R i (i\<lparr>nativeMethodCallWaiting := b\<rparr>)" "R i (i\<lparr>samplingInterval := w\<rparr>)" "R i (i\<lparr>currentExceptionId := k\<rparr>)"
begin

lemma announce_S: "S s (snd (announce_script (e_js e) f ident s))"
  by (auto simp: announce_script_def CallDebuggerScriptParsed_def Let_def split: prod.splits
      intro: S_sources S_trans [OF S_sources S_call])

lemma async_frames_S: "S s (snd (async_frames_loop (e_js e) res frames s))"
proof (induction frames arbitrary: s)
  case (Cons f fs)
  show ?case
  proof (cases "res f")
    case (Some p)
    obtain url line where p: "p = (url, line)" by (cases p)
    obtain k s' where a: "announce_script (e_js e) url (av_pandaFile f) s = (k, s')" by fastforce
    have "S s s'" using announce_S [of s url "av_pandaFile f"] a by simp
    then show ?thesis using Some p a Cons [of s] S_trans [OF _ Cons [of s']] by (auto split: prod.splits)
  qed (use Cons in simp)
qed simp

lemma async_segments_S: "S s (snd (async_segments_loop (e_js e) res segments trace s))"
proof (induction segments arbitrary: trace s)
  case (Cons seg segs)
  obtain d fs where seg: "seg = (d, fs)" by (cases seg)
  obtain cf s' where a: "async_frames_loop (e_js e) res fs s = (cf, s')" by fastforce
  have "S s s'" using async_frames_S [of s res fs] a by simp
  then show ?case using seg a Cons by (auto intro: S_trans)
qed simp

lemma frames_S: "EnumerateHybridFrames (e_js e) ext sp c v frames k r s = Some (js, r', s') \<Longrightarrow> S s s'"
proof (induction frames arbitrary: k r s js)
  case (Cons f fs)
  show ?case
  proof (cases "process_frame ext sp c v f k r")
    case (Some p)
    show ?thesis
    proof (cases p)
      case (Pair cf r1)
      show ?thesis
      proof (cases cf)
        case None
        then show ?thesis using Cons.prems Some Pair by (auto intro: Cons.IH)
      next
        case (Some g)
        obtain j s1 where a: "AddCallFrameInfo (e_js e) g s = (j, s1)" by fastforce
        have "S s s1" using announce_S [of s "cf_sourceFile g" "cf_scriptIdentity g"] a
          by (auto simp: AddCallFrameInfo_def split: prod.splits)
        moreover have "S s1 s'" using Cons.prems \<open>process_frame ext sp c v f k r = Some p\<close> Pair Some a
          by (auto split: option.splits intro: Cons.IH)
        ultimately show ?thesis by (rule S_trans)
      qed
    qed
  qed (use Cons.prems in simp)
qed simp

lemma paused_S:
  assumes "CallDebuggerPaused (e_js e) tid t hits exc reason enum tr r s = Some (r', s')"
    and "\<And>js r1 s1. enum r s = Some (js, r1, s1) \<Longrightarrow> S s s1"
  shows "S s s'"
  using assms by (auto simp: CallDebuggerPaused_def Let_def split: if_splits option.splits prod.splits intro: S_trans S_call)

lemma AddLocations_S: "S s (snd (AddLocations (e_js e) files line s))"
proof -
  have "S s (snd (AddLocations_loop (e_js e) fs line s))" for fs
  proof (induction fs arbitrary: s)
    case (Cons f fs)
    obtain k s1 where a: "announce_script (e_js e) (fst f) (snd f) s = (k, s1)" by fastforce
    have "S s s1" using announce_S [of s "fst f" "snd f"] a by simp
    then show ?case using a Cons [of s1] by (cases f) (auto split: prod.splits intro: S_trans)
  qed simp
  then show ?thesis by (simp add: AddLocations_def)
qed

lemma set_repository_R: "R i (set_repository t r i)"
  by (cases "GetDebuggableThread t i") (simp_all add: set_repository_def R_thread T_repository)

lemma PostSuspend_R:
  assumes "DebuggableThreadPostSuspend e v t hits exc reason i = Some i'"
  shows "R i i'"
proof -
  define enum where "enum = (if v_unionEmpty v then EnumerateStaticFrames (e_js e) (e_ext e) (e_special e) (debugInfoCache i) v 0
             else EnumerateHybridFrames (e_js e) (e_ext e) (e_special e) (debugInfoCache i) v (v_union v) 0)"
  obtain tr s where a: "(case v_async v of None \<Rightarrow> (None, in_server i)
      | Some segments \<Rightarrow> CreateAsyncStackTrace (e_js e) (resolveAsyncFrame (debugInfoCache i)) segments (in_server i)) = (tr, s)" by fastforce
  have "S (in_server i) (snd (CreateAsyncStackTrace (e_js e) res segments (in_server i)))" for res segments
    unfolding CreateAsyncStackTrace_def by (rule async_segments_S)
  from this [of "resolveAsyncFrame (debugInfoCache i)"] have "S (in_server i) s"
    using a by (cases "v_async v") (simp_all, metis snd_conv)
  moreover obtain eo r r1 s1 where c: "CallDebuggerPaused (e_js e) (e_tid e) t hits eo reason enum tr r s = Some (r1, s1)"
    and i': "i' = (let i = set_repository t r1 (i\<lparr>in_server := s1\<rparr>)
             in if hits \<noteq> [] then PauseOtherThreads (e_tid e) t i else i)"
    using assms a by (auto simp: DebuggableThreadPostSuspend_def enum_def Let_def split: option.splits prod.splits)
  have "S s s1" using c by (rule paused_S) (auto simp: enum_def EnumerateStaticFrames_def split: if_splits intro: frames_S)
  ultimately have "R i (i\<lparr>in_server := s1\<rparr>)" by (intro R_server) (rule S_trans)
  then show ?thesis unfolding i' Let_def by (auto intro: R_trans [OF _ set_repository_R] R_trans [OF _ R_pause])
qed

lemma deliver_R: "deliver e v t cs i = Some i' \<Longrightarrow> R i i'"
proof (induction cs arbitrary: i)
  case (Cons c cs)
  show ?case
  proof (cases c)
    case (PostSuspend hits exc reason)
    then obtain i1 where "DebuggableThreadPostSuspend e v t hits exc reason i = Some i1" "deliver e v t cs i1 = Some i'"
      using Cons.prems by (auto split: option.splits)
    then show ?thesis by (blast intro: R_trans PostSuspend_R Cons.IH)
  next
    case PostResume
    moreover have "R i (on_server (CallDebuggerResumed (e_js e) (e_tid e) t) i)"
      unfolding on_server_def CallDebuggerResumed_def by (intro R_server S_call)
    ultimately show ?thesis using Cons.prems by (auto intro: R_trans Cons.IH)
  qed (use Cons in auto)
qed simp

lemma on_thread_R:
  assumes "on_thread e v t f i = Some i'"
    and "\<And>x pc d. GetDebuggableThread t i = Some x \<Longrightarrow> f (th_pc x) (shared_in i (th_dt x)) = Some (pc, d) \<Longrightarrow>
      T x (x\<lparr>th_pc := pc, th_dt := d\<lparr>dt_callbacks := []\<rparr>\<rparr>) \<and> R i (shared_out d i)"
  shows "R i i'"
proof (cases "GetDebuggableThread t i")
  case (Some x)
  then obtain pc d where d: "f (th_pc x) (shared_in i (th_dt x)) = Some (pc, d)"
    and del: "deliver e v t (dt_callbacks d) (put_thread t (x\<lparr>th_pc := pc, th_dt := d\<lparr>dt_callbacks := []\<rparr>\<rparr>) (shared_out d i)) = Some i'"
    using assms(1) by (auto simp: on_thread_def split: option.splits)
  have "GetDebuggableThread t (shared_out d i) = Some x"
    using Some by (simp add: GetDebuggableThread_def shared_out_def split: prod.split)
  then show ?thesis using R_trans [OF _ R_trans [OF R_thread deliver_R [OF del]]] assms(2) [OF Some d] by blast
qed (use assms(1) in \<open>simp add: on_thread_def\<close>)

lemma call_thread_R:
  assumes "\<And>d. dt_server_call (e_mo e) d (f d)"
  shows "call_thread e v t f i = Some i' \<Longrightarrow> R i i'"
  unfolding call_thread_def
proof (erule on_thread_R)
  fix x :: "('w, 'm) debugged" and pc d
  assume "Some (th_pc x, f (shared_in i (th_dt x))) = Some (pc, d)"
  then have d: "pc = th_pc x" "dt_server_call (e_mo e) (shared_in i (th_dt x)) d" using assms by auto
  obtain ts h st eng where "dt_state d = (ts, h, st, eng)" by (cases "dt_state d")
  moreover from this have "st = in_storage i"
    using server_call_storage [OF d(2)] by (simp add: shared_in_def split: prod.split_asm)
  ultimately have "shared_out d i = i\<lparr>in_hybrid := h\<rparr>" by (cases i) (simp add: shared_out_def)
  then show "T x (x\<lparr>th_pc := pc, th_dt := d\<lparr>dt_callbacks := []\<rparr>\<rparr>) \<and> R i (shared_out d i)"
    using T_call [OF d(2)] R_hybrid d(1) by simp
qed

lemmas calls_R = call_thread_R [OF dt_server_call.intros(1)] call_thread_R [OF dt_server_call.intros(2)]
  call_thread_R [OF dt_server_call.intros(3)] call_thread_R [OF dt_server_call.intros(4)]
  call_thread_R [OF dt_server_call.intros(5)] call_thread_R [OF dt_server_call.intros(6)]
  call_thread_R [OF dt_server_call.intros(7)] call_thread_R [OF dt_server_call.intros(8)]
  call_thread_R [OF dt_server_call.intros(9)] call_thread_R [OF dt_server_call.intros(10)]

lemma each_thread_R:
  assumes "\<And>t i i'. f t i = Some i' \<Longrightarrow> R i i'"
  shows "each_thread f ts i = Some i' \<Longrightarrow> R i i'"
proof (induction ts arbitrary: i)
  case (Cons t ts)
  then obtain i1 where "f t i = Some i1" "each_thread f ts i1 = Some i'" by (auto split: option.splits)
  then show ?case by (blast intro: R_trans assms Cons.IH)
qed simp

lemma kill_R: "R i (on_server Server_Kill i)"
  unfolding on_server_def by (intro R_server S_kill)

lemma unless_dead_R:
  assumes "unless_dead r f i = Some (res, i')" "f i = Some (res, i') \<Longrightarrow> R i i'"
  shows "R i i'"
  using assms kill_R by (auto simp: unless_dead_def CheckVmDead_def split: if_splits)

lemma if_paused_R:
  assumes "if_paused t f i = Some (res, i')" "\<And>i'. f i = Some i' \<Longrightarrow> R i i'"
  shows "R i i'"
  using assms(1) unfolding if_paused_def
  by (rule unless_dead_R) (auto split: option.splits if_splits intro: assms(2))

text \<open>The commands.\<close>

lemma commands_R:
  "RuntimeEnable e t i = Some (u, i') \<Longrightarrow> R i i'"
  "RunIfWaitingForDebugger e v t i = Some (u, i') \<Longrightarrow> R i i'"
  "Inspector_Pause e v t i = Some (u, i') \<Longrightarrow> R i i'"
  "Inspector_Continue e v t i = Some (u, i') \<Longrightarrow> R i i'"
  "Inspector_SetBreakpointsActive b i = Some (u, i') \<Longrightarrow> R i i'"
  "Inspector_SetSkipAllPauses e v t b i = Some (u, i') \<Longrightarrow> R i i'"
  "SetMixedDebugEnabled b i = Some (u, i') \<Longrightarrow> R i i'"
  "Inspector_RemoveBreakpoint k i = Some (u, i') \<Longrightarrow> R i i'"
  "Inspector_RemoveBreakpointsByUrl t url flt i = Some (u, i') \<Longrightarrow> R i i'"
  "Inspector_SetPauseOnExceptions e v t st i = Some (u, i') \<Longrightarrow> R i i'"
  "Inspector_Disable e v t i = Some (u, i') \<Longrightarrow> R i i'"
  "ProfilerSetSamplingInterval n i = Some (u, i') \<Longrightarrow> R i i'"
proof -
  show "R i i'" if "RuntimeEnable e t i = Some (u, i')"
    using that unfolding RuntimeEnable_def
    by (rule unless_dead_R) (auto simp: on_server_def CallRuntimeExecutionContextCreated_def Let_def intro: R_server S_call)
  show "R i i'" if "RunIfWaitingForDebugger e v t i = Some (u, i')"
    using that unfolding RunIfWaitingForDebugger_def
    by (rule unless_dead_R) (auto split: option.splits intro: R_trans [OF calls_R(7) R_other(2)])
  show "R i i'" if "Inspector_Pause e v t i = Some (u, i')"
    using that unfolding Inspector_Pause_def
    by (rule unless_dead_R) (auto intro: each_thread_R [OF calls_R(8)])
  show "R i i'" if "Inspector_Continue e v t i = Some (u, i')"
    using that unfolding Inspector_Continue_def
    by (rule unless_dead_R) (auto split: if_splits intro: each_thread_R [OF calls_R(2)] calls_R)
  show "R i i'" if "Inspector_SetBreakpointsActive b i = Some (u, i')"
    using that unfolding Inspector_SetBreakpointsActive_def by (rule unless_dead_R) (auto intro: R_storage)
  show "R i i'" if "Inspector_SetSkipAllPauses e v t b i = Some (u, i')"
    using that unfolding Inspector_SetSkipAllPauses_def by (rule unless_dead_R) (auto intro: calls_R)
  show "R i i'" if "SetMixedDebugEnabled b i = Some (u, i')"
    using that unfolding SetMixedDebugEnabled_def by (rule unless_dead_R) (auto intro: R_other)
  show "R i i'" if "Inspector_RemoveBreakpoint k i = Some (u, i')"
    using that unfolding Inspector_RemoveBreakpoint_def by (rule unless_dead_R) (auto intro: R_storage)
  show "R i i'" if "Inspector_RemoveBreakpointsByUrl t url flt i = Some (u, i')"
    using that unfolding Inspector_RemoveBreakpointsByUrl_def
    by (rule unless_dead_R) (auto simp: Let_def split: if_splits intro: R_storage)
  show "R i i'" if "Inspector_SetPauseOnExceptions e v t st i = Some (u, i')"
    using that unfolding Inspector_SetPauseOnExceptions_def by (rule unless_dead_R) (auto intro: calls_R)
  show "R i i'" if "Inspector_Disable e v t i = Some (u, i')"
    using that unfolding Inspector_Disable_def
    by (rule unless_dead_R) (auto split: option.splits intro: R_trans [OF calls_R(1) calls_R(2)])
  show "R i i'" if "ProfilerSetSamplingInterval n i = Some (u, i')"
    using that unfolding ProfilerSetSamplingInterval_def by (rule unless_dead_R) (auto intro: R_other)
qed

lemma paused_commands_R:
  "Inspector_StepInto e v t i = Some (u, i') \<Longrightarrow> R i i'"
  "Inspector_StepOver e v t i = Some (u, i') \<Longrightarrow> R i i'"
  "Inspector_StepOut e v t i = Some (u, i') \<Longrightarrow> R i i'"
  "Inspector_ContinueToLocation e v t f ident n i = Some (u, i') \<Longrightarrow> R i i'"
  "Inspector_RestartFrame e v t k i = Some (u, i') \<Longrightarrow> R i i'"
proof -
  show "R i i'" if "Inspector_StepInto e v t i = Some (u, i')"
    using that unfolding Inspector_StepInto_def by (rule if_paused_R) (auto split: option.splits intro: calls_R)
  show "R i i'" if "Inspector_StepOver e v t i = Some (u, i')"
    using that unfolding Inspector_StepOver_def by (rule if_paused_R) (auto split: option.splits intro: calls_R)
  show "R i i'" if "Inspector_StepOut e v t i = Some (u, i')"
    using that unfolding Inspector_StepOut_def by (rule if_paused_R) (auto intro: R_trans [OF R_other(1) calls_R(6)])
  show "R i i'" if "Inspector_ContinueToLocation e v t f ident n i = Some (u, i')"
    using that unfolding Inspector_ContinueToLocation_def by (rule if_paused_R) (auto intro: calls_R)
  show "R i i'" if "Inspector_RestartFrame e v t k i = Some (u, i')"
    using that unfolding Inspector_RestartFrame_def by (rule if_paused_R) (auto split: if_splits intro: calls_R)
qed

lemma result_commands_R:
  "GetPossibleBreakpoints f ident a b c i = Some (lines, i') \<Longrightarrow> R i i'"
  "Inspector_SetBreakpoint flt n cond i = Some (res, i') \<Longrightarrow> R i i'"
  "Inspector_GetSourceCode e f ident i = Some (code, i') \<Longrightarrow> R i i'"
  "DebuggerEnable e v i = Some (u, i') \<Longrightarrow> R i i'"
  "SetAsyncCallStackDepth k i = Some (u, i') \<Longrightarrow> R i i'"
  "ReplyNativeMethodCall e v t uc i = Some (u, i') \<Longrightarrow> R i i'"
  "ProfilerStart p i = Some (b', i') \<Longrightarrow> R i i'"
  "ProfilerStop p i = Some (pr, i') \<Longrightarrow> R i i'"
proof -
  show "R i i'" if "GetPossibleBreakpoints f ident a b c i = Some (lines, i')"
    using that unfolding GetPossibleBreakpoints_def by (rule unless_dead_R) auto
  show "R i i'" if "Inspector_SetBreakpoint flt n cond i = Some (res, i')"
    using that unfolding Inspector_SetBreakpoint_def
    by (rule unless_dead_R) (auto simp: case_prod_beta intro: R_storage)
  show "R i i'" if "Inspector_GetSourceCode e f ident i = Some (code, i')"
    using that unfolding Inspector_GetSourceCode_def by (rule unless_dead_R) auto
  show "R i i'" if enable: "DebuggerEnable e v i = Some (u, i')"
  proof (cases "each_thread (\<lambda>t. call_thread e v t DebuggableThread_Reset) (map fst (threads i)) i")
    case (Some i1)
    have "R i i1" by (rule each_thread_R [OF _ Some]) (erule calls_R(1))
    moreover have "i' = i1\<lparr>in_storage := BreakpointStorage_Reset (in_storage i1)\<rparr>"
      using enable Some by (simp add: DebuggerEnable_def)
    ultimately show ?thesis by (simp add: R_trans [OF _ R_storage(5)])
  qed (use enable in \<open>simp add: DebuggerEnable_def\<close>)
  show "R i i'" if "SetAsyncCallStackDepth k i = Some (u, i')"
    using that unfolding SetAsyncCallStackDepth_def by (auto intro: R_other)
  show "R i i'" if reply: "ReplyNativeMethodCall e v t uc i = Some (u, i')"
  proof (cases "if uc then Inspector_Continue e v t i else Some ((), i)")
    case (Some q)
    have "R i (snd q)" using Some commands_R(4) [of v t i "fst q" "snd q"] by (cases q; cases uc) auto
    moreover have "i' = (snd q)\<lparr>nativeMethodCallWaiting := False\<rparr>"
      using reply Some by (cases q) (simp add: ReplyNativeMethodCall_def)
    ultimately show ?thesis by (simp add: R_trans [OF _ R_other(4)])
  qed (use reply in \<open>simp add: ReplyNativeMethodCall_def\<close>)
  show "R i i'" if "ProfilerStart p i = Some (b', i')"
    using that unfolding ProfilerStart_def by (rule unless_dead_R) (auto split: if_splits)
  show "R i i'" if "ProfilerStop p i = Some (pr, i')"
    using that unfolding ProfilerStop_def by (rule unless_dead_R) (auto split: option.splits)
qed

lemma GetProperties_R: "Inspector_GetProperties e t k b i = Some (ps, i') \<Longrightarrow> R i i'"
  unfolding Inspector_GetProperties_def
  by (erule unless_dead_R)
    (auto split: option.splits prod.splits intro: R_thread T_properties T_trans [OF T_properties T_repository(2)])

lemma EvaluateExpression_T: "DebuggableThread_EvaluateExpression e k txt x = Some (res, x') \<Longrightarrow> T x x'"
  by (auto simp: DebuggableThread_EvaluateExpression_def split: option.splits prod.splits intro: T_evaluate)

lemma CreateExceptionDetails_R: "CreateExceptionDetails v exc i = Some (d, i') \<Longrightarrow> R i i'"
  by (auto simp: CreateExceptionDetails_def GetNewExceptionId_def split: option.splits intro: R_other)

lemma Evaluate_R: "Evaluate e v t txt k i = Some (res, i') \<Longrightarrow> R i i'"
  unfolding Evaluate_def
  by (erule unless_dead_R)
    (auto simp: Let_def split: option.splits prod.splits if_splits bool.splits intro: R_thread EvaluateExpression_T R_trans [OF R_thread CreateExceptionDetails_R])

lemma SetBreakpointByUrl_R:
  assumes "SetBreakpointByUrl e req i = Some (res, i')"
  shows "R i i'"
proof -
  have "R i (i1\<lparr>in_server := s\<rparr>)"
    if "Inspector_SetBreakpoint flt n cond i = Some (b, i1)" "AddLocations (e_js e) files line (in_server i1) = (locs, s)"
    for flt n cond b i1 files line locs s
  proof -
    have "S (in_server i1) s" using AddLocations_S [of "in_server i1" files line] that(2) by simp
    then show ?thesis by (rule R_trans [OF result_commands_R(2) [OF that(1)] R_server])
  qed
  then show ?thesis using assms
    by (auto simp: SetBreakpointByUrl_def split: option.splits prod.splits intro: result_commands_R(2))
qed

lemma set_url_breakpoints_R: "set_url_breakpoints e reqs i = Some (res, i') \<Longrightarrow> R i i'"
proof (induction reqs arbitrary: i res)
  case (Cons req reqs)
  then obtain r i1 res' where "SetBreakpointByUrl e req i = Some (r, i1)" "set_url_breakpoints e reqs i1 = Some (res', i')"
    by (auto simp: Let_def split: option.splits)
  then show ?case by (blast intro: R_trans SetBreakpointByUrl_R Cons.IH)
qed simp

lemmas all_commands_R = commands_R paused_commands_R result_commands_R GetProperties_R Evaluate_R
  SetBreakpointByUrl_R set_url_breakpoints_R

lemma reply_R:
  assumes "map_option (\<lambda>(r, i). (g r, i)) x = Some (res, i')" "\<And>r. x = Some (r, i') \<Longrightarrow> R i i'"
  shows "R i i'"
  using assms by auto

lemma evaluation_reply_R:
  assumes "evaluation_reply x = Some (res, i')" "\<And>r. x = Some (r, i') \<Longrightarrow> R i i'"
  shows "R i i'"
  using assms unfolding evaluation_reply_def by (rule reply_R)

lemma reply_handlers_R:
  "OnCallProfilerStart p sid params i = Some (res, i') \<Longrightarrow> R i i'"
  "OnCallProfilerStop p sid params i = Some (res, i') \<Longrightarrow> R i i'"
  "OnCallDebuggerSetBreakpointByUrl e sid params i = Some (res, i') \<Longrightarrow> R i i'"
  "OnCallDebuggerEvaluateOnCallFrame e v sid params i = Some (res, i') \<Longrightarrow> R i i'"
  "OnCallDebuggerCallFunctionOn e v sid params i = Some (res, i') \<Longrightarrow> R i i'"
  "OnCallRuntimeEvaluate e v sid params i = Some (res, i') \<Longrightarrow> R i i'"
proof -
  show "R i i'" if "OnCallProfilerStart p sid params i = Some (res, i')"
    using that unfolding OnCallProfilerStart_def by (rule reply_R) (rule result_commands_R(7))
  show "R i i'" if "OnCallProfilerStop p sid params i = Some (res, i')"
    using that unfolding OnCallProfilerStop_def by (rule reply_R) (rule result_commands_R(8))
  show "R i i'" if "OnCallDebuggerSetBreakpointByUrl e sid params i = Some (res, i')"
    using that unfolding OnCallDebuggerSetBreakpointByUrl_def
    by (cases "UrlBreakpointRequest_FromJson (e_js e) params") (simp_all del: map_option_eq_Some, erule reply_R, rule SetBreakpointByUrl_R)
  show "R i i'" if "OnCallDebuggerEvaluateOnCallFrame e v sid params i = Some (res, i')"
    using that unfolding OnCallDebuggerEvaluateOnCallFrame_def
    by (cases "DebuggerEvaluationRequest_FromJson (e_js e) params") (simp_all, erule evaluation_reply_R, rule Evaluate_R)
  show "R i i'" if "OnCallDebuggerCallFunctionOn e v sid params i = Some (res, i')"
    using that unfolding OnCallDebuggerCallFunctionOn_def
    by (cases "DebuggerCallFunctionOnRequest_FromJson (e_js e) params") (simp_all, erule evaluation_reply_R, rule Evaluate_R)
  show "R i i'" if "OnCallRuntimeEvaluate e v sid params i = Some (res, i')"
    using that unfolding OnCallRuntimeEvaluate_def
    by (auto split: option.split_asm if_split_asm elim!: evaluation_reply_R intro: Evaluate_R)
qed

lemma respects_table: "list_all (\<lambda>(m, h). \<forall>sid params i res i'. h sid params i = Some (res, i') \<longrightarrow> R i i') (method_table e v p)"
  unfolding method_table_def list.pred_inject prod.case
  by (intro conjI allI impI TrueI;
      (erule reply_handlers_R | auto simp: handler_defs split: option.split_asm sum.split_asm if_split_asm prod.split_asm
        intro: all_commands_R))

lemma handlers_R:
  assumes "(m, h) \<in> set (method_table e v p)" "h sid params i = Some (res, i')"
  shows "R i i'"
  using respects_table [of v p] assms by (fastforce simp: list_all_iff)

end

section \<open>What a command sends and what it keeps\<close>

text \<open>An event is a call without an id.\<close>

fun event :: "('j, 'msg) json_ops \<Rightarrow> string \<times> string \<times> props \<Rightarrow> 'msg" where
  "event js (sid, m, ps) = js_build js (call_props sid None m ps)"

definition sends_events :: "('j, 'msg) json_ops \<Rightarrow> 'msg inspector_server \<Rightarrow> 'msg inspector_server \<Rightarrow> bool" where
  "sends_events js s s' \<longleftrightarrow> sv_connected s' = sv_connected s \<and> sv_syncMode s' = sv_syncMode s \<and>
     sv_syncResponse s' = sv_syncResponse s \<and> (\<exists>events. sv_sent s' = sv_sent s @ map (event js) events)"

lemma sends_events_trans: "sends_events js s s' \<Longrightarrow> sends_events js s' s'' \<Longrightarrow> sends_events js s s''"
  unfolding sends_events_def by (metis append_assoc map_append)

lemma Server_Call_fields [simp]:
  "sv_sessions (Server_Call js sid m ps s) = sv_sessions s" "sv_connected (Server_Call js sid m ps s) = sv_connected s"
  "sv_syncMode (Server_Call js sid m ps s) = sv_syncMode s" "sv_syncResponse (Server_Call js sid m ps s) = sv_syncResponse s"
  "sv_sent (Server_Call js sid m ps s) =
     (if sv_connected s \<and> \<not> sv_syncMode s then sv_sent s @ [event js (sid, m, ps)] else sv_sent s)"
  by (simp_all add: Server_Call_def ServerEndpointBase_Call_def EndpointBase_Call_def SendMessage_def)

lemma sends_events_call: "sends_events js s (Server_Call js sid m ps s)"
proof -
  have "\<exists>events. sv_sent (Server_Call js sid m ps s) = sv_sent s @ map (event js) events"
    by (rule exI [of _ "if sv_connected s \<and> \<not> sv_syncMode s then [(sid, m, ps)] else []"]) simp
  then show ?thesis by (simp add: sends_events_def)
qed

lemma sends_nothing:
  "sv_connected s' = sv_connected s \<Longrightarrow> sv_syncMode s' = sv_syncMode s \<Longrightarrow> sv_syncResponse s' = sv_syncResponse s \<Longrightarrow>
   sv_sent s' = sv_sent s \<Longrightarrow> sends_events js s s'"
  unfolding sends_events_def by (intro conjI exI [of _ "[]"]) simp_all

interpretation sent: inspector_relation e "sends_events (e_js e)" "\<lambda>_ _. True" "\<lambda>i i'. sends_events (e_js e) (in_server i) (in_server i')"
  for e :: "('w, 'm, 'j, 'msg) env"
proof unfold_locales
  fix s s' s'' :: "'msg inspector_server" and i i' i'' :: "('w, 'm, 'msg) inspector" and t x st h cs n b w src tid sid m ps
  let ?js = "e_js e"
  show "sends_events ?js s s' \<Longrightarrow> sends_events ?js s' s'' \<Longrightarrow> sends_events ?js s s''"
    by (rule sends_events_trans)
  show "sends_events ?js (in_server i) (in_server i') \<Longrightarrow> sends_events ?js (in_server i') (in_server i'') \<Longrightarrow>
      sends_events ?js (in_server i) (in_server i'')" by (rule sends_events_trans)
  show "sends_events ?js s (Server_Call ?js sid m ps s)" by (rule sends_events_call)
qed (simp_all add: sends_nothing Server_Kill_def put_thread_def PauseOtherThreads_def)

text \<open>The threads there are, the debug information, the sources that were entered and the sessions
  are none of a command's business.\<close>

definition keeps :: "('w, 'm, 'msg) inspector \<Rightarrow> ('w, 'm, 'msg) inspector \<Rightarrow> bool" where
  "keeps i i' \<longleftrightarrow> map fst (threads i') = map fst (threads i) \<and> debugInfoCache i' = debugInfoCache i \<and>
     sourceFiles i' = sourceFiles i \<and> isVmDead i' = isVmDead i \<and> in_failed i' = in_failed i \<and>
     sv_sessions (in_server i') = sv_sessions (in_server i)"

lemma update_keys: "map_of xs k \<noteq> None \<Longrightarrow> map fst (AList.update k v xs) = map fst xs"
  by (induction xs) auto

definition same_sessions :: "'msg inspector_server \<Rightarrow> 'msg inspector_server \<Rightarrow> bool" where
  "same_sessions s s' \<longleftrightarrow> sv_sessions s' = sv_sessions s"

interpretation kept: inspector_relation e same_sessions "\<lambda>_ _. True" keeps
  for e :: "('w, 'm, 'j, 'msg) env"
  by unfold_locales (auto simp: keeps_def same_sessions_def Server_Kill_def put_thread_def PauseOtherThreads_def GetDebuggableThread_def
      update_keys case_prod_beta comp_def)

end
