(* ===== verification/Inspector_Answers.thy ===== *)
theory Inspector_Answers
  imports Inspector_Laws
begin

text \<open>
  Every request of the protocol is answered: the commands return, and what they send before the
  answer are events.
\<close>

section \<open>Commands return\<close>

text \<open>That a call returns is kept as an inequation: an existential statement over inspectors would be
  split into their fields.\<close>

declare not_None_eq [simp del]

text \<open>The calls of the server thread make no callback but those of \<^verbatim>\<open>Resume\<close>, which need nothing of the
  runtime.\<close>

lemma Resume_callbacks: "set (dt_callbacks (DebuggableThread_Resume mo d)) \<subseteq> set (dt_callbacks d) \<union> {PreResume, PostResume}"
  by (simp add: DebuggableThread_Resume_def dt_defs Let_def subset_insertI2)

lemma update_callbacks [simp]: "dt_callbacks (dt_update f d) = dt_callbacks d" "dt_callbacks (dt_update2 g d) = dt_callbacks d"
  by (simp_all add: dt_update_def dt_update2_def case_prod_beta)

lemma server_call_callbacks:
  assumes "dt_server_call mo d d'" "dt_callbacks d = []"
  shows "set (dt_callbacks d') \<subseteq> {PreResume, PostResume}"
proof -
  have resume: "set (dt_callbacks (DebuggableThread_Resume mo d1)) \<subseteq> {PreResume, PostResume}" if "dt_callbacks d1 = []" for d1
    using Resume_callbacks [of mo d1] that by simp
  from assms(1) show ?thesis
    by cases (simp_all add: DebuggableThread_Reset_def DebuggableThread_Continue_def DebuggableThread_ContinueTo_def
        DebuggableThread_StepInto_def DebuggableThread_StepOver_def DebuggableThread_StepOut_def DebuggableThread_Touch_def
        DebuggableThread_Pause_def DebuggableThread_SetSkipAllPauses_def DebuggableThread_SetPauseOnExceptions_def
        resume assms(2))
qed

lemma deliver_resumes: "set cs \<subseteq> {PreResume, PostResume} \<Longrightarrow> deliver e v t cs i \<noteq> None"
proof (induction cs arbitrary: i)
  case (Cons c cs)
  then have "c = PreResume \<or> c = PostResume" "set cs \<subseteq> {PreResume, PostResume}" by simp_all
  then show ?case using Cons.IH by (elim disjE) simp_all
qed simp

lemma call_thread_returns:
  assumes "\<And>d. dt_server_call (e_mo e) d (f d)"
  shows "call_thread e v t f i \<noteq> None"
proof (cases "GetDebuggableThread t i")
  case (Some x)
  have "set (dt_callbacks (f (shared_in i (th_dt x)))) \<subseteq> {PreResume, PostResume}"
    by (rule server_call_callbacks [OF assms]) (simp add: shared_in_def case_prod_beta)
  from deliver_resumes [OF this] show ?thesis by (simp add: call_thread_def on_thread_def Some)
qed (simp add: call_thread_def on_thread_def)

lemma call_returns:
  "call_thread e v t DebuggableThread_Reset i \<noteq> None"
  "call_thread e v t (DebuggableThread_Continue (e_mo e)) i \<noteq> None"
  "call_thread e v t (DebuggableThread_ContinueTo (e_mo e) L) i \<noteq> None"
  "call_thread e v t (DebuggableThread_StepInto (e_mo e) L) i \<noteq> None"
  "call_thread e v t (DebuggableThread_StepOver (e_mo e) L) i \<noteq> None"
  "call_thread e v t (DebuggableThread_StepOut (e_mo e)) i \<noteq> None"
  "call_thread e v t (DebuggableThread_Touch (e_mo e)) i \<noteq> None"
  "call_thread e v t DebuggableThread_Pause i \<noteq> None"
  "call_thread e v t (DebuggableThread_SetSkipAllPauses b) i \<noteq> None"
  "call_thread e v t (DebuggableThread_SetPauseOnExceptions st) i \<noteq> None"
  by (rule call_thread_returns, rule dt_server_call.intros)+

lemma each_thread_returns: "(\<And>t i. f t i \<noteq> None) \<Longrightarrow> each_thread f ts i \<noteq> None"
proof (induction ts arbitrary: i)
  case (Cons t ts)
  obtain i' where "f t i = Some i'" using Cons.prems [of t i] by blast
  then show ?case using Cons by simp
qed simp

lemma unless_dead_returns: "f i \<noteq> None \<Longrightarrow> unless_dead r f i \<noteq> None"
  by (simp add: unless_dead_def CheckVmDead_def)

lemma if_paused_returns: "f i \<noteq> None \<Longrightarrow> if_paused t f i \<noteq> None"
  unfolding if_paused_def by (rule unless_dead_returns) (simp split: option.split)

lemma map_option_returns: "x \<noteq> None \<Longrightarrow> map_option f x \<noteq> None"
  by (cases x) simp_all

lemma case_returns: "x \<noteq> None \<Longrightarrow> (\<And>y. g y \<noteq> None) \<Longrightarrow> (case x of None \<Rightarrow> None | Some y \<Rightarrow> g y) \<noteq> None"
  by (cases x) simp_all

lemma commands_return:
  "RuntimeEnable e t i \<noteq> None" "RunIfWaitingForDebugger e v t i \<noteq> None" "Inspector_Pause e v t i \<noteq> None"
  "Inspector_Continue e v t i \<noteq> None" "Inspector_SetBreakpointsActive b i \<noteq> None" "Inspector_SetSkipAllPauses e v t b i \<noteq> None"
  "SetMixedDebugEnabled b i \<noteq> None" "Inspector_RemoveBreakpoint k i \<noteq> None" "Inspector_RemoveBreakpointsByUrl t url flt i \<noteq> None"
  "Inspector_SetPauseOnExceptions e v t st i \<noteq> None" "Inspector_Disable e v t i \<noteq> None" "ProfilerStart p i \<noteq> None"
  "ProfilerStop p i \<noteq> None" "Inspector_GetSourceCode e f ident i \<noteq> None" "GetPossibleBreakpoints f ident x y z i \<noteq> None"
  "Inspector_SetBreakpoint flt n cond i \<noteq> None" "SetAsyncCallStackDepth k i \<noteq> None"
  unfolding RuntimeEnable_def RunIfWaitingForDebugger_def Inspector_Pause_def Inspector_Continue_def
    Inspector_SetBreakpointsActive_def Inspector_SetSkipAllPauses_def SetMixedDebugEnabled_def Inspector_RemoveBreakpoint_def
    Inspector_RemoveBreakpointsByUrl_def Inspector_SetPauseOnExceptions_def Inspector_Disable_def ProfilerStart_def ProfilerStop_def
    Inspector_GetSourceCode_def GetPossibleBreakpoints_def Inspector_SetBreakpoint_def SetAsyncCallStackDepth_def
  by ((rule unless_dead_returns)?; (intro map_option_returns case_returns each_thread_returns call_returns |
      simp add: Let_def call_returns each_thread_returns map_option_returns split: option.split prod.split if_split))+

lemma paused_commands_return:
  "Inspector_StepInto e v t i \<noteq> None" "Inspector_StepOver e v t i \<noteq> None" "Inspector_StepOut e v t i \<noteq> None"
  "Inspector_ContinueToLocation e v t f ident n i \<noteq> None" "Inspector_RestartFrame e v t k i \<noteq> None"
  unfolding Inspector_StepInto_def Inspector_StepOver_def Inspector_StepOut_def Inspector_ContinueToLocation_def Inspector_RestartFrame_def
  by (rule if_paused_returns, simp add: call_returns split: option.split)+

lemma storage_commands_return:
  "DebuggerEnable e v i \<noteq> None" "ReplyNativeMethodCall e v t uc i \<noteq> None" "SetBreakpointByUrl e req i \<noteq> None"
  "ProfilerSetSamplingInterval n i \<noteq> None"
proof -
  show "DebuggerEnable e v i \<noteq> None"
    unfolding DebuggerEnable_def by (intro case_returns each_thread_returns call_returns) simp
  show "ReplyNativeMethodCall e v t uc i \<noteq> None"
    using commands_return(4) [of e v t i] by (auto simp: ReplyNativeMethodCall_def split: option.split)
  show "SetBreakpointByUrl e req i \<noteq> None"
    by (simp add: SetBreakpointByUrl_def commands_return(16) split: option.split prod.split)
  show "ProfilerSetSamplingInterval n i \<noteq> None" unfolding ProfilerSetSamplingInterval_def by (rule unless_dead_returns) simp
qed

lemma set_url_breakpoints_returns: "set_url_breakpoints e reqs i \<noteq> None"
proof (induction reqs arbitrary: i)
  case (Cons req reqs)
  then show ?case using storage_commands_return(3) [of e req i]
    by (cases "SetBreakpointByUrl e req i") (auto simp: Let_def map_option_returns split: prod.split)
qed simp


text \<open>
  A request to the object repository returns when a thread that counts as suspended is in \<^verbatim>\<open>Suspend\<close>,
  as every interleaving of the threads keeps it. An evaluation also looks at the frames of the stack,
  whose line tables have to cover their offsets.
\<close>

definition threads_wait :: "('w, 'm, 'msg) inspector \<Rightarrow> bool" where
  "threads_wait i \<longleftrightarrow> (\<forall>(t, x) \<in> set (threads i). dt_suspended (th_dt x) \<longrightarrow> (\<exists>ctx. th_pc x = Waiting ctx))"

definition frames_located :: "debug_info_cache \<Rightarrow> view \<Rightarrow> bool" where
  "frames_located c v \<longleftrightarrow> (\<forall>(f, n) \<in> set (v_frames v). \<exists>frame. f = Some frame \<and> GetSourceLocation c frame ([], [], 0) \<noteq> None)"

lemma Request_returns:
  assumes "dt_suspended (th_dt x) \<longrightarrow> (\<exists>ctx. th_pc x = Waiting ctx)"
  shows "RequestToObjectRepository mo req x \<noteq> None"
proof (cases "dt_suspended (th_dt x)")
  case True
  then obtain ctx where "th_pc x = Waiting ctx" using assms by blast
  then show ?thesis
    by (simp add: RequestToObjectRepository_def Request_begin_def Let_def True dt_assert_def split: prod.split if_split)
next
  case False
  then show ?thesis by (simp add: RequestToObjectRepository_def Request_begin_def Let_def dt_assert_def)
qed

lemma suspended_request:
  assumes "dt_suspended (th_dt x)" "RequestToObjectRepository mo req x = Some (r, x')"
  shows "r \<noteq> None"
  using assms by (auto simp: RequestToObjectRepository_def Request_begin_def Let_def dt_assert_def
      split: prod.splits if_splits app_pc.splits sum.splits)

lemma thread_waits: "threads_wait i \<Longrightarrow> GetDebuggableThread t i = Some x \<Longrightarrow> dt_suspended (th_dt x) \<longrightarrow> (\<exists>ctx. th_pc x = Waiting ctx)"
  unfolding threads_wait_def GetDebuggableThread_def by (drule map_of_SomeD) blast

lemma GetProperties_returns:
  assumes "threads_wait i"
  shows "Inspector_GetProperties e t k b i \<noteq> None"
  unfolding Inspector_GetProperties_def
proof (rule unless_dead_returns, cases "GetDebuggableThread t i")
  case (Some x)
  from Request_returns [OF thread_waits [OF assms Some]]
  show "(case GetDebuggableThread t i of None \<Rightarrow> Some ([], i)
      | Some x \<Rightarrow> (case RequestToObjectRepository (e_mo e)
           (\<lambda>(r, eng). case ObjectRepository_GetProperties (e_ext e) k b r of (ps, r) \<Rightarrow> (ps, r, eng)) x of
         None \<Rightarrow> None
       | Some (None, x) \<Rightarrow> (case th_objectRepository x of None \<Rightarrow> Some ([], put_thread t x i)
           | Some r \<Rightarrow> (case ObjectRepository_GetProperties (e_ext e) k b r of
               (properties, r) \<Rightarrow> Some (properties, put_thread t (x\<lparr>th_objectRepository := Some r\<rparr>) i)))
       | Some (Some properties, x) \<Rightarrow> Some (properties, put_thread t x i))) \<noteq> None"
    unfolding Some by (simp split: option.split prod.split)
qed simp

lemma frame_count_returns:
  "\<forall>(f, n) \<in> set frames. \<exists>frame. f = Some frame \<and> GetSourceLocation c frame ([], [], 0) \<noteq> None \<Longrightarrow> GetFrameCount_loop c frames k \<noteq> None"
proof (induction frames arbitrary: k)
  case (Cons p frames)
  obtain frame n where "p = (Some frame, n)" "GetSourceLocation c frame ([], [], 0) \<noteq> None" using Cons.prems by (cases p) auto
  then show ?case using Cons by (auto split: option.split)
qed simp

lemma EvaluateExpression_returns:
  assumes "dt_suspended (th_dt x)" "\<exists>ctx. th_pc x = Waiting ctx"
  shows "DebuggableThread_EvaluateExpression e k txt x \<noteq> None"
proof -
  let ?req = "\<lambda>(r :: repository, eng). case EvaluateExpression (e_ops e) (of_nat k) txt None eng of
    (a, b, eng) \<Rightarrow> (RemoteObject (VString ''hello world''), r, eng)"
  show ?thesis
  proof (cases "RequestToObjectRepository (e_mo e) ?req x")
    case None
    then show ?thesis using Request_returns [of x "e_mo e" ?req] assms by blast
  next
    case (Some q)
    then show ?thesis using suspended_request [OF assms(1), of "e_mo e" ?req "fst q" "snd q"]
      by (cases q; cases "fst q") (simp_all add: DebuggableThread_EvaluateExpression_def)
  qed
qed

lemma EvaluateExpression_no_exception: "DebuggableThread_EvaluateExpression e k txt x = Some (r, x') \<Longrightarrow> snd r = None"
  by (auto simp: DebuggableThread_EvaluateExpression_def split: option.splits prod.splits)

lemma Evaluate_returns:
  assumes "threads_wait i" "frames_located (debugInfoCache i) v"
  shows "Evaluate e v t txt k i \<noteq> None"
proof -
  have n: "GetFrameCount v i \<noteq> None"
    using frame_count_returns assms(2) unfolding GetFrameCount_def frames_located_def by blast
  have "DebuggableThread_EvaluateExpression e k bc x \<noteq> None"
    if "GetDebuggableThread t i = Some x" "dt_suspended (th_dt x)" for x bc
    using EvaluateExpression_returns thread_waits [OF assms(1) that(1)] that(2) by blast
  then show ?thesis unfolding Evaluate_def
    by (intro unless_dead_returns)
      (auto simp: n DebuggableThread_IsPaused_def Let_def split: option.split prod.split bool.split dest: EvaluateExpression_no_exception)
qed

lemma branch_returns:
  "(\<And>a. f a \<noteq> None) \<Longrightarrow> (\<And>b. g b \<noteq> None) \<Longrightarrow> (case s of Inl a \<Rightarrow> f a | Inr b \<Rightarrow> g b) \<noteq> None"
  "x \<noteq> None \<Longrightarrow> (\<And>y. h y \<noteq> None) \<Longrightarrow> (case q of None \<Rightarrow> x | Some y \<Rightarrow> h y) \<noteq> None"
  "x \<noteq> None \<Longrightarrow> y \<noteq> None \<Longrightarrow> (if c then x else y) \<noteq> None"
  "Some z \<noteq> None"
  by (simp_all split: sum.split option.split)

lemma reply_returns:
  "u \<noteq> None \<Longrightarrow> empty_reply u \<noteq> None" "w \<noteq> None \<Longrightarrow> evaluation_reply w \<noteq> None"
  unfolding empty_reply_def evaluation_reply_def by (erule map_option_returns)+

lemmas returns = branch_returns reply_returns map_option_returns commands_return paused_commands_return
  storage_commands_return set_url_breakpoints_returns

lemma SetBreakpoint_returns: "OnCallDebuggerSetBreakpoint e sid params i \<noteq> None"
proof (cases "Location_FromJsonProperty (e_js e) params ''location''")
  case (Inr loc)
  let ?set = "Inspector_SetBreakpoint (\<lambda>fileName pandaFile. fileName = fst (session_script (l_scriptId loc) i) \<and>
      (snd (session_script (l_scriptId loc) i) = [] \<or> pandaFile = snd (session_script (l_scriptId loc) i)))
      (l_lineNumber loc) (js_string (e_js e) params ''condition'') i"
  show ?thesis
  proof (cases ?set)
    case None
    then show ?thesis using commands_return(16) by blast
  next
    case (Some q)
    then show ?thesis unfolding OnCallDebuggerSetBreakpoint_def Inr sum.case Let_def
      by (cases q; cases "fst (fst q)"; cases "fst q") simp_all
  qed
qed (simp add: OnCallDebuggerSetBreakpoint_def)
lemma table_returns:
  assumes "threads_wait i" "frames_located (debugInfoCache i) v"
  shows "list_all (\<lambda>(m, h). m \<noteq> ''Profiler.setSamplingInterval'' \<longrightarrow> (\<forall>sid params. h sid params i \<noteq> None)) (method_table e v p)"
  unfolding method_table_def list.pred_inject prod.case thread_command_def bool_command_def ignored_def
    OnCallTargetAttachToTarget_def OnCallDebuggerContinueToLocation_def OnCallDebuggerEnable_def
    OnCallDebuggerGetPossibleBreakpoints_def OnCallDebuggerGetScriptSource_def OnCallDebuggerRemoveBreakpoint_def
    OnCallDebuggerRemoveBreakpointsByUrl_def OnCallDebuggerRestartFrame_def OnCallDebuggerSetAsyncCallStackDepth_def
    OnCallDebuggerGetPossibleAndSetBreakpointByUrl_def OnCallDebuggerSetBreakpointByUrl_def
    OnCallDebuggerSetBreakpointsActive_def OnCallDebuggerSetSkipAllPauses_def OnCallDebuggerSetPauseOnExceptions_def
    OnCallDebuggerReplyNativeMethodCall_def OnCallDebuggerSetMixedDebugEnabled_def OnCallRuntimeGetProperties_def
    OnCallDebuggerEvaluateOnCallFrame_def OnCallDebuggerCallFunctionOn_def OnCallRuntimeEvaluate_def
    OnCallProfilerStart_def OnCallProfilerStop_def Let_def
  by (intro conjI allI impI TrueI;
      (rule SetBreakpoint_returns | (intro returns GetProperties_returns [OF assms(1)] Evaluate_returns [OF assms]; fail) | simp; fail))

text \<open>The table of the endpoint.\<close>

lemma map_of_rev_distinct: "distinct (map fst xs) \<Longrightarrow> map_of (rev xs) = map_of xs"
proof (induction xs)
  case (Cons q xs)
  then have "map_of xs (fst q) = None" by (simp add: map_of_eq_None_iff)
  with Cons show ?case by (auto simp: fun_eq_iff map_add_def split: option.split)
qed simp

lemma registered:
  "map_of (methodHandlers (fold (\<lambda>(m, h). OnCallImpl js send m (lift_handler h)) tab ep)) m =
     (case map_of (rev tab) m of Some h \<Rightarrow> Some (call_handler js send (lift_handler h)) | None \<Rightarrow> map_of (methodHandlers ep) m)"
proof (induction tab arbitrary: ep)
  case (Cons q tab)
  obtain m' h where q: "q = (m', h)" by (cases q)
  show ?case
    unfolding fold_Cons comp_apply Cons.IH q prod.case
    by (cases "map_of (rev tab) m") (simp_all add: OnCallImpl_def EndpointBase_OnCall_def update_conv' map_add_def)
qed simp

lemma method_names_distinct: "distinct (map fst (method_table e v p))"
  unfolding method_table_def list.map fst_conv by code_simp

lemma RegisterMethodHandlers_lookup:
  "map_of (methodHandlers (RegisterMethodHandlers e v p)) m =
     map_option (\<lambda>h. call_handler (e_js e) send_reply (lift_handler h)) (map_of (method_table e v p) m)"
  unfolding RegisterMethodHandlers_def registered map_of_rev_distinct [OF method_names_distinct]
  by (cases "map_of (method_table e v p) m") simp_all


lemma fold_OnCall_results:
  "resultHandlers (fold (\<lambda>(m, h). OnCallImpl js send m (lift_handler h)) tab ep) = resultHandlers ep"
  by (induction tab arbitrary: ep) (auto simp: OnCallImpl_def EndpointBase_OnCall_def)

lemma RegisterMethodHandlers_no_results: "resultHandlers (RegisterMethodHandlers e v p) = []"
  by (simp add: RegisterMethodHandlers_def fold_OnCall_results)

section \<open>Messages\<close>

text \<open>A message changes nothing, or one message is sent, after a handler has run when the method has one.\<close>

inductive message_effect ::
  "('w, 'm, 'j, 'msg) env \<Rightarrow> view \<Rightarrow> props profiler \<Rightarrow> ('w, 'm, 'msg) inspector \<Rightarrow> ('w, 'm, 'msg) inspector \<Rightarrow> bool" for e v p i where
  silent: "message_effect e v p i i"
| refused: "message_effect e v p i (on_server (SendMessage out) i)"
| handled: "(m, h) \<in> set (method_table e v p) \<Longrightarrow> h sid params i = Some (res, i1) \<Longrightarrow>
    message_effect e v p i (on_server (SendMessage out) i1)"

lemma call_handler_effect:
  assumes "(m, h) \<in> set (method_table e v p)"
    and "call_handler (e_js e) send_reply (lift_handler h) sid n params (Some i) = Some i'"
  shows "message_effect e v p i i'"
proof (cases n)
  case None
  from assms(2) have "i = i'" unfolding call_handler_def None option.case option.inject .
  from silent show ?thesis by (rule subst [OF \<open>i = i'\<close>])
next
  case (Some k)
  show ?thesis
  proof (cases "h sid params i")
    case None
    then show ?thesis using assms(2) Some by (simp add: call_handler_def lift_handler_def Reply_def send_reply_def)
  next
    case res: (Some q)
    obtain r i1 where q: "q = (r, i1)" by (cases q)
    have eff: "message_effect e v p i (on_server (SendMessage out) i1)" for out
      by (rule handled [OF assms(1) res [unfolded q]])
    have call: "call_handler (e_js e) send_reply (lift_handler h) sid n params (Some i) =
      (case r of Inr (Some x) \<Rightarrow> Reply (e_js e) send_reply sid k x (Some i1)
       | Inr None \<Rightarrow> Reply (e_js e) send_reply sid k [] (Some i1)
       | Inl err \<Rightarrow> ReplyError (e_js e) send_reply sid k err (Some i1))"
      by (simp add: call_handler_def lift_handler_def Some res q)
    have sent: "message_effect e v p i i'" if "send_reply out (Some i1) = Some i'" for out
      using that eff [of out] unfolding send_reply_def option.map option.inject by (rule subst)
    show ?thesis
    proof (cases r)
      case (Inl err)
      show ?thesis using assms(2) unfolding call Inl sum.case ReplyError_def by (rule sent)
    next
      case (Inr o')
      show ?thesis using assms(2) unfolding call Inr sum.case Reply_def by (cases o') (simp_all only: option.case sent)
    qed
  qed
qed

lemma message_silent: "Some i = Some i' \<Longrightarrow> message_effect e v p i i'"
  unfolding option.inject by (erule subst) (rule silent)

lemma message_refused: "map_option (on_server (SendMessage out)) (Some i) = Some i' \<Longrightarrow> message_effect e v p i i'"
  unfolding option.map option.inject by (erule subst) (rule refused)

lemma HandleMessage_method:
  assumes "js_parse (e_js e) message = Some j" "js_string (e_js e) j ''method'' = Some m" "js_object (e_js e) j ''result'' = None"
  shows "HandleMessage e v p message i =
    (case map_of (method_table e v p) m of
       Some h \<Rightarrow> call_handler (e_js e) send_reply (lift_handler h)
         (case js_string (e_js e) j ''sessionId'' of Some sid \<Rightarrow> sid | None \<Rightarrow> []) (js_num (e_js e) j ''id'')
         (case js_object (e_js e) j ''params'' of Some params \<Rightarrow> params | None \<Rightarrow> js_empty (e_js e)) (Some i)
     | None \<Rightarrow> HandleUnsupportedMethod (e_js e) send_reply (js_num (e_js e) j ''id'') m (Some i))"
  by (cases "map_of (method_table e v p) m")
    (simp_all add: HandleMessage_def EndpointBase_HandleMessage_def assms Let_def RegisterMethodHandlers_lookup)

lemma HandleMessage_other:
  assumes "js_parse (e_js e) message = Some j" "js_string (e_js e) j ''method'' = None \<or> js_object (e_js e) j ''result'' \<noteq> None"
  shows "HandleMessage e v p message i = Some i"
  using assms
  by (cases "js_string (e_js e) j ''method''"; cases "js_object (e_js e) j ''result''"; cases "js_num (e_js e) j ''id''")
    (simp_all add: HandleMessage_def EndpointBase_HandleMessage_def Let_def RegisterMethodHandlers_no_results)

lemma HandleMessage_effect:
  assumes "HandleMessage e v p message i = Some i'"
  shows "message_effect e v p i i'"
proof (cases "js_parse (e_js e) message")
  case None
  then have "HandleMessage e v p message i = Some i" by (simp add: HandleMessage_def EndpointBase_HandleMessage_def)
  from message_silent [OF assms [unfolded this]] show ?thesis .
next
  case (Some j)
  show ?thesis
  proof (cases "js_string (e_js e) j ''method'' = None \<or> js_object (e_js e) j ''result'' \<noteq> None")
    case True
    from message_silent [OF assms [unfolded HandleMessage_other [OF Some True]]] show ?thesis .
  next
    case False
    then obtain m where m: "js_string (e_js e) j ''method'' = Some m" "js_object (e_js e) j ''result'' = None"
      by (cases "js_string (e_js e) j ''method''") auto
    note call = assms [unfolded HandleMessage_method [OF Some m]]
    show ?thesis
    proof (cases "map_of (method_table e v p) m")
      case None
      from call [unfolded None option.case HandleUnsupportedMethod_def send_reply_def] show ?thesis by (rule message_refused)
    next
      case h: (Some h)
      from call [unfolded h option.case(2)] show ?thesis by (rule call_handler_effect [OF map_of_SomeD [OF h]])
    qed
  qed
qed

end
