(* ===== verification/Inspector_Runs.thy ===== *)
theory Inspector_Runs
  imports Inspector_Answers
begin

text \<open>
  Runs of the inspector: any sequence of the runtime's hooks, each on the thread it is about, and of
  the client's messages. Each debugged thread of a run is a thread of the interleavings of
  \<open>Debuggable_Thread\<close>, seen between the server's calls, and the sessions are those of the live threads.
\<close>

section \<open>A debugged thread between two messages\<close>

definition of_debugged :: "('w, 'm) debugged \<Rightarrow> ('w, 'm) system" where
  "of_debugged x = \<lparr>sy_app = th_pc x, sy_server = Idle, sy_thread = th_dt x, sy_next = length (dt_done (th_dt x)),
     sy_results = map (\<lambda>k. (k, True)) (dt_done (th_dt x))\<rparr>"

definition debugged_ok :: "'m managed_ops \<Rightarrow> ('w, 'm) debugged \<Rightarrow> bool" where
  "debugged_ok mo x \<longleftrightarrow> sys_ok mo (of_debugged x) \<and> (\<forall>ctx. th_pc x \<noteq> Woken ctx)"

text \<open>The shared parts of the state and the pending callbacks do not matter.\<close>

definition same_thread :: "('w, 'm) dthread \<Rightarrow> ('w, 'm) dthread \<Rightarrow> bool" where
  "same_thread d d' \<longleftrightarrow> dt_ts d' = dt_ts d \<and> dt_suspended d' = dt_suspended d \<and> dt_request d' = dt_request d \<and>
     dt_managed d' = dt_managed d \<and> dt_done d' = dt_done d \<and> dt_failed d' = dt_failed d"

lemma sys_ok_same:
  assumes "same_thread (sy_thread y) d" "sys_ok mo y"
  shows "sys_ok mo (y\<lparr>sy_thread := d\<rparr>)"
proof -
  have "app_ok (sy_app y) d = app_ok (sy_app y) (sy_thread y)" "server_ok (sy_server y) d = server_ok (sy_server y) (sy_thread y)"
    using assms(1) by (cases "sy_app y"; cases "sy_server y"; simp add: same_thread_def)+
  then show ?thesis using assms
    by (cases "sy_server y") (simp_all add: sys_ok_def thread_ok_def managed_rel_def requests_ok_def same_thread_def)
qed

lemma same_shared: "same_thread d (shared_in i d)"
  by (simp add: same_thread_def shared_in_def case_prod_beta)

lemma same_callbacks: "same_thread d (d\<lparr>dt_callbacks := cs\<rparr>)"
  by (simp add: same_thread_def)

text \<open>A system that has answered its requests is that of its thread.\<close>

lemma debugged_ok_of:
  assumes "sys_ok mo y" "sy_server y = Idle" "sy_results y = map (\<lambda>k. (k, True)) ds" "\<forall>ctx. sy_app y \<noteq> Woken ctx"
    and "th_pc x = sy_app y" "same_thread (sy_thread y) (th_dt x)"
  shows "debugged_ok mo x"
proof -
  have "filter snd (map (\<lambda>k. (k, True)) ds) = map (\<lambda>k. (k, True)) ds" by (induction ds) simp_all
  then have ds: "dt_done (sy_thread y) = ds" "ds = [0..<sy_next y]"
    using assms(1-3) by (simp_all add: sys_ok_def requests_ok_def comp_def)
  have "of_debugged x = y\<lparr>sy_thread := th_dt x\<rparr>"
    using assms(2,3,5,6) ds by (cases y) (simp add: of_debugged_def same_thread_def)
  then show ?thesis using sys_ok_same [OF assms(6,1)] assms(4,5) by (simp add: debugged_ok_def)
qed

lemma debugged_call_ok:
  assumes "managed_ok mo" "debugged_ok mo x" "same_thread (th_dt x) d0" "dt_server_call mo d0 d" "same_thread d d'"
  shows "debugged_ok mo (x\<lparr>th_dt := d'\<rparr>)"
proof -
  let ?y = "(of_debugged x)\<lparr>sy_thread := d0\<rparr>"
  have y: "sys_ok mo ?y" by (rule sys_ok_same) (use assms(2,3) in \<open>simp_all add: of_debugged_def debugged_ok_def\<close>)
  have "sys_ok mo (?y\<lparr>sy_thread := d\<rparr>)"
    by (rule dt_server_step_ok [OF assms(1) y dt_server_step.calls]) (use assms(4) in \<open>simp_all add: of_debugged_def\<close>)
  then show ?thesis
    by (rule debugged_ok_of [where ds = "dt_done (th_dt x)"])
      (use assms(2,5) in \<open>simp_all add: of_debugged_def debugged_ok_def\<close>)
qed

lemma debugged_app_ok:
  assumes "managed_ok mo" "debugged_ok mo x"
    and "app_step ops mo ((of_debugged x)\<lparr>sy_thread := shared_in i (th_dt x)\<rparr>)
      ((of_debugged x)\<lparr>sy_thread := shared_in i (th_dt x), sy_app := pc, sy_thread := d\<rparr>)"
    and "\<forall>ctx. pc \<noteq> Woken ctx"
  shows "debugged_ok mo (x\<lparr>th_pc := pc, th_dt := d\<lparr>dt_callbacks := []\<rparr>\<rparr>)"
proof -
  have "sys_ok mo ((of_debugged x)\<lparr>sy_thread := shared_in i (th_dt x)\<rparr>)"
    by (rule sys_ok_same) (use assms(2) same_shared in \<open>simp_all add: of_debugged_def debugged_ok_def\<close>)
  from app_step_ok [OF assms(1) this assms(3)] show ?thesis
    by (rule debugged_ok_of [where ds = "dt_done (th_dt x)"])
      (use assms(4) same_callbacks in \<open>simp_all add: of_debugged_def\<close>)
qed

text \<open>A request through the paused thread: the server asks, the thread wakes, runs it and waits again,
  and the server finds it done.\<close>

lemma debugged_request_begins:
  assumes "managed_ok mo" "debugged_ok mo x" "Request_begin mo (length (dt_done (th_dt x))) (th_dt x) = (Inr u, d)"
    "th_pc x = Waiting ctx" "same_thread d d'"
  shows "sys_ok mo ((of_debugged x)\<lparr>sy_next := Suc (length (dt_done (th_dt x))),
    sy_server := Awaiting (length (dt_done (th_dt x))), sy_app := Woken ctx, sy_thread := d'\<rparr>)"
proof -
  let ?n = "length (dt_done (th_dt x))"
  let ?y = "(of_debugged x)\<lparr>sy_thread := d, sy_next := Suc ?n, sy_server := Awaiting ?n\<rparr>"
  have "dt_server_step mo (of_debugged x) ?y"
    using dt_server_step.requests [of "of_debugged x" mo u d] assms(3) by (simp add: of_debugged_def)
  then have y: "sys_ok mo ?y" using dt_server_step_ok assms(1,2) unfolding debugged_ok_def by blast
  have "dt_request d \<noteq> None" using assms(3) by (auto simp: Request_begin_def Let_def split: if_splits)
  then have "\<not> mt_IsSuspended mo (dt_managed d)" using y by (simp add: sys_ok_def thread_ok_def managed_rel_def)
  then have "sys_ok mo (?y\<lparr>sy_app := Woken ctx\<rparr>)"
    by (intro app_step_ok [OF assms(1) y app_step.wakes]) (use assms(4) in \<open>simp_all add: of_debugged_def\<close>)
  then show ?thesis using sys_ok_same [of "?y\<lparr>sy_app := Woken ctx\<rparr>" d' mo] assms(5) by simp
qed

lemma Suspend_woken_pc: "Suspend_woken mo ctx d = (pc, d') \<Longrightarrow> \<forall>ctx. pc \<noteq> Woken ctx"
  by (auto simp: Suspend_woken_def pause_loop_def Let_def split: if_splits option.splits)

lemma debugged_request_ends:
  assumes "managed_ok mo" "sys_ok mo y" "sy_app y = Woken ctx" "sy_server y = Awaiting (length ds)"
    "sy_results y = map (\<lambda>k. (k, True)) ds" "Suspend_woken mo ctx (sy_thread y) = (pc, d)"
    and x: "th_pc x = pc" "th_dt x = snd (Request_end mo d)"
  shows "debugged_ok mo x"
proof -
  have y: "sys_ok mo (y\<lparr>sy_app := pc, sy_thread := d\<rparr>)"
    by (rule app_step_ok [OF assms(1,2) app_step.locks [OF assms(3,6)]])
  have "dt_request d = None"
    using Suspend_woken_ok [OF assms(1) _ _ assms(6)] assms(2,3) by (simp add: sys_ok_def)
  then have "sys_ok mo (y\<lparr>sy_app := pc, sy_thread := d, sy_thread := snd (Request_end mo d), sy_server := Idle,
      sy_results := sy_results y @ [(length ds, True)]\<rparr>)"
    using dt_server_step_ok [OF assms(1) y dt_server_step.returns [of _ "length ds" mo True "snd (Request_end mo d)"]] assms(4)
    by (simp add: Request_end_def)
  then show ?thesis
    by (rule debugged_ok_of [where ds = "ds @ [length ds]"])
      (use assms(5) x Suspend_woken_pc [OF assms(6)] in \<open>simp_all add: same_thread_def\<close>)
qed

lemma debugged_request_ok:
  assumes "managed_ok mo" "debugged_ok mo x" "RequestToObjectRepository mo req x = Some (res, x')"
  shows "debugged_ok mo x'"
proof (cases "Request_begin mo (length (dt_done (th_dt x))) (th_dt x)")
  case (Pair r d)
  show ?thesis
  proof (cases r)
    case (Inl b)
    have "dt_request (th_dt x) = None" "\<not> dt_failed (th_dt x)"
      using assms(2) by (simp_all add: debugged_ok_def sys_ok_def of_debugged_def thread_ok_def)
    then have "d = th_dt x"
      using Pair Inl by (auto simp: Request_begin_def Let_def dt_assert_def split: if_splits)
    then show ?thesis using assms(2,3) Pair Inl by (auto simp: RequestToObjectRepository_def)
  next
    case (Inr u)
    with Pair assms(3) obtain ctx t h s eng r' eng' pc d' where x: "th_pc x = Waiting ctx" "dt_state d = (t, h, s, eng)"
      "Suspend_woken mo ctx (d\<lparr>dt_state := (t, h, s, eng')\<rparr>) = (pc, d')"
      "x' = x\<lparr>th_pc := pc, th_dt := snd (Request_end mo d'), th_repository := r'\<rparr>"
      by (auto simp: RequestToObjectRepository_def split: app_pc.splits prod.splits)
    have "same_thread d (d\<lparr>dt_state := (t, h, s, eng')\<rparr>)" using x(2) by (simp add: same_thread_def)
    from debugged_request_begins [OF assms(1,2) Pair [unfolded Inr] x(1) this]
    show ?thesis by (rule debugged_request_ends [OF assms(1), where ds = "dt_done (th_dt x)"])
        (use x in \<open>simp_all add: of_debugged_def\<close>)
  qed
qed

section \<open>All the threads\<close>

definition threads_ok :: "('w, 'm, 'j, 'msg) env \<Rightarrow> ('w, 'm, 'msg) inspector \<Rightarrow> bool" where
  "threads_ok e i \<longleftrightarrow> managed_ok (e_mo e) \<and> (\<forall>(t, x) \<in> set (threads i). debugged_ok (e_mo e) x)"

definition thread_stays_ok :: "('w, 'm, 'j, 'msg) env \<Rightarrow> ('w, 'm) debugged \<Rightarrow> ('w, 'm) debugged \<Rightarrow> bool" where
  "thread_stays_ok e x x' \<longleftrightarrow> managed_ok (e_mo e) \<and> debugged_ok (e_mo e) x \<longrightarrow> debugged_ok (e_mo e) x'"

lemma threads_ok_same: "threads i' = threads i \<Longrightarrow> threads_ok e i \<Longrightarrow> threads_ok e i'"
  by (simp add: threads_ok_def)

lemma set_update: "p \<in> set (AList.update k v xs) \<Longrightarrow> p = (k, v) \<or> p \<in> set xs"
  by (induction xs) (auto split: if_splits)

lemma threads_ok_thread:
  assumes "GetDebuggableThread t i = Some x" "thread_stays_ok e x x'" "threads_ok e i"
  shows "threads_ok e (put_thread t x' i)"
proof -
  have "debugged_ok (e_mo e) x"
    using assms(1,3) map_of_SomeD [of "threads i" t x] by (auto simp: GetDebuggableThread_def threads_ok_def)
  then show ?thesis using assms(2,3) by (auto simp: threads_ok_def thread_stays_ok_def put_thread_def dest!: set_update)
qed

lemma debugged_pause_ok: "managed_ok mo \<Longrightarrow> debugged_ok mo x \<Longrightarrow> debugged_ok mo (x\<lparr>th_dt := DebuggableThread_Pause (th_dt x)\<rparr>)"
  by (rule debugged_call_ok [OF _ _ _ dt_server_call.intros(8)]) (auto simp: same_thread_def)

lemma debugged_parts: "debugged_ok mo (x\<lparr>th_repository := r\<rparr>) = debugged_ok mo x"
  "debugged_ok mo (x\<lparr>th_objectRepository := ro\<rparr>) = debugged_ok mo x"
  by (simp_all add: debugged_ok_def of_debugged_def)

text \<open>What neither a command nor a hook of a running thread changes: which threads there are, their
  sessions, and that no assertion has failed; the threads stay as above, and the storage of breakpoints is
  changed by its operations only.\<close>

definition stays :: "('w, 'm, 'j, 'msg) env \<Rightarrow> ('w, 'm, 'msg) inspector \<Rightarrow> ('w, 'm, 'msg) inspector \<Rightarrow> bool" where
  "stays e i i' \<longleftrightarrow> map fst (threads i') = map fst (threads i) \<and> in_failed i' = in_failed i \<and> isVmDead i' = isVmDead i \<and>
     in_connecting i' = in_connecting i \<and> sv_sessions (in_server i') = sv_sessions (in_server i) \<and>
     (threads_ok e i \<longrightarrow> threads_ok e i') \<and>
     (storage_reach (e_ops e) (in_storage i) \<longrightarrow> storage_reach (e_ops e) (in_storage i'))"

lemma stays_trans: "stays e i i' \<Longrightarrow> stays e i' i'' \<Longrightarrow> stays e i i''"
  unfolding stays_def by metis

lemma stays_refl: "stays e i i"
  by (simp add: stays_def)

lemma stays_other: "threads i' = threads i \<Longrightarrow> in_failed i' = in_failed i \<Longrightarrow> isVmDead i' = isVmDead i \<Longrightarrow>
  in_connecting i' = in_connecting i \<Longrightarrow> sv_sessions (in_server i') = sv_sessions (in_server i) \<Longrightarrow>
  in_storage i' = in_storage i \<Longrightarrow> stays e i i'"
  by (simp add: stays_def threads_ok_def)

lemma stays_storage:
  "(storage_reach (e_ops e) (in_storage i) \<Longrightarrow> storage_reach (e_ops e) s) \<Longrightarrow> stays e i (i\<lparr>in_storage := s\<rparr>)"
  by (simp add: stays_def threads_ok_def)

lemma stays_thread: "GetDebuggableThread t i = Some x \<Longrightarrow> thread_stays_ok e x x' \<Longrightarrow> stays e i (put_thread t x' i)"
  using threads_ok_thread [of t i x e x'] by (simp add: stays_def put_thread_def GetDebuggableThread_def update_keys)

lemma stays_pause: "stays e i (PauseOtherThreads tid t i)"
proof -
  have "threads_ok e (PauseOtherThreads tid t i)" if "threads_ok e i"
    using that by (fastforce simp: threads_ok_def PauseOtherThreads_def debugged_pause_ok split: if_splits)
  moreover have "map fst (threads (PauseOtherThreads tid t i)) = map fst (threads i)"
    by (simp add: PauseOtherThreads_def case_prod_beta comp_def)
  ultimately show ?thesis by (simp add: stays_def PauseOtherThreads_def)
qed

interpretation well: inspector_relation e same_sessions "thread_stays_ok e" "stays e"
  for e :: "('w, 'm, 'j, 'msg) env"
proof unfold_locales
  fix i i' i'' :: "('w, 'm, 'msg) inspector" and x x' x'' :: "('w, 'm) debugged"
    and d t tid req req' and pds :: "property_descriptor list option" and ob :: "remote_object option"
  show "dt_server_call (e_mo e) (shared_in i (th_dt x)) d \<Longrightarrow> thread_stays_ok e x (x\<lparr>th_dt := d\<lparr>dt_callbacks := []\<rparr>\<rparr>)"
    unfolding thread_stays_ok_def using debugged_call_ok same_shared same_callbacks by blast
  show "RequestToObjectRepository (e_mo e) req x = Some (pds, x') \<Longrightarrow> thread_stays_ok e x x'"
    "RequestToObjectRepository (e_mo e) req' x = Some (ob, x') \<Longrightarrow> thread_stays_ok e x x'"
    unfolding thread_stays_ok_def using debugged_request_ok by blast+
  show "GetDebuggableThread t i = Some x \<Longrightarrow> thread_stays_ok e x x' \<Longrightarrow> stays e i (put_thread t x' i)" by (rule stays_thread)
  show "stays e i (PauseOtherThreads tid t i)" by (rule stays_pause)
  show "stays e i i' \<Longrightarrow> stays e i' i'' \<Longrightarrow> stays e i i''" by (rule stays_trans)
  show "stays e i i" by (rule stays_refl)
qed (auto intro!: stays_storage intro: storage_reach.intros stays_other simp: thread_stays_ok_def debugged_parts same_sessions_def Server_Kill_def)

section \<open>The hooks\<close>

text \<open>A hook of an application thread is called while that thread runs.\<close>

definition runs :: "pt_thread \<Rightarrow> ('w, 'm, 'msg) inspector \<Rightarrow> bool" where
  "runs t i \<longleftrightarrow> (case GetDebuggableThread t i of None \<Rightarrow> True | Some x \<Rightarrow> th_pc x = Running)"

abbreviation dt_storage :: "('w, 'm) dthread \<Rightarrow> storage" where
  "dt_storage d \<equiv> fst (snd (snd (dt_state d)))"

lemma stays_shared:
  "(storage_reach (e_ops e) (in_storage i) \<Longrightarrow> storage_reach (e_ops e) (dt_storage d)) \<Longrightarrow> stays e i (shared_out d i)"
  by (auto simp: stays_def threads_ok_def shared_out_def split: prod.split)

lemma shared_in_storage [simp]: "dt_storage (shared_in i d) = in_storage i"
  by (simp add: shared_in_def split: prod.split)

lemma app_hook_stays:
  assumes "on_thread e v t f i = Some i'" "runs t i"
    and "\<And>y pc d. sy_app y = Running \<Longrightarrow> f Running (sy_thread y) = Some (pc, d) \<Longrightarrow>
      app_step (e_ops e) (e_mo e) y (y\<lparr>sy_app := pc, sy_thread := d\<rparr>)"
    and "\<And>d pc d' ctx. f Running d = Some (pc, d') \<Longrightarrow> pc \<noteq> Woken ctx"
    and "\<And>d pc d'. f Running d = Some (pc, d') \<Longrightarrow> storage_reach (e_ops e) (dt_storage d) \<Longrightarrow> storage_reach (e_ops e) (dt_storage d')"
  shows "stays e i i'"
proof -
  have "thread_stays_ok e x (x\<lparr>th_pc := pc, th_dt := d\<lparr>dt_callbacks := []\<rparr>\<rparr>) \<and> stays e i (shared_out d i)"
    if "GetDebuggableThread t i = Some x" "f (th_pc x) (shared_in i (th_dt x)) = Some (pc, d)" for x pc d
  proof
    have pc: "th_pc x = Running" using assms(2) that(1) by (simp add: runs_def)
    let ?y = "(of_debugged x)\<lparr>sy_thread := shared_in i (th_dt x)\<rparr>"
    have y: "sy_app ?y = Running" "f Running (sy_thread ?y) = Some (pc, d)" using that pc by (simp_all add: of_debugged_def)
    from debugged_app_ok [OF _ _ assms(3) [OF y]] assms(4) [OF y(2)]
    show "thread_stays_ok e x (x\<lparr>th_pc := pc, th_dt := d\<lparr>dt_callbacks := []\<rparr>\<rparr>)"
      unfolding thread_stays_ok_def by blast
    show "stays e i (shared_out d i)" by (rule stays_shared) (use assms(5) [OF that(2) [unfolded pc]] in simp)
  qed
  from well.on_thread_R [OF assms(1) this] show ?thesis .
qed

lemma pause_loop_pc: "pause_loop mo ctx d = (pc, d') \<Longrightarrow> pc \<noteq> Woken ctx'"
  by (auto simp: pause_loop_def split: if_splits)

lemma hooks_pc:
  "DebuggableThread_OnException mo uncaught exc d = (pc, d') \<Longrightarrow> pc \<noteq> Woken ctx"
  "DebuggableThread_OnFramePop d = (pc, d') \<Longrightarrow> pc \<noteq> Woken ctx"
  "DebuggableThread_OnMethodEntry d = (b, pc, d') \<Longrightarrow> pc \<noteq> Woken ctx"
  "DebuggableThread_OnSingleStep ops mo l d = Some (pc, d') \<Longrightarrow> pc \<noteq> Woken ctx"
  by (auto simp: DebuggableThread_OnException_def DebuggableThread_OnFramePop_def DebuggableThread_OnMethodEntry_def
      DebuggableThread_OnSingleStep_def Let_def pause_loop_pc split: if_splits option.splits)

lemma break_on_start_step:
  "sy_app y = Running \<Longrightarrow> app_step ops mo y (y\<lparr>sy_app := Running, sy_thread := DebuggableThread_BreakOnStart (sy_thread y)\<rparr>)"
  using app_step.break_on_start [of y ops mo] by (cases y) simp

lemma update_dt_storage [simp]: "dt_storage (dt_assert b d) = dt_storage d" "dt_storage (Suspend_begin mo ctx d) = dt_storage d"
  by (simp_all add: dt_assert_def Suspend_begin_def dt_call_def Let_def)

lemma pause_loop_storage: "pause_loop mo ctx d = (pc, d') \<Longrightarrow> dt_storage d' = dt_storage d"
  by (auto simp: pause_loop_def split: if_splits)

lemma hooks_storage:
  "DebuggableThread_OnException mo uncaught exc d = (pc, d') \<Longrightarrow> dt_storage d' = dt_storage d"
  "DebuggableThread_OnFramePop d = (pc, d') \<Longrightarrow> dt_storage d' = dt_storage d"
  "DebuggableThread_OnMethodEntry d = (b, pc, d') \<Longrightarrow> dt_storage d' = dt_storage d"
  "dt_storage (DebuggableThread_BreakOnStart d) = dt_storage d"
  by (auto simp: DebuggableThread_OnException_def DebuggableThread_OnFramePop_def DebuggableThread_OnMethodEntry_def
      DebuggableThread_BreakOnStart_def pause_loop_storage split: if_splits)

lemma single_step_storage:
  assumes "DebuggableThread_OnSingleStep ops mo l d = Some (pc, d')" "storage_reach ops (dt_storage d)"
  shows "storage_reach ops (dt_storage d')"
proof -
  obtain t h s eng where d: "dt_state d = (t, h, s, eng)" by (cases "dt_state d")
  have should: "storage_reach ops s'" if "ThreadState_ShouldStopAtBreakpoint ops t l (s, eng) = Some (r, s', eng')" for r s' eng'
    using that assms(2) d by (auto simp: ThreadState_ShouldStopAtBreakpoint_def split: if_splits intro: storage_reach.should_stop)
  have "storage_reach ops (fst (snd (snd st)))" if "ThreadState_OnSingleStep ops l (t, h, s, eng) = Some st" for st
    using that assms(2) d should
    by (auto simp: ThreadState_OnSingleStep_def Let_def split: if_splits option.splits prod.splits bool.splits)
  then show ?thesis using assms d
    by (auto simp: DebuggableThread_OnSingleStep_def Let_def dt_assert_def dest!: pause_loop_storage split: if_splits option.splits)
qed

lemma Exception_stays: "Inspector_Exception e v t off exc i = Some i' \<Longrightarrow> runs t i \<Longrightarrow> stays e i i'"
  unfolding Inspector_Exception_def
  by (erule app_hook_stays) (auto intro: app_step.on_exception dest: hooks_pc simp: hooks_storage(1))

lemma FramePop_stays: "FramePop e v t i = Some i' \<Longrightarrow> runs t i \<Longrightarrow> stays e i i'"
  unfolding FramePop_def by (erule app_hook_stays) (auto intro: app_step.on_frame_pop dest: hooks_pc simp: hooks_storage(2))

lemma single_step_stays:
  "on_thread e v t (\<lambda>pc d. DebuggableThread_OnSingleStep (e_ops e) (e_mo e) l d) i = Some i' \<Longrightarrow> runs t i \<Longrightarrow> stays e i i'"
  by (erule app_hook_stays) (auto intro: app_step.on_single_step single_step_storage dest: hooks_pc)

lemma method_entry_stays:
  "on_thread e v t (\<lambda>pc d. Some (snd (DebuggableThread_OnMethodEntry d))) i = Some i' \<Longrightarrow> runs t i \<Longrightarrow> stays e i i'"
  by (erule app_hook_stays) (metis app_step.on_method_entry hooks_pc(3) hooks_storage(3) option.inject prod.collapse)+

lemma break_on_start_stays:
  "call_thread e v t DebuggableThread_BreakOnStart i = Some i' \<Longrightarrow> runs t i \<Longrightarrow> stays e i i'"
  unfolding call_thread_def by (erule app_hook_stays) (auto intro: break_on_start_step simp: hooks_storage(4))

lemma break_on_start_runs:
  assumes "call_thread e v t DebuggableThread_BreakOnStart i = Some i'" "runs t i"
  shows "runs t i'"
proof (cases "GetDebuggableThread t i")
  case None
  then have "call_thread e v t DebuggableThread_BreakOnStart i = Some i" by (simp add: call_thread_def on_thread_def)
  from assms(1) [unfolded this option.inject] show ?thesis using assms(2) by (rule subst)
next
  case (Some x)
  let ?d = "DebuggableThread_BreakOnStart (shared_in i (th_dt x))"
  have "dt_callbacks ?d = []"
    by (simp add: DebuggableThread_BreakOnStart_def dt_update_def shared_in_def split: prod.split)
  then have "call_thread e v t DebuggableThread_BreakOnStart i = Some (put_thread t (x\<lparr>th_dt := ?d\<lparr>dt_callbacks := []\<rparr>\<rparr>) (shared_out ?d i))"
    using Some by (simp add: call_thread_def on_thread_def)
  from assms(1) [unfolded this option.inject] show ?thesis
    by (rule subst) (use assms(2) Some in \<open>simp add: runs_def GetDebuggableThread_def put_thread_def update_conv\<close>)
qed

lemma runs_same: "threads i' = threads i \<Longrightarrow> runs t i' = runs t i"
  by (simp add: runs_def GetDebuggableThread_def)

lemma MethodEntry_stays:
  assumes "MethodEntry e v t m c i = Some i'" "runs t i"
  shows "stays e i i'"
proof (cases "c \<or> GetDebuggableThread t i = None")
  case True
  then have "MethodEntry e v t m c i = Some i" by (simp add: MethodEntry_def)
  from assms(1) [unfolded this option.inject] show ?thesis using stays_refl by (rule subst)
next
  case False
  define first where "first = (case GetUserSourceFile (debugInfoCache i) m of None \<Rightarrow> None
    | Some f \<Rightarrow> if map_of (sourceFiles i) f = None then Some f else None)"
  define enter where "enter = (case first of None \<Rightarrow> Some i
    | Some f \<Rightarrow> call_thread e v t DebuggableThread_BreakOnStart (i\<lparr>sourceFiles := map_insert f True (sourceFiles i)\<rparr>))"
  note def = MethodEntry_def [of e v t m c i, folded first_def, unfolded Let_def, folded enter_def, unfolded if_not_P [OF False]]
  show ?thesis
  proof (cases enter)
    case None
    then show ?thesis using assms(1) def by simp
  next
    case (Some i1)
    have i1: "runs t i1 \<and> stays e i i1"
    proof (cases first)
      case None
      from Some [unfolded enter_def None option.case option.inject] show ?thesis
        by (rule subst [of i i1]) (intro conjI assms stays_refl)
    next
      case (Some f)
      let ?i = "i\<lparr>sourceFiles := map_insert f True (sourceFiles i)\<rparr>"
      have "runs t ?i" "stays e i ?i" using assms(2) by (simp_all add: runs_same [of ?i i] stays_other)
      then show ?thesis using \<open>enter = Some i1\<close> [unfolded enter_def Some option.case]
        by (blast intro: break_on_start_stays break_on_start_runs stays_trans)
    qed
    show ?thesis
    proof (cases "on_thread e v t (\<lambda>pc d. Some (snd (DebuggableThread_OnMethodEntry d))) i1")
      case None
      then show ?thesis using assms(1) def Some by simp
    next
      case i2: (Some i2)
      have "stays e i i2" using method_entry_stays [OF i2] i1 stays_trans by blast
      moreover have "stays e i2 (if b then i2\<lparr>in_calls := cs\<rparr> else i2)" for b cs
        by (cases b) (simp_all add: stays_refl stays_other)
      ultimately have "stays e i (if b then i2\<lparr>in_calls := cs\<rparr> else i2)" for b cs by (rule stays_trans)
      then show ?thesis using assms(1) [unfolded def Some option.case i2 option.inject] by (rule back_subst)
    qed
  qed
qed

lemma SingleStep_stays:
  assumes "SingleStep e v t m l i = Some i'" "runs t i"
  shows "stays e i i'"
proof -
  have step: "stays e i i'" if "on_thread e v t (\<lambda>pc d. DebuggableThread_OnSingleStep (e_ops e) (e_mo e) l d) (i\<lparr>sourceFiles := fs\<rparr>) = Some i'" for fs
    by (rule stays_trans [OF stays_other single_step_stays [OF that]]) (simp_all add: runs_same [of "i\<lparr>sourceFiles := fs\<rparr>" i] assms(2))
  have same: "stays e i i'" if "Some i = Some i'"
    using that stays_refl unfolding option.inject by (rule subst)
  have "i\<lparr>sourceFiles := sourceFiles i\<rparr> = i" by simp
  then have step': "stays e i i'" if "on_thread e v t (\<lambda>pc d. DebuggableThread_OnSingleStep (e_ops e) (e_mo e) l d) i = Some i'"
    using step [of "sourceFiles i"] that by simp
  show ?thesis
    using assms(1) unfolding SingleStep_def by (auto split: option.split_asm if_split_asm bool.split_asm intro: step step' same)
qed

text \<open>A thread that wakes up takes two steps of its loop, the second with the mutex.\<close>

lemma debugged_wakes:
  assumes "managed_ok (e_mo e)" "debugged_ok (e_mo e) x" "same_thread (th_dt x) d0" "th_pc x = Waiting ctx"
    "\<not> mt_IsSuspended (e_mo e) (dt_managed d0)" "Suspend_woken (e_mo e) ctx d0 = (pc, d)"
  shows "debugged_ok (e_mo e) (x\<lparr>th_pc := pc, th_dt := d\<lparr>dt_callbacks := []\<rparr>\<rparr>)"
proof -
  let ?y = "(of_debugged x)\<lparr>sy_thread := d0\<rparr>"
  have "sys_ok (e_mo e) ?y"
    by (rule sys_ok_same) (use assms(2,3) in \<open>simp_all add: of_debugged_def debugged_ok_def\<close>)
  then have "sys_ok (e_mo e) (?y\<lparr>sy_app := Woken ctx\<rparr>)"
    by (rule app_step_ok [OF assms(1) _ app_step.wakes]) (use assms(4,5) in \<open>simp_all add: of_debugged_def\<close>)
  then have "sys_ok (e_mo e) (?y\<lparr>sy_app := Woken ctx, sy_app := pc, sy_thread := d\<rparr>)"
    by (rule app_step_ok [OF assms(1) _ app_step.locks]) (use assms(6) in simp_all)
  then show ?thesis
    by (rule debugged_ok_of [where ds = "dt_done (th_dt x)"])
      (use Suspend_woken_pc [OF assms(6)] same_callbacks in \<open>simp_all add: of_debugged_def\<close>)
qed

lemma Suspend_woken_storage: "Suspend_woken mo ctx d = (pc, d') \<Longrightarrow> dt_storage d' = dt_storage d"
  by (auto simp: Suspend_woken_def Let_def dest!: pause_loop_storage split: if_splits option.splits)

lemma thread_wakes_stays:
  assumes "thread_wakes e v t i = Some i'"
  shows "stays e i i'"
  using assms unfolding thread_wakes_def
proof (rule well.on_thread_R)
  fix x :: "('a, 'b) debugged" and pc d
  assume r: "(case th_pc x of Running \<Rightarrow> Some (th_pc x, shared_in i (th_dt x))
      | Waiting ctx \<Rightarrow> Some (if mt_IsSuspended (e_mo e) (dt_managed (shared_in i (th_dt x))) then (th_pc x, shared_in i (th_dt x))
          else Suspend_woken (e_mo e) ctx (shared_in i (th_dt x)))
      | Woken ctx \<Rightarrow> Some (Suspend_woken (e_mo e) ctx (shared_in i (th_dt x)))) = Some (pc, d)"
  have same: "debugged_ok (e_mo e) (x\<lparr>th_pc := th_pc x, th_dt := shared_in i (th_dt x)\<lparr>dt_callbacks := []\<rparr>\<rparr>)" if "debugged_ok (e_mo e) x"
    by (rule debugged_ok_of [where y = "of_debugged x" and ds = "dt_done (th_dt x)"])
      (use that in \<open>simp_all add: of_debugged_def debugged_ok_def same_thread_def shared_in_def split: prod.splits\<close>)
  have "dt_storage d = in_storage i"
    using r by (auto dest: Suspend_woken_storage split: app_pc.splits if_splits)
  moreover have "thread_stays_ok e x (x\<lparr>th_pc := pc, th_dt := d\<lparr>dt_callbacks := []\<rparr>\<rparr>)"
  proof (cases "th_pc x")
    case (Waiting ctx)
    then show ?thesis using r same debugged_wakes [of e x "shared_in i (th_dt x)" ctx pc d] same_shared
      by (auto simp: thread_stays_ok_def split: if_splits)
  qed (use r same in \<open>auto simp: thread_stays_ok_def debugged_ok_def\<close>)
  ultimately show "thread_stays_ok e x (x\<lparr>th_pc := pc, th_dt := d\<lparr>dt_callbacks := []\<rparr>\<rparr>) \<and> stays e i (shared_out d i)"
    by (simp add: stays_shared)
qed

section \<open>Messages\<close>

lemma SendMessage_sessions [simp]: "sv_sessions (SendMessage out s) = sv_sessions s"
  by (simp add: SendMessage_def SetSyncResponse_def)

lemma stays_sends: "stays e i (on_server (SendMessage out) i)"
  by (rule stays_other) (simp_all add: on_server_def)

lemma HandleMessage_stays: "HandleMessage e v p message i = Some i' \<Longrightarrow> stays e i i'"
  by (drule HandleMessage_effect, erule message_effect.cases)
    (simp_all add: stays_refl stays_sends, rule stays_trans [OF well.handlers_R stays_sends])

lemma ParseMessage_stays:
  assumes "OhosWsServer_ParseMessage e v p ep acc message i = Some (b, i')"
  shows "stays e i i'"
proof -
  have same: "stays e i i'" if "i = i'" using that stays_refl by (rule subst)
  have conn: "stays e i (on_server (\<lambda>s. s\<lparr>sv_connected := True\<rparr>) i)" by (rule stays_other) (simp_all add: on_server_def)
  show ?thesis
  proof (cases "\<not> ep \<or> \<not> sv_connected (in_server i) \<and> \<not> acc")
    case True
    then have "OhosWsServer_ParseMessage e v p ep acc message i = Some (False, i)" by (auto simp: OhosWsServer_ParseMessage_def)
    from assms [unfolded this option.inject prod.inject] show ?thesis by (blast intro: same)
  next
    case False
    show ?thesis
    proof (cases "HandleMessage e v p message (on_server (\<lambda>s. s\<lparr>sv_connected := True\<rparr>) i)")
      case None
      then show ?thesis using assms False by (simp add: OhosWsServer_ParseMessage_def split: if_split_asm)
    next
      case (Some i1)
      have "OhosWsServer_ParseMessage e v p ep acc message i = Some (True, i1)"
        using False Some by (simp add: OhosWsServer_ParseMessage_def)
      from assms [unfolded this option.inject prod.inject] have "i1 = i'" by blast
      from this stays_trans [OF conn HandleMessage_stays [OF Some]] show ?thesis by (rule subst)
    qed
  qed
qed

lemma RunSync_stays:
  assumes "RunSync e v p ep acc message i = Some (r, i')"
  shows "stays e i i'"
proof -
  let ?i = "on_server (\<lambda>s. s\<lparr>sv_syncMode := True, sv_syncResponse := None\<rparr>) i"
  have a: "stays e i ?i" by (rule stays_other) (simp_all add: on_server_def)
  show ?thesis
  proof (cases "OhosWsServer_ParseMessage e v p ep acc message ?i")
    case None
    then show ?thesis using assms by (simp add: RunSync_def)
  next
    case (Some q)
    obtain b i1 where q: "q = (b, i1)" by (cases q)
    let ?i' = "on_server (\<lambda>s. s\<lparr>sv_syncMode := False, sv_syncResponse := None\<rparr>) i1"
    have "RunSync e v p ep acc message i = Some (sv_syncResponse (in_server i1), ?i')" by (simp add: RunSync_def Some q)
    from assms [unfolded this option.inject prod.inject] have "?i' = i'" by blast
    moreover have "stays e i1 ?i'" by (rule stays_other) (simp_all add: on_server_def)
    from stays_trans [OF stays_trans [OF a ParseMessage_stays [OF Some [unfolded q]]] this] have "stays e i ?i'" .
    ultimately show ?thesis by (rule subst)
  qed
qed

section \<open>Runs\<close>

definition Inspector_new :: "hybrid_stepper \<Rightarrow> 'msg inspector_server \<Rightarrow> ('w, 'm, 'msg) inspector" where
  "Inspector_new h server =
     \<lparr>in_server = server\<lparr>sv_sessions := [], sv_sources := SourceManager_new\<rparr>, in_connecting = False, mixedDebugEnabled = False,
      debugInfoCache = DebugInfoCache_new, threads = [], currentExceptionId = 0, isVmDead = False,
      in_storage = BreakpointStorage_new, in_hybrid = h, sourceFiles = [], samplingInterval = 0,
      nativeMethodCallWaiting = False, waitDebuggerSignals = 0, in_calls = [], in_failed = False\<rparr>"

text \<open>Thread numbers are unique among the live threads, a thread starts unsuspended and ends while it
  runs, the VM dies once, and a connection is validated before it opens.\<close>

inductive inspector_step ::
  "('w, 'm, 'j, 'msg) env \<Rightarrow> ('w, 'm, 'msg) inspector \<Rightarrow> ('w, 'm, 'msg) inspector \<Rightarrow> bool" for e i where
  starts: "t \<noteq> PtThread_NONE \<Longrightarrow> t \<notin> fst ` set (threads i) \<Longrightarrow> e_tid e t \<notin> e_tid e ` fst ` set (threads i) \<Longrightarrow>
    \<not> mt_IsSuspended (e_mo e) m \<Longrightarrow> inspector_step e i (ThreadStart e t w m i)"
| ends: "t \<in> fst ` set (threads i) \<Longrightarrow> runs t i \<Longrightarrow> inspector_step e i (ThreadEnd e t i)"
| enters: "runs t i \<Longrightarrow> MethodEntry e v t m c i = Some i' \<Longrightarrow> inspector_step e i i'"
| steps: "runs t i \<Longrightarrow> SingleStep e v t m l i = Some i' \<Longrightarrow> inspector_step e i i'"
| pops: "runs t i \<Longrightarrow> FramePop e v t i = Some i' \<Longrightarrow> inspector_step e i i'"
| throws: "runs t i \<Longrightarrow> Inspector_Exception e v t off exc i = Some i' \<Longrightarrow> inspector_step e i i'"
| wakes: "thread_wakes e v t i = Some i' \<Longrightarrow> inspector_step e i i'"
| prints: "inspector_step e i (ConsoleCall e t type ts args i)"
| loads: "inspector_step e i (LoadModule f files i)"
| collects: "inspector_step e i (CollectModules files i)"
| dies: "\<not> isVmDead i \<Longrightarrow> inspector_step e i (VmDeath e i)"
| validates: "\<not> in_connecting i \<Longrightarrow> inspector_step e i (Inspector_OnValidate i)"
| opens: "in_connecting i \<Longrightarrow> inspector_step e i (Inspector_OnOpen e i)"
| fails: "inspector_step e i (Inspector_OnFail i)"
| message: "OhosWsServer_ParseMessage e v p ep acc message i = Some (b, i') \<Longrightarrow> inspector_step e i i'"
| sync: "RunSync e v p ep acc message i = Some (r, i') \<Longrightarrow> inspector_step e i i'"

inductive inspector_reach ::
  "('w, 'm, 'j, 'msg) env \<Rightarrow> ('w, 'm, 'msg) inspector \<Rightarrow> ('w, 'm, 'msg) inspector \<Rightarrow> bool" for e i where
  here: "inspector_reach e i i"
| further: "inspector_reach e i i' \<Longrightarrow> inspector_step e i' i'' \<Longrightarrow> inspector_reach e i i''"

definition in_ok :: "('w, 'm, 'j, 'msg) env \<Rightarrow> ('w, 'm, 'msg) inspector \<Rightarrow> bool" where
  "in_ok e i \<longleftrightarrow> threads_ok e i \<and> storage_reach (e_ops e) (in_storage i) \<and> distinct (map fst (threads i)) \<and> \<not> in_failed i \<and>
     sessions_of (e_tid e) (fst ` set (threads i)) (sv_sessions (in_server i))"

lemma in_ok_stays: "in_ok e i \<Longrightarrow> stays e i i' \<Longrightarrow> in_ok e i'"
  unfolding in_ok_def stays_def by (metis list.set_map)

lemma Inspector_new_ok: "managed_ok (e_mo e) \<Longrightarrow> in_ok e (Inspector_new h server)"
  by (simp add: in_ok_def Inspector_new_def threads_ok_def sessions_of.no_threads storage_reach.start)

lemma debugged_new_ok:
  "\<not> mt_IsSuspended mo m \<Longrightarrow> debugged_ok mo \<lparr>th_pc = Running, th_dt = DebuggableThread_new h bps m, th_repository = r, th_objectRepository = ro\<rparr>"
  using sys_ok_new [of mo m h bps]
  by (simp add: debugged_ok_def of_debugged_def system_new_def DebuggableThread_new_def)

lemma attached_sessions [simp]:
  "sv_sessions (snd (CallTargetAttachedToTarget js tid t s)) = snd (AddSession tid t (sv_sessions s))"
  by (simp add: CallTargetAttachedToTarget_def SendTargetAttachedToTarget_def Let_def split: prod.split)

lemma detached_sessions [simp]:
  "sv_sessions (CallTargetDetachedFromTarget js tid t s) = RemoveSession (GetSessionIdByThread tid (sv_sessions s) t) (sv_sessions s)"
  by (simp add: CallTargetDetachedFromTarget_def Let_def)

lemma distinct_map_insert: "k \<notin> fst ` set m \<Longrightarrow> distinct (map fst m) \<Longrightarrow> distinct (map fst (map_insert k v m))"
  by (rule map_insert_new [of k m v]) auto

lemma set_map_insert: "set (map_insert k v m) \<subseteq> insert (k, v) (set m)"
  by (induction m) (auto split: if_splits)

lemma ThreadStart_ok:
  assumes "in_ok e i" "t \<noteq> PtThread_NONE" "t \<notin> fst ` set (threads i)" "e_tid e t \<notin> e_tid e ` fst ` set (threads i)"
    "\<not> mt_IsSuspended (e_mo e) m"
  shows "in_ok e (ThreadStart e t w m i)"
proof -
  let ?i = "ThreadStart e t w m i"
  let ?x = "\<lparr>th_pc = Running, th_dt = DebuggableThread_new (in_hybrid i) (in_storage i, \<lparr>evaluating = False, ev_thread = w\<rparr>) m,
    th_repository = ObjectRepository_new, th_objectRepository = None\<rparr>"
  have free: "map_of (threads i) t = None" using assms(3) by (simp add: map_of_eq_None_iff)
  then have ts: "threads ?i = map_insert t ?x (threads i)"
    and s: "sv_sessions (in_server ?i) = snd (AddSession (e_tid e) t (sv_sessions (in_server i)))"
    and f: "in_failed ?i = in_failed i" "in_storage ?i = in_storage i"
    using assms(2) by (simp_all add: ThreadStart_def Let_def on_server_def in_assert_def)
  have "threads_ok e ?i"
    using assms(1) debugged_new_ok [OF assms(5)] set_map_insert [of t ?x "threads i"]
    unfolding threads_ok_def in_ok_def ts by blast
  moreover have "distinct (map fst (threads ?i))"
    unfolding ts by (rule distinct_map_insert) (use assms(1,3) in \<open>simp_all add: in_ok_def\<close>)
  moreover have "sessions_of (e_tid e) (fst ` set (threads ?i)) (sv_sessions (in_server ?i))"
    unfolding ts s fst_map_insert by (rule sessions_of.starts) (use assms in \<open>simp_all add: in_ok_def\<close>)
  ultimately show ?thesis using assms(1) f by (simp add: in_ok_def)
qed

lemma set_delete: "set (AList.delete k xs) \<subseteq> set xs" "fst ` set (AList.delete k xs) = fst ` set xs - {k}"
  by (induction xs) auto

lemma ThreadEnd_ok:
  assumes "in_ok e i" "t \<in> fst ` set (threads i)"
  shows "in_ok e (ThreadEnd e t i)"
proof -
  let ?i = "ThreadEnd e t i"
  have "PtThread_NONE \<notin> fst ` set (threads i)"
    using assms sessions_of_inv [of "e_tid e" "fst ` set (threads i)" "sv_sessions (in_server i)"] by (simp add: in_ok_def session_inv_def)
  then have "t \<noteq> PtThread_NONE" using assms(2) by metis
  moreover have "map_of (threads i) t \<noteq> None" using assms(2) by (simp add: map_of_eq_None_iff)
  ultimately have ts: "threads ?i = AList.delete t (threads i)" and f: "in_failed ?i = in_failed i" "in_storage ?i = in_storage i"
    and s: "sv_sessions (in_server ?i) = RemoveSession (GetSessionIdByThread (e_tid e) (sv_sessions (in_server i)) t) (sv_sessions (in_server i))"
    by (simp_all add: ThreadEnd_def Let_def on_server_def in_assert_def)
  have "threads_ok e ?i" using assms(1) set_delete(1) [of t "threads i"] unfolding threads_ok_def in_ok_def ts by blast
  moreover have "distinct (map fst (threads ?i))" unfolding ts using assms(1) by (simp add: in_ok_def distinct_delete)
  moreover have "sessions_of (e_tid e) (fst ` set (threads ?i)) (sv_sessions (in_server ?i))"
    unfolding ts s set_delete(2) by (rule sessions_of.ends) (use assms in \<open>simp_all add: in_ok_def\<close>)
  ultimately show ?thesis using assms(1) f by (simp add: in_ok_def)
qed

lemma OnOpen_sessions: "sv_sessions (InspectorServer_OnOpen js s) = sv_sessions s"
proof -
  have "sv_sessions (fold (\<lambda>p s. if fst p \<noteq> [] then SendTargetAttachedToTarget js (fst p) s else s) ps s) = sv_sessions s" for ps
    by (induction ps arbitrary: s) (simp_all add: SendTargetAttachedToTarget_def)
  then show ?thesis by (simp add: InspectorServer_OnOpen_def EnumerateSessions_def)
qed

text \<open>The hooks that are about no thread.\<close>

lemma quiet_hooks_ok:
  "in_ok e i \<Longrightarrow> in_ok e (ConsoleCall e t type ts args i)"
  "in_ok e i \<Longrightarrow> in_ok e (LoadModule f files i)"
  "in_ok e i \<Longrightarrow> in_ok e (CollectModules files i)"
  "in_ok e i \<Longrightarrow> \<not> isVmDead i \<Longrightarrow> in_ok e (VmDeath e i)"
  "in_ok e i \<Longrightarrow> \<not> in_connecting i \<Longrightarrow> in_ok e (Inspector_OnValidate i)"
  "in_ok e i \<Longrightarrow> in_connecting i \<Longrightarrow> in_ok e (Inspector_OnOpen e i)"
  "in_ok e i \<Longrightarrow> in_ok e (Inspector_OnFail i)"
  by (simp_all add: in_ok_def threads_ok_def ConsoleCall_def LoadModule_def CollectModules_def VmDeath_def NotifyExecutionEnded_def
      Inspector_OnValidate_def Inspector_OnOpen_def Inspector_OnFail_def CallRuntimeConsoleApiCalled_def
      CallRuntimeExecutionContextsCleared_def OnOpen_sessions on_server_def in_assert_def Let_def split: option.split)

lemma inspector_step_ok:
  assumes "inspector_step e i i'" "in_ok e i"
  shows "in_ok e i'"
  using assms(1)
proof cases
  case starts
  then show ?thesis using ThreadStart_ok [OF assms(2)] by simp
next
  case ends
  then show ?thesis using ThreadEnd_ok [OF assms(2)] by simp
qed (use assms(2) in \<open>simp_all add: quiet_hooks_ok in_ok_stays [OF assms(2)] MethodEntry_stays SingleStep_stays FramePop_stays
    Exception_stays thread_wakes_stays ParseMessage_stays RunSync_stays\<close>)

lemma inspector_reach_ok:
  assumes "inspector_reach e (Inspector_new h server) i" "managed_ok (e_mo e)"
  shows "in_ok e i"
  using assms(1) by induction (use Inspector_new_ok [OF assms(2)] inspector_step_ok in blast)+

section \<open>Answers\<close>

text \<open>The answer to the request \<open>n\<close> for the method \<open>m\<close> of the session \<open>sid\<close>: a result or an error of the
  handler when there is one, the error of the endpoint when there is none.\<close>

definition answer_of :: "('j, 'msg) json_ops \<Rightarrow> bool \<Rightarrow> string \<Rightarrow> real \<Rightarrow> string \<Rightarrow> 'msg \<Rightarrow> bool" where
  "answer_of js known sid n m reply \<longleftrightarrow>
     (if known then (\<exists>result. reply = js_build js (reply_props sid n result)) \<or> (\<exists>err. reply = js_build js (error_props sid n err))
      else reply = js_build js [(''id'', JDouble n), (''error'', JObj [(''code'', JInt (-32601)), (''message'', JStr (''Unsupported method: '' @ m))])])"

definition answered :: "('w, 'm, 'j, 'msg) env \<Rightarrow> bool \<Rightarrow> string \<Rightarrow> real \<Rightarrow> string \<Rightarrow> ('w, 'm, 'msg) inspector \<Rightarrow> ('w, 'm, 'msg) inspector \<Rightarrow> bool" where
  "answered e known sid n m i i' \<longleftrightarrow> keeps i i' \<and>
     (\<exists>events reply. sv_sent (in_server i') = sv_sent (in_server i) @ map (event (e_js e)) events @ [reply] \<and>
        answer_of (e_js e) known sid n m reply)"

lemma sent_answer:
  assumes "sends_events (e_js e) (in_server i) (in_server i1)" "keeps i i1" "sv_connected (in_server i)" "\<not> sv_syncMode (in_server i)"
    "answer_of (e_js e) known sid n m reply"
  shows "answered e known sid n m i (on_server (SendMessage reply) i1)"
proof -
  obtain events where "sv_sent (in_server i1) = sv_sent (in_server i) @ map (event (e_js e)) events" "sv_connected (in_server i1)"
    "\<not> sv_syncMode (in_server i1)" using assms(1,3,4) by (auto simp: sends_events_def)
  then have "sv_sent (in_server (on_server (SendMessage reply) i1)) = sv_sent (in_server i) @ map (event (e_js e)) events @ [reply]"
    by (simp add: on_server_def SendMessage_def)
  moreover have "keeps i (on_server (SendMessage reply) i1)" using assms(2) by (simp add: keeps_def on_server_def)
  ultimately show ?thesis using assms(5) unfolding answered_def by blast
qed

lemma handler_answers:
  assumes "(m, h) \<in> set (method_table e v p)" "h sid params i \<noteq> None" "sv_connected (in_server i)" "\<not> sv_syncMode (in_server i)"
  shows "case call_handler (e_js e) send_reply (lift_handler h) sid (Some n) params (Some i) of
    None \<Rightarrow> False | Some i' \<Rightarrow> answered e True sid n m i i'"
proof (cases "h sid params i")
  case (Some q)
  obtain r i1 where q: "q = (r, i1)" by (cases q)
  note eff = sent.handlers_R [OF assms(1) Some [unfolded q]] kept.handlers_R [OF assms(1) Some [unfolded q]]
  have ans: "answered e True sid n m i (on_server (SendMessage reply) i1)" if "answer_of (e_js e) True sid n m reply" for reply
    by (rule sent_answer [OF eff assms(3,4) that])
  have "answer_of (e_js e) True sid n m (js_build (e_js e) (reply_props sid n result))"
    "answer_of (e_js e) True sid n m (js_build (e_js e) (error_props sid n err))" for result err
    by (auto simp: answer_of_def)
  note ans = this [THEN ans]
  show ?thesis
    by (cases r; cases "projr r") (simp_all add: call_handler_def lift_handler_def Some q Reply_def ReplyError_def send_reply_def ans)
qed (use assms(2) in simp)

lemma ok_threads_wait: "in_ok e i \<Longrightarrow> threads_wait i"
  unfolding threads_wait_def in_ok_def threads_ok_def
proof (elim conjE, intro ballI, clarify)
  fix t x
  assume ok: "\<forall>(t, x)\<in>set (threads i). debugged_ok (e_mo e) x" "(t, x) \<in> set (threads i)" and s: "dt_suspended (th_dt x)"
  then have "debugged_ok (e_mo e) x" by blast
  then show "\<exists>ctx. th_pc x = Waiting ctx"
    using s by (cases "th_pc x") (auto simp: debugged_ok_def sys_ok_def thread_ok_def of_debugged_def)
qed


lemma sessions_live:
  assumes "sessions_of tid live s"
  shows "t \<in> live \<longleftrightarrow> t \<noteq> PtThread_NONE \<and> GetThreadBySessionId s (GetSessionIdByThread tid s t) = t"
proof
  have inv: "session_inv tid live s" by (rule sessions_of_inv [OF assms])
  assume t: "t \<in> live"
  then obtain k where k: "(k, t) \<in> set s" using inv by (auto simp: session_inv_def)
  have "PtThread_NONE \<notin> live" using inv by (simp add: session_inv_def)
  then have "t \<noteq> PtThread_NONE" using t by metis
  then show "t \<noteq> PtThread_NONE \<and> GetThreadBySessionId s (GetSessionIdByThread tid s t) = t"
    by (simp add: session_inv_ids [OF inv k] GetThreadBySessionId_def)
next
  assume "t \<noteq> PtThread_NONE \<and> GetThreadBySessionId s (GetSessionIdByThread tid s t) = t"
  then have e: "(GetSessionIdByThread tid s t, t) \<in> set s"
    by (auto simp: GetThreadBySessionId_def split: option.splits dest: map_of_SomeD)
  then show "t \<in> live" using sessions_of_inv [OF assms] image_eqI [OF _ e, of t snd] by (simp add: session_inv_def)
qed


section \<open>A run\<close>

text \<open>A program of one file and two threads, and a client that is connected.\<close>

definition sample_env :: "(unit, bool, props, props) env" where
  "sample_env = \<lparr>e_ops = sample_ops, e_mo = sample_managed, e_js = call_json, e_tid = (\<lambda>t. t), e_ext = sample_ext, e_special = {},
     e_pid = 1, e_GetClassName = (\<lambda>_. ''A''), e_file = (\<lambda>_. None)\<rparr>"

definition sample_view :: view where
  "sample_view = \<lparr>v_frames = [(Some sample_frame, 0)], v_current = Some sample_frame, v_unionEmpty = True, v_union = [], v_vm = 0,
     v_async = None, v_extractor = \<lparr>fx_static = None, fx_dynamic = []\<rparr>, v_restarted = False\<rparr>"

definition sample_profiler :: "props profiler" where
  "sample_profiler = \<lparr>pr_IsProfilerRunning = False, pr_StartProfilingSession = (\<lambda>_. True), pr_StopProfilingSession = None\<rparr>"

definition sample_server :: "props inspector_server" where
  "sample_server = \<lparr>sv_sessions = [], sv_sources = SourceManager_new, sv_running = True, sv_connected = True, sv_syncMode = False,
     sv_syncResponse = None, sv_sent = []\<rparr>"

definition sample_inspector :: "(unit, bool, props) inspector" where
  "sample_inspector = ThreadStart sample_env 2 () False (ThreadStart sample_env 1 () False
     (LoadModule ''app.abc'' [(sample_file, sample_extractor)] (Inspector_new \<lparr>dynamicToStatic = False, staticToDynamic = False\<rparr> sample_server)))"

lemmas sample_state_defs = sample_inspector_def ThreadStart_def LoadModule_def Inspector_new_def sample_server_def sample_env_def on_server_def
  in_assert_def CallTargetAttachedToTarget_def SendTargetAttachedToTarget_def AddSession_def DebuggableThread_new_def Let_def

lemma sample_inspector_state:
  "map fst (threads sample_inspector) = [1, 2]" "sv_connected (in_server sample_inspector)" "\<not> sv_syncMode (in_server sample_inspector)"
  "debugInfoCache sample_inspector = sample_cache"
  by (simp_all add: sample_state_defs sample_cache_def sample_file_def)

lemma sample_inspector_reach:
  "inspector_reach sample_env (Inspector_new \<lparr>dynamicToStatic = False, staticToDynamic = False\<rparr> sample_server) sample_inspector"
  unfolding sample_inspector_def
  by (intro inspector_reach.further [OF _ inspector_step.starts] inspector_reach.further [OF _ inspector_step.loads] inspector_reach.here)
    (simp_all add: sample_managed_def sample_env_def ThreadStart_def LoadModule_def Inspector_new_def on_server_def in_assert_def Let_def)

lemma sample_located: "frames_located (debugInfoCache sample_inspector) sample_view"
proof -
  have "line_index sample_table 1 \<noteq> 0"
    using line_index_spec(2) [of sample_table 0 1] by (simp add: sample_table_def)
  then show ?thesis
    by (simp add: frames_located_def sample_inspector_state sample_view_def sample_cache_def sample_frame_def sample_extractor_def
        sample_file_def GetSourceLocation_def sample_defs(6-) Let_def)
qed

lemma sample_env_ok: "managed_ok (e_mo sample_env)" "e_tid sample_env = (\<lambda>t. t)"
  using sample_managed_ok by (simp_all add: sample_env_def)



end
