(* ===== verification/Inspector_Pauses.thy ===== *)
theory Inspector_Pauses
  imports Inspector_Runs
begin

text \<open>
  From a breakpoint of the client to the event the client sees: the thread that reaches the location
  is suspended, the event names the breakpoints there, and the other threads are told to pause. And
  what a request for possible breakpoints without an end answers.
\<close>

section \<open>The paused event\<close>

lemma frames_return:
  assumes "\<forall>(f, n) \<in> set fs. \<exists>frame. f = Some frame \<and> GetSourceLocation c frame ([], [], 0) \<noteq> None"
  shows "EnumerateHybridFrames js ext sp c v (map (\<lambda>f. StaticFrame (fst f) (snd f)) fs) k r s \<noteq> None"
  using assms
proof (induction fs arbitrary: k r s)
  case (Cons p fs)
  obtain f n where p: "p = (f, n)" by (cases p)
  obtain frame loc where frame: "f = Some frame" "GetSourceLocation c frame ([], [], 0) = Some loc"
    using Cons.prems p by auto
  show ?case using Cons p frame
    by (auto simp: ProcessStaticFrame_def split: option.splits prod.splits)
qed simp

text \<open>The event of a pause, after the scripts it makes known.\<close>

definition paused_sent ::
  "('w, 'm, 'j, 'msg) env \<Rightarrow> pt_thread \<Rightarrow> BreakpointId list \<Rightarrow> remote_object option \<Rightarrow> PauseReason \<Rightarrow>
     'msg inspector_server \<Rightarrow> 'msg inspector_server \<Rightarrow> bool" where
  "paused_sent e t hits exc reason s s' \<longleftrightarrow>
     (\<exists>events frames trace. sv_sent s' = sv_sent s @ map (event (e_js e)) events @
        [event (e_js e) (GetSessionIdByThread (e_tid e) (sv_sessions s) t, ''Debugger.paused'',
           paused_props (GetSessionIdByThread (e_tid e) (sv_sessions s) t) (sv_sessions s) frames trace hits exc reason)])"

lemma CallDebuggerPaused_sends:
  assumes "sends_events (e_js e) s s1" "sv_sessions s1 = sv_sessions s" "sv_connected s" "\<not> sv_syncMode s" "frames_located c v"
  shows "\<exists>r' s'. CallDebuggerPaused (e_js e) (e_tid e) t hits exc reason (EnumerateStaticFrames (e_js e) ext sp c v 0) trace r s1 = Some (r', s') \<and>
    paused_sent e t hits exc reason s s'"
proof -
  obtain frames r' s' where fr: "EnumerateStaticFrames (e_js e) ext sp c v 0 r s1 = Some (frames, r', s')"
    using frames_return [of "v_frames v" c "e_js e" ext sp v 0 r s1] assms(5)
    by (auto simp: EnumerateStaticFrames_def frames_located_def)
  have "sends_events (e_js e) s1 s'" "same_sessions s1 s'"
    using sent.frames_S [OF fr [unfolded EnumerateStaticFrames_def]] kept.frames_S [OF fr [unfolded EnumerateStaticFrames_def]] by simp_all
  then have s': "sends_events (e_js e) s s'" "sv_sessions s' = sv_sessions s"
    using sends_events_trans [OF assms(1)] assms(2) by (auto simp: same_sessions_def)
  then obtain events where "sv_sent s' = sv_sent s @ map (event (e_js e)) events" "sv_connected s'" "\<not> sv_syncMode s'"
    using assms(3,4) by (auto simp: sends_events_def)
  moreover have "\<not> sv_syncMode s1" using assms(1,4) by (simp add: sends_events_def)
  ultimately show ?thesis using fr s'(2) assms(2)
    by (auto simp: CallDebuggerPaused_def paused_sent_def Let_def intro!: exI [of _ events] exI [of _ frames] exI [of _ trace])
qed

section \<open>A breakpoint that wants the thread\<close>

lemma breakpoint_should_stop:
  assumes "storage_reach ops s" "stable_engine ops handle cond" "breakpointsActive s" "(k, bp) \<in> set (breakpointStorage s)" "wants_stop cond l bp"
  shows "\<exists>m eng'. ShouldStopAtBreakpoint ops s l eng = Some (True, s\<lparr>breakpointStorage := m\<rparr>, eng')"
    and "k \<in> set (ThreadState_GetBreakpointsByLocation s l)"
proof -
  have inv: "storage_inv s" "caches_ok handle s" using storage_reach_inv [OF assms(1,2)] by simp_all
  have "stops_at cond s l" using assms(3-5) by (force simp: stops_at_def)
  then show "\<exists>m eng'. ShouldStopAtBreakpoint ops s l eng = Some (True, s\<lparr>breakpointStorage := m\<rparr>, eng')"
    using ShouldStopAtBreakpoint_stops [OF inv assms(2), of l eng] assms(3)
    by (auto simp: ShouldStopAtBreakpoint_def split: option.splits)
  have "entry_ok (breakpointLocations s) (nextBreakpointId s) (k, bp)" using inv(1) assms(4) by (simp add: storage_inv_def)
  moreover have "l \<in> base_locs bp" using assms(5) by (cases bp) auto
  ultimately have "(l, k) \<in> set (breakpointLocations s)" by (simp add: entry_ok_def bb.indexed_def)
  then show "k \<in> set (ThreadState_GetBreakpointsByLocation s l)"
    by (force simp: ThreadState_GetBreakpointsByLocation_def BreakpointStorage_GetBreakpointsByLocation_def ids_at_def)
qed

lemma breakpoint_pauses:
  assumes "ShouldStopAtBreakpoint ops s l eng = Some (True, s', eng')" "\<not> skipAllPauses t"
  shows "\<exists>t' h' s'' eng''. ThreadState_OnSingleStep ops l (t, h, s, eng) = Some (t', h', s'', eng'') \<and> paused t' \<and> s'' \<in> {s, s'}"
  using assms by (auto simp: ThreadState_OnSingleStep_def ThreadState_ShouldStopAtBreakpoint_def)

text \<open>What the thread that steps onto the location does.\<close>

lemma breakpoint_suspends:
  assumes "ThreadState_OnSingleStep ops l (dt_state d) = Some st" "paused (fst st)" "dt_callbacks d = []"
    "\<not> evaluating (snd (snd (snd (dt_state d))))" "\<not> paused (dt_ts d)"
    "ThreadState_GetBreakpointsByLocation (fst (snd (snd st))) l = hits"
  shows "\<exists>d'. DebuggableThread_OnSingleStep ops mo l d = Some (Waiting (AtStep l), d') \<and> dt_suspended d' \<and> dt_state d' = st \<and>
    dt_callbacks d' = [PreSuspend hits None, PostSuspend hits None (pauseReason (fst st))]"
  using assms
  by (simp add: DebuggableThread_OnSingleStep_def pause_loop_def Suspend_begin_def dt_call_def dt_assert_def Let_def)

lemma GetDebuggableThread_put [simp]: "GetDebuggableThread t (put_thread t x i) = Some x"
  by (simp add: GetDebuggableThread_def put_thread_def update_conv)

definition told_to_pause :: "('w, 'm) debugged \<Rightarrow> bool" where
  "told_to_pause x \<longleftrightarrow> paused (dt_ts (th_dt x)) \<or> skipAllPauses (dt_ts (th_dt x)) \<or> stepKind (dt_ts (th_dt x)) = SK_PAUSE"

text \<open>The thread \<open>t\<close> waits where it was suspended, and the other threads are told to pause.\<close>

definition stopped_at :: "(pt_thread \<Rightarrow> nat) \<Rightarrow> pt_thread \<Rightarrow> pt_location \<Rightarrow> ('w, 'm, 'msg) inspector \<Rightarrow> bool" where
  "stopped_at tid t l i \<longleftrightarrow>
     (case GetDebuggableThread t i of None \<Rightarrow> False | Some x \<Rightarrow> th_pc x = Waiting (AtStep l) \<and> dt_suspended (th_dt x)) \<and>
     (\<forall>(t', x) \<in> set (threads i). tid t' = tid t \<or> told_to_pause x)"

lemma stopped_after_pause:
  assumes "GetDebuggableThread t i = Some x" "th_pc x = Waiting (AtStep l)" "dt_suspended (th_dt x)"
  shows "stopped_at tid t l (PauseOtherThreads tid t i)"
proof -
  have "map_of (map (\<lambda>(t', x). if tid t' = tid t then (t', x) else (t', x\<lparr>th_dt := DebuggableThread_Pause (th_dt x)\<rparr>)) xs) t = map_of xs t"
    for xs :: "(pt_thread \<times> ('a, 'b) debugged) list"
    by (induction xs) auto
  then have "GetDebuggableThread t (PauseOtherThreads tid t i) = Some x"
    using assms(1) by (simp add: GetDebuggableThread_def PauseOtherThreads_def)
  moreover have "told_to_pause (y\<lparr>th_dt := DebuggableThread_Pause (th_dt y)\<rparr>)" for y :: "('a, 'b) debugged"
    by (simp add: told_to_pause_def DebuggableThread_Pause_def dt_update_def ThreadState_Pause_def split: prod.split)
  moreover have "\<forall>(t', y) \<in> set (threads (PauseOtherThreads tid t i)). tid t' = tid t \<or> told_to_pause y"
    using calculation(2) by (auto simp: PauseOtherThreads_def split: if_splits)
  ultimately show ?thesis using assms(2,3) by (simp add: stopped_at_def)
qed

lemma set_repository_thread:
  "GetDebuggableThread t i = Some x \<Longrightarrow> GetDebuggableThread t (set_repository t r i) = Some (x\<lparr>th_repository := r\<rparr>)"
  by (simp add: set_repository_def)

text \<open>The callback of the suspension, for a pause at breakpoints.\<close>

lemma PostSuspend_stops:
  assumes "sv_connected (in_server i)" "\<not> sv_syncMode (in_server i)" "v_unionEmpty v" "frames_located (debugInfoCache i) v"
    and "GetDebuggableThread t i = Some x" "th_pc x = Waiting (AtStep l)" "dt_suspended (th_dt x)" "hits \<noteq> []"
  shows "case DebuggableThreadPostSuspend e v t hits None reason i of None \<Rightarrow> False
    | Some i' \<Rightarrow> stopped_at (e_tid e) t l i' \<and> paused_sent e t hits None reason (in_server i) (in_server i')"
proof -
  obtain trace s1 where tr: "(case v_async v of None \<Rightarrow> (None, in_server i)
      | Some segments \<Rightarrow> CreateAsyncStackTrace (e_js e) (resolveAsyncFrame (debugInfoCache i)) segments (in_server i)) = (trace, s1)"
    by fastforce
  have s1: "sends_events (e_js e) (in_server i) s1" "same_sessions (in_server i) s1"
    using sent.async_segments_S [of e "in_server i" "resolveAsyncFrame (debugInfoCache i)"]
      kept.async_segments_S [of "in_server i" e "resolveAsyncFrame (debugInfoCache i)"] tr
    by (auto simp: CreateAsyncStackTrace_def split: option.splits) (metis snd_conv)+
  obtain r' s' where p: "CallDebuggerPaused (e_js e) (e_tid e) t hits None reason
      (EnumerateStaticFrames (e_js e) (e_ext e) (e_special e) (debugInfoCache i) v 0) trace ObjectRepository_new s1 = Some (r', s')"
    and sent: "paused_sent e t hits None reason (in_server i) s'"
    using CallDebuggerPaused_sends [OF s1(1) s1(2) [unfolded same_sessions_def] assms(1,2,4)] by blast
  have "GetDebuggableThread t (set_repository t r' (i\<lparr>in_server := s'\<rparr>)) = Some (x\<lparr>th_repository := r'\<rparr>)"
    by (rule set_repository_thread) (use assms(5) in \<open>simp add: GetDebuggableThread_def\<close>)
  from stopped_after_pause [OF this] have "stopped_at (e_tid e) t l (PauseOtherThreads (e_tid e) t (set_repository t r' (i\<lparr>in_server := s'\<rparr>)))"
    using assms(6,7) by simp
  moreover have "in_server (PauseOtherThreads (e_tid e) t (set_repository t r' (i\<lparr>in_server := s'\<rparr>))) = s'"
    by (simp add: PauseOtherThreads_def set_repository_def put_thread_def split: option.split)
  moreover have "DebuggableThreadPostSuspend e v t hits None reason i = Some (PauseOtherThreads (e_tid e) t (set_repository t r' (i\<lparr>in_server := s'\<rparr>)))"
    using assms(3,8) p unfolding DebuggableThreadPostSuspend_def tr Let_def by simp
  ultimately show ?thesis using sent by simp
qed

lemma breakpoint_step:
  assumes "DebuggableThread_OnSingleStep (e_ops e) (e_mo e) l (shared_in i (th_dt x)) = Some (Waiting (AtStep l), d)" "dt_suspended d"
    "dt_callbacks d = [PreSuspend hits None, PostSuspend hits None reason]" "hits \<noteq> []"
    and "sv_connected (in_server i)" "\<not> sv_syncMode (in_server i)" "v_unionEmpty v" "frames_located (debugInfoCache i) v"
    and "GetDebuggableThread t i = Some x"
  shows "case on_thread e v t (\<lambda>pc d. DebuggableThread_OnSingleStep (e_ops e) (e_mo e) l d) i of None \<Rightarrow> False
    | Some i' \<Rightarrow> stopped_at (e_tid e) t l i' \<and> paused_sent e t hits None reason (in_server i) (in_server i')"
proof -
  define x' where "x' = x\<lparr>th_pc := Waiting (AtStep l), th_dt := d\<lparr>dt_callbacks := []\<rparr>\<rparr>"
  define i1 where "i1 = put_thread t x' (shared_out d i)"
  have i1: "in_server i1 = in_server i" "debugInfoCache i1 = debugInfoCache i" "GetDebuggableThread t i1 = Some x'"
    by (simp_all add: i1_def shared_out_def put_thread_def GetDebuggableThread_def update_conv split: prod.split)
  have "case DebuggableThreadPostSuspend e v t hits None reason i1 of None \<Rightarrow> False
    | Some i' \<Rightarrow> stopped_at (e_tid e) t l i' \<and> paused_sent e t hits None reason (in_server i) (in_server i')"
    unfolding i1(1) [symmetric] by (rule PostSuspend_stops [OF _ _ _ _ i1(3)]) (use i1 assms(2,4-8) in \<open>simp_all add: x'_def\<close>)
  moreover have "on_thread e v t (\<lambda>pc d. DebuggableThread_OnSingleStep (e_ops e) (e_mo e) l d) i =
      deliver e v t [PreSuspend hits None, PostSuspend hits None reason] i1"
    by (simp add: on_thread_def assms(1,3,9) i1_def x'_def)
  ultimately show ?thesis
    by (cases "DebuggableThreadPostSuspend e v t hits None reason i1") simp_all
qed

lemma in_ok_thread: "in_ok e i \<Longrightarrow> GetDebuggableThread t i = Some x \<Longrightarrow> debugged_ok (e_mo e) x"
  unfolding in_ok_def threads_ok_def GetDebuggableThread_def by (drule map_of_SomeD) blast


section \<open>Possible breakpoints\<close>

text \<open>
  C39. A request for the possible breakpoints from a location on, without an end, is answered with no
  location at all, whatever lines the script has: the end that stands for none is -1 as a signed number.
\<close>

theorem possible_breakpoints_without_end:
  assumes "Location_FromJsonProperty (e_js e) params ''start'' = Inr start" "0 \<le> l_lineNumber start"
    and "Location_FromJsonProperty (e_js e) params ''end'' = Inl err"
  shows "map_option fst (OnCallDebuggerGetPossibleBreakpoints e sid params i) = Some (Inr (Some (PossibleBreakpointsResponse_Serialize [])))"
proof -
  have "GetValidLineNumbers c f ident (l_lineNumber start) (-1) b = {}" for c f ident b
    using GetValidLineNumbers_subset [of _ c f ident "l_lineNumber start" "-1" b] assms(2) by fastforce
  then show ?thesis using assms(1,3)
    by (simp add: OnCallDebuggerGetPossibleBreakpoints_def GetPossibleBreakpoints_def unless_dead_def CheckVmDead_def int32_of_def Let_def)
qed

section \<open>A breakpoint is set and reached\<close>

text \<open>The first thread enters the file, a thread the inspector does not know steps in it, and the client sets a
  breakpoint on its third line.\<close>

definition sample_entered :: "(unit, bool, props) inspector" where
  "sample_entered = (case MethodEntry sample_env sample_view 1 (fr_method sample_frame) False sample_inspector of
     Some i \<Rightarrow> i | None \<Rightarrow> sample_inspector)"

definition sample_stepped :: "(unit, bool, props) inspector" where
  "sample_stepped = sample_entered\<lparr>sourceFiles := [(''a.ets'', False)]\<rparr>"

definition sample_params :: props where
  "sample_params = [(''lineNumber'', JInt 2), (''url'', JStr ''a.ets'')]"

definition sample_message :: props where
  "sample_message = [(''id'', JDouble 1), (''method'', JStr ''Debugger.setBreakpointByUrl''), (''params'', JObj sample_params)]"

definition sample_break :: "(unit, bool, props) inspector" where
  "sample_break = (case HandleMessage sample_env sample_view sample_profiler sample_message sample_stepped of
     Some i \<Rightarrow> i | None \<Rightarrow> sample_stepped)"

lemmas enter_defs = MethodEntry_def GetDebuggableThread_def GetUserSourceFile_def call_thread_def on_thread_def shared_in_def
  shared_out_def put_thread_def DebuggableThread_BreakOnStart_def ThreadState_BreakOnStart_def ThreadState_new_def dt_update_def
  DebuggableThread_OnMethodEntry_def ThreadState_OnMethodEntry_def

lemma sample_entered_state:
  "MethodEntry sample_env sample_view 1 (fr_method sample_frame) False sample_inspector = Some sample_entered"
  "GetDebuggableThread 2 sample_entered = GetDebuggableThread 2 sample_inspector" "runs 1 sample_inspector"
  "debugInfoCache sample_entered = sample_cache" "in_storage sample_entered = BreakpointStorage_new"
  "in_server sample_entered = in_server sample_inspector" "sourceFiles sample_entered = [(''a.ets'', True)]" "isVmDead sample_entered = False"
  "runs 7 sample_entered" "GetDebuggableThread 7 sample_entered = None"
  by (simp_all add: sample_entered_def enter_defs sample_state_defs sample_defs runs_def)

lemma sample_user_file: "GetUserSourceFile sample_cache (fr_method sample_frame) = Some ''a.ets''"
  by (simp add: GetUserSourceFile_def sample_defs)

lemma sample_stepped_step:
  "SingleStep sample_env sample_view 7 (fr_method sample_frame) (location_of sample_file 7 0) sample_entered = Some sample_stepped"
  using sample_entered_state(10)
  by (simp add: SingleStep_def sample_stepped_def on_thread_def sample_entered_state sample_user_file GetDebuggableThread_def)

lemma sample_stepped_reach:
  "inspector_reach sample_env (Inspector_new \<lparr>dynamicToStatic = False, staticToDynamic = False\<rparr> sample_server) sample_stepped"
  by (intro inspector_reach.further [OF inspector_reach.further [OF sample_inspector_reach
      inspector_step.enters [OF sample_entered_state(3,1)]] inspector_step.steps [OF sample_entered_state(9) sample_stepped_step]])

definition sample_breakpoint :: storage where
  "sample_breakpoint = snd (snd (BreakpointStorage_SetBreakpoint (GetUrlFileFilter ''a.ets'') 3 None sample_cache BreakpointStorage_new))"

lemma sample_breakpoint_eval:
  "fst (BreakpointStorage_SetBreakpoint (GetUrlFileFilter ''a.ets'') 3 None sample_cache BreakpointStorage_new) = Some 0"
  "breakpointStorage sample_breakpoint = [(0, Breakpoint \<lparr>bp_id = 0, bp_resolved = True, bp_locations = [location_of sample_file 7 0],
     bp_sourceFileFilter = GetUrlFileFilter ''a.ets'', bp_lineNumber = 3, bp_isUrlPattern = True\<rparr>)]"
  "breakpointsActive sample_breakpoint"
  by (simp_all add: sample_breakpoint_def sample_storage_defs sample_defs Let_def GetUrlFileFilter_def IsPathEqual_def FILE_PREFIX_def)

lemma sample_request:
  "UrlBreakpointRequest_FromJson (e_js sample_env) sample_params =
     Inr \<lparr>rq_lineNumber = 3, rq_url = Some ''a.ets'', rq_urlRegex = None, rq_condition = None\<rparr>"
  by (simp add: UrlBreakpointRequest_FromJson_def sample_params_def sample_env_def call_json_def ParseSizeProperty_def int32_of_def DBL_EPSILON_def)

lemma sample_handler:
  obtains r srv where "OnCallDebuggerSetBreakpointByUrl sample_env sid sample_params sample_stepped =
    Some (Inr (Some r), sample_stepped\<lparr>in_storage := sample_breakpoint, in_server := srv\<rparr>)"
proof -
  obtain files where s: "BreakpointStorage_SetBreakpoint (GetUrlFileFilter ''a.ets'') 3 None sample_cache BreakpointStorage_new =
      (Some 0, files, sample_breakpoint)"
    using sample_breakpoint_eval(1) unfolding sample_breakpoint_def by (metis prod.collapse)
  obtain locs srv where "AddLocations (e_js sample_env) files 3 (in_server sample_stepped) = (locs, srv)" by fastforce
  then have "OnCallDebuggerSetBreakpointByUrl sample_env sid sample_params sample_stepped =
      Some (Inr (Some (UrlBreakpointResponse_Serialize \<lparr>ur_breakpointId = 0, ur_locations = locs\<rparr>)),
        sample_stepped\<lparr>in_storage := sample_breakpoint, in_server := srv\<rparr>)"
    using s by (simp add: OnCallDebuggerSetBreakpointByUrl_def sample_request SetBreakpointByUrl_def Inspector_SetBreakpoint_def unless_dead_def
        CheckVmDead_def sample_stepped_def sample_entered_state breakpoint_condition_def)
  then show thesis by (rule that)
qed

lemma sample_break_eq:
  obtains out srv where "HandleMessage sample_env sample_view sample_profiler sample_message sample_stepped = Some sample_break"
    "sample_break = on_server (SendMessage out) (sample_stepped\<lparr>in_storage := sample_breakpoint, in_server := srv\<rparr>)"
    "sends_events (e_js sample_env) (in_server sample_stepped) srv"
proof -
  obtain r srv where h: "OnCallDebuggerSetBreakpointByUrl sample_env [] sample_params sample_stepped =
      Some (Inr (Some r), sample_stepped\<lparr>in_storage := sample_breakpoint, in_server := srv\<rparr>)" by (rule sample_handler)
  have table: "map_of (method_table sample_env sample_view sample_profiler) ''Debugger.setBreakpointByUrl'' =
      Some (OnCallDebuggerSetBreakpointByUrl sample_env)" by (simp add: method_table_def)
  have m: "js_parse (e_js sample_env) sample_message = Some sample_message"
    "js_string (e_js sample_env) sample_message ''method'' = Some ''Debugger.setBreakpointByUrl''"
    "js_object (e_js sample_env) sample_message ''result'' = None" "js_num (e_js sample_env) sample_message ''id'' = Some 1"
    "js_string (e_js sample_env) sample_message ''sessionId'' = None" "js_object (e_js sample_env) sample_message ''params'' = Some sample_params"
    by (simp_all add: sample_env_def call_json_def sample_message_def)
  have run: "HandleMessage sample_env sample_view sample_profiler sample_message sample_stepped =
      Some (on_server (SendMessage (js_build (e_js sample_env) (reply_props [] 1 r)))
        (sample_stepped\<lparr>in_storage := sample_breakpoint, in_server := srv\<rparr>))"
    by (simp add: HandleMessage_method [OF m(1-3)] m table call_handler_def lift_handler_def h Reply_def send_reply_def)
  then have "sample_break = on_server (SendMessage (js_build (e_js sample_env) (reply_props [] 1 r)))
      (sample_stepped\<lparr>in_storage := sample_breakpoint, in_server := srv\<rparr>)" by (simp add: sample_break_def)
  moreover have "sends_events (e_js sample_env) (in_server sample_stepped) srv"
    using sent.handlers_R [OF map_of_SomeD [OF table] h] by simp
  ultimately show thesis using that run by metis
qed

lemma connected_same: "sv_connected (in_server i) \<Longrightarrow> on_server (\<lambda>s. s\<lparr>sv_connected := True\<rparr>) i = i"
proof -
  assume c: "sv_connected (in_server i)"
  have "s\<lparr>sv_connected := True\<rparr> = s" if "sv_connected s" for s :: "'c inspector_server" using that by (cases s) simp
  then show ?thesis using c by (simp add: on_server_def)
qed

lemma sample_break_state:
  "HandleMessage sample_env sample_view sample_profiler sample_message sample_stepped = Some sample_break"
  "sv_connected (in_server sample_break)" "\<not> sv_syncMode (in_server sample_break)" "in_storage sample_break = sample_breakpoint"
  "debugInfoCache sample_break = sample_cache" "sourceFiles sample_break = [(''a.ets'', False)]"
  "GetDebuggableThread 2 sample_break = GetDebuggableThread 2 sample_inspector"
proof -
  obtain out srv where i: "HandleMessage sample_env sample_view sample_profiler sample_message sample_stepped = Some sample_break"
    "sample_break = on_server (SendMessage out) (sample_stepped\<lparr>in_storage := sample_breakpoint, in_server := srv\<rparr>)"
    "sends_events (e_js sample_env) (in_server sample_stepped) srv" by (rule sample_break_eq)
  show "HandleMessage sample_env sample_view sample_profiler sample_message sample_stepped = Some sample_break" by (rule i(1))
  have "in_server sample_stepped = in_server sample_inspector" by (simp add: sample_stepped_def sample_entered_state)
  then have "sv_connected srv" "\<not> sv_syncMode srv" using i(3) sample_inspector_state(2,3) by (simp_all add: sends_events_def)
  then show "sv_connected (in_server sample_break)" "\<not> sv_syncMode (in_server sample_break)" by (simp_all add: i(2) on_server_def SendMessage_def)
  show "in_storage sample_break = sample_breakpoint" "debugInfoCache sample_break = sample_cache" "sourceFiles sample_break = [(''a.ets'', False)]"
    by (simp_all add: i(2) on_server_def sample_stepped_def sample_entered_state)
  have "threads sample_break = threads sample_entered" by (simp add: i(2) on_server_def sample_stepped_def)
  then show "GetDebuggableThread 2 sample_break = GetDebuggableThread 2 sample_inspector"
    using sample_entered_state(2) by (simp add: GetDebuggableThread_def)
qed

lemma sample_break_reach:
  "inspector_reach sample_env (Inspector_new \<lparr>dynamicToStatic = False, staticToDynamic = False\<rparr> sample_server) sample_break"
proof (rule inspector_reach.further [OF sample_stepped_reach inspector_step.message])
  have "sv_connected (in_server sample_stepped)" using sample_inspector_state(2) by (simp add: sample_stepped_def sample_entered_state)
  then show "OhosWsServer_ParseMessage sample_env sample_view sample_profiler True True sample_message sample_stepped = Some (True, sample_break)"
    by (simp add: OhosWsServer_ParseMessage_def connected_same sample_break_state(1))
qed


theorem possible_breakpoints_without_end_witness:
  "map_option fst (OnCallDebuggerGetPossibleBreakpoints sample_env []
     [(''start'', JObj [(''scriptId'', JStr ''0''), (''lineNumber'', JInt 2)])] sample_inspector) =
   Some (Inr (Some (PossibleBreakpointsResponse_Serialize [])))"
  by (rule possible_breakpoints_without_end [where start = "Location 0 3"])
    (simp_all add: sample_env_def call_json_def Location_FromJsonProperty_def ParseNumericId_def ParseSizeProperty_def Location_def
      int32_of_def DBL_EPSILON_def std_isdigit_def dec_value_def digit_value_def SIZE_MAX_def)

end
