(* ===== verification/Suspend_Locks.thy ===== *)
theory Suspend_Locks
  imports Inspector_Pauses
begin

text \<open>
  The mutexes of the debugged threads while breakpoints are hit (tooling/static/debugger/
  debuggable_thread.cpp, tooling/static/inspector.cpp). \<^verbatim>\<open>OnSingleStep\<close> takes the mutex of its thread and keeps it
  through the callback of the suspension, which for a breakpoint is \<^verbatim>\<open>PauseOtherThreads\<close>: it calls \<^verbatim>\<open>Pause\<close>
  on one thread after the other, and \<^verbatim>\<open>Pause\<close> takes that thread's mutex.
\<close>

section \<open>Who holds what\<close>

text \<open>Where an application thread is: outside its hook, in the callback with its own mutex and the
  threads it has still to pause, or waiting with its mutex released.\<close>

datatype lock_pc = Outside | InPostSuspend "pt_thread list" | InWaitSuspension

record lock_state =
  lk_owner :: "pt_thread \<Rightarrow> pt_thread option"
  lk_pc :: "pt_thread \<Rightarrow> lock_pc"

definition locks_new :: lock_state where
  "locks_new = \<lparr>lk_owner = (\<lambda>_. None), lk_pc = (\<lambda>_. Outside)\<rparr>"

text \<open>Up to the callback, for a step onto a breakpoint: \<open>None\<close> while the mutex is another's. \<open>ts\<close> are the threads
  of the inspector, in the order of its map.\<close>

definition OnSingleStep_locks :: "(pt_thread \<Rightarrow> nat) \<Rightarrow> pt_thread list \<Rightarrow> pt_thread \<Rightarrow> lock_state \<Rightarrow> lock_state option" where
  "OnSingleStep_locks tid ts t s =
     (if lk_pc s t = Outside \<and> lk_owner s t = None
      then Some (s\<lparr>lk_owner := (lk_owner s)(t := Some t), lk_pc := (lk_pc s)(t := InPostSuspend (filter (\<lambda>u. tid u \<noteq> tid t) ts))\<rparr>)
      else None)"

text \<open>One round of the loop of \<^verbatim>\<open>PauseOtherThreads\<close>: \<^verbatim>\<open>Pause\<close> holds the mutex of the other thread only for itself.\<close>

definition PauseOtherThreads_round :: "pt_thread \<Rightarrow> lock_state \<Rightarrow> lock_state option" where
  "PauseOtherThreads_round t s =
     (case lk_pc s t of
        InPostSuspend (u # us) \<Rightarrow> if lk_owner s u = None then Some (s\<lparr>lk_pc := (lk_pc s)(t := InPostSuspend us)\<rparr>) else None
      | _ \<Rightarrow> None)"

text \<open>The loop of \<^verbatim>\<open>Suspend\<close>: the mutex is released for the wait, and taken again when the thread was resumed.\<close>

definition Suspend_unlocks :: "pt_thread \<Rightarrow> lock_state \<Rightarrow> lock_state option" where
  "Suspend_unlocks t s =
     (if lk_pc s t = InPostSuspend [] then Some (s\<lparr>lk_owner := (lk_owner s)(t := None), lk_pc := (lk_pc s)(t := InWaitSuspension)\<rparr>)
      else None)"

definition Suspend_returns :: "pt_thread \<Rightarrow> lock_state \<Rightarrow> lock_state option" where
  "Suspend_returns t s =
     (if lk_pc s t = InWaitSuspension \<and> lk_owner s t = None then Some (s\<lparr>lk_pc := (lk_pc s)(t := Outside)\<rparr>) else None)"

text \<open>A thread that was only touched is still paused and is suspended again.\<close>

definition Suspend_again :: "(pt_thread \<Rightarrow> nat) \<Rightarrow> pt_thread list \<Rightarrow> pt_thread \<Rightarrow> lock_state \<Rightarrow> lock_state option" where
  "Suspend_again tid ts t s =
     (if lk_pc s t = InWaitSuspension \<and> lk_owner s t = None
      then Some (s\<lparr>lk_owner := (lk_owner s)(t := Some t), lk_pc := (lk_pc s)(t := InPostSuspend (filter (\<lambda>u. tid u \<noteq> tid t) ts))\<rparr>)
      else None)"

text \<open>A command of the server on the thread \<open>t\<close> takes its mutex, too.\<close>

definition server_call_locks :: "pt_thread \<Rightarrow> lock_state \<Rightarrow> lock_state option" where
  "server_call_locks t s = (if lk_owner s t = None then Some s else None)"

inductive locks_reach :: "(pt_thread \<Rightarrow> nat) \<Rightarrow> pt_thread list \<Rightarrow> lock_state \<Rightarrow> lock_state \<Rightarrow> bool" for tid ts s where
  here: "locks_reach tid ts s s"
| hits: "locks_reach tid ts s s' \<Longrightarrow> t \<in> set ts \<Longrightarrow> OnSingleStep_locks tid ts t s' = Some s'' \<Longrightarrow> locks_reach tid ts s s''"
| pauses: "locks_reach tid ts s s' \<Longrightarrow> t \<in> set ts \<Longrightarrow> PauseOtherThreads_round t s' = Some s'' \<Longrightarrow> locks_reach tid ts s s''"
| unlocks: "locks_reach tid ts s s' \<Longrightarrow> t \<in> set ts \<Longrightarrow> Suspend_unlocks t s' = Some s'' \<Longrightarrow> locks_reach tid ts s s''"
| returns: "locks_reach tid ts s s' \<Longrightarrow> t \<in> set ts \<Longrightarrow> Suspend_returns t s' = Some s'' \<Longrightarrow> locks_reach tid ts s s''"
| again: "locks_reach tid ts s s' \<Longrightarrow> t \<in> set ts \<Longrightarrow> Suspend_again tid ts t s' = Some s'' \<Longrightarrow> locks_reach tid ts s s''"
| calls: "locks_reach tid ts s s' \<Longrightarrow> t \<in> set ts \<Longrightarrow> server_call_locks t s' = Some s'' \<Longrightarrow> locks_reach tid ts s s''"

lemmas lock_defs = OnSingleStep_locks_def PauseOtherThreads_round_def Suspend_unlocks_def Suspend_returns_def Suspend_again_def server_call_locks_def

section \<open>Two breakpoints at once\<close>

text \<open>Each of the two holds its mutex and waits for the other's.\<close>

definition locked_out :: "pt_thread \<Rightarrow> pt_thread \<Rightarrow> lock_state \<Rightarrow> bool" where
  "locked_out t u s \<longleftrightarrow> lk_owner s t = Some t \<and> lk_owner s u = Some u \<and> lk_pc s t = InPostSuspend [u] \<and> lk_pc s u = InPostSuspend [t]"

lemma locked_out_stays:
  assumes "locks_reach tid ts s s'" "locked_out t u s"
  shows "locked_out t u s'"
  using assms by induction (auto simp: locked_out_def lock_defs split: if_splits lock_pc.splits list.splits)

text \<open>
  C40. Two threads that reach breakpoints at the same time lock each other out. Of a program with two
  threads, there is a run in which each has taken its mutex and is to pause the other; and from there on,
  whatever the threads and the server do, neither gets on, neither is waiting for the debugger, and no
  command of the server on either of them gets the mutex.
\<close>

theorem breakpoints_deadlock:
  assumes "tid t \<noteq> tid u"
  shows "\<exists>s. locks_reach tid [t, u] locks_new s \<and> lk_pc s t = InPostSuspend [u] \<and> lk_pc s u = InPostSuspend [t] \<and>
    (\<forall>s'. locks_reach tid [t, u] s s' \<longrightarrow>
       lk_pc s' t = InPostSuspend [u] \<and> lk_pc s' u = InPostSuspend [t] \<and> server_call_locks t s' = None \<and> server_call_locks u s' = None)"
proof -
  let ?s1 = "locks_new\<lparr>lk_owner := (\<lambda>_. None)(t := Some t), lk_pc := (\<lambda>_. Outside)(t := InPostSuspend [u])\<rparr>"
  let ?s = "?s1\<lparr>lk_owner := (\<lambda>_. None)(t := Some t, u := Some u), lk_pc := (\<lambda>_. Outside)(t := InPostSuspend [u], u := InPostSuspend [t])\<rparr>"
  have "t \<noteq> u" using assms by auto
  have "OnSingleStep_locks tid [t, u] t locks_new = Some ?s1" using assms by (simp add: OnSingleStep_locks_def locks_new_def)
  from locks_reach.hits [OF locks_reach.here _ this] have "locks_reach tid [t, u] locks_new ?s1" by simp
  moreover have "OnSingleStep_locks tid [t, u] u ?s1 = Some ?s" using assms \<open>t \<noteq> u\<close> by (simp add: OnSingleStep_locks_def)
  ultimately have reach: "locks_reach tid [t, u] locks_new ?s" using locks_reach.hits [of tid "[t, u]" locks_new ?s1 u ?s] by simp
  have out: "locked_out t u ?s" using \<open>t \<noteq> u\<close> by (simp add: locked_out_def)
  have "\<forall>s'. locks_reach tid [t, u] ?s s' \<longrightarrow>
       lk_pc s' t = InPostSuspend [u] \<and> lk_pc s' u = InPostSuspend [t] \<and> server_call_locks t s' = None \<and> server_call_locks u s' = None"
    using locked_out_stays [OF _ out] by (auto simp: locked_out_def server_call_locks_def)
  then show ?thesis using reach out unfolding locked_out_def by blast
qed

theorem breakpoints_deadlock_witness:
  "\<exists>s. locks_reach (\<lambda>t. t) [1, 2] locks_new s \<and> lk_pc s 1 = InPostSuspend [2] \<and> lk_pc s 2 = InPostSuspend [1]"
  using breakpoints_deadlock [of "\<lambda>t. t" 1 2] by auto

end
