(* ===== verification/Spec2Isabelle.thy ===== *)
theory Spec2Isabelle
  imports Ws_Session Ws_Lifecycle Ws_Concurrent Debuggable_Thread Suspend_Locks
begin

text \<open>
  Verification of the ArkCompiler toolchain: its websocket library and the debugger of its static runtime.

  \<^bold>\<open>The program.\<close> A debugging client talks to the runtime over a websocket. \<^verbatim>\<open>src/websocket\<close> has the frames, the
  HTTP upgrade, the server and the client. \<^verbatim>\<open>src/tooling/static\<close> has the debugger behind it: messages are
  JSON-RPC calls (\<^verbatim>\<open>connection\<close>), which \<^verbatim>\<open>InspectorServer\<close> translates to and from the types of the protocol
  (\<^verbatim>\<open>types\<close>) and \<^verbatim>\<open>Inspector\<close> carries out on the threads of the program (\<^verbatim>\<open>debugger\<close>); the runtime calls the
  inspector's hooks when a thread starts, ends, enters a method, steps, throws or leaves a frame.
  \<^verbatim>\<open>src/tooling/hybrid_step\<close> is what the static and the dynamic debugger share.

  \<^bold>\<open>The theories\<close>, bottom up. A class is a record, a method a function on it that returns the new
  record, and the definitions keep the names of the source, with the class in front where two would clash. \<open>None\<close>
  stands for behaviour the source leaves undefined (an empty optional or a missing map entry that is
  dereferenced, a conversion out of range) and for a wait that nothing ends.

  \<^item> \<open>Prelude\<close>, \<open>Std_String\<close>, \<open>Std_Number\<close>: lists, bytes, the parts of the C++ library the sources use, among them
    the regular expressions of the origin check by derivatives.
  \<^item> \<open>Network\<close> (network.cpp): a descriptor's stream delivers its bytes in arbitrary chunks; \<open>Recv\<close> and \<open>Send\<close>
    are exact (C12, C13).
  \<^item> \<open>Ws_Frame\<close> (web_socket_frame.h, frame_builder.cpp), \<open>Http\<close> (http.cpp), \<open>Handshake\<close> (handshake_helper.cpp):
    headers read back (C16), the origin check and the decoder of requests (C14, C15), the upgrade message in
    its buffer (C17, C18).
  \<^item> \<open>Ws_Base\<close>, \<open>Ws_Server\<close>, \<open>Ws_Client\<close> (websocket_base.cpp, server/, client/): connection states, sending,
    decoding, closing. The virtual functions of the base are a locale with the two ends as its interpretations.
  \<^item> \<open>Ws_Session\<close>: both ends together. The handshake completes (C1), messages arrive unchanged both ways
    (C2, C3), pings are answered (C4), and two kinds of frame desynchronise the server (C5, C6).
  \<^item> \<open>Ws_Lifecycle\<close>: every sequence of calls of the server, with the descriptors it owns (C7, C8).
  \<^item> \<open>Ws_Concurrent\<close>: \<^verbatim>\<open>AcceptNewConnection\<close>, \<^verbatim>\<open>Close\<close> and \<^verbatim>\<open>CloseConnection\<close> from different threads, one step
    per access to shared state (C9 to C11).
  \<^item> \<open>Base64\<close> (pt_base64.cpp, evaluation/base64.h): C19 to C22.
  \<^item> \<open>Debug_Info\<close> (debug_info_cache.cpp): the locations of lines and the lines of locations (C23).
  \<^item> \<open>Breakpoints\<close> (breakpoint*.cpp, conditional_breakpoint.cpp, evaluation_engine.cpp): both kinds of
    breakpoint implement one locale; the storage with its index answers as a scan of the breakpoints would (C24 to C26).
  \<^item> \<open>Thread_State\<close> (thread_state.cpp): the step commands against a reference that knows the depth of the call
    stack (C27).
  \<^item> \<open>Debuggable_Thread\<close> (debuggable_thread.cpp): the application thread and the server thread interleaved at the
    mutex; assertions hold and requests through the paused thread are answered (C28 to C30).
  \<^item> \<open>Sessions\<close> (session_manager.cpp, source_manager.cpp): C31, C32.
  \<^item> \<open>Json_Rpc\<close> (connection/, jrpc_error.cpp), \<open>Protocol_Types\<close> (types/), \<open>Remote_Objects\<close> (object_repository.cpp,
    remote_object.cpp and previews), \<open>Hybrid_Frames\<close> (hybrid_step/, static_frame_provider.cpp): C33 to C35.
  \<^item> \<open>Inspector_Events\<close>, \<open>Inspector\<close>, \<open>Inspector_Server\<close> (inspector.cpp, inspector_server.cpp): the events, the
    hooks and commands, and the handlers of the protocol's methods with their table.
  \<^item> \<open>Inspector_Laws\<close>: a locale for relations between inspectors that the elementary changes respect; every
    handler respects them. It is interpreted with the messages sent, with what a command keeps, and, in
    \<open>Inspector_Runs\<close>, with the invariant of the threads.
  \<^item> \<open>Inspector_Answers\<close>: no handler but the one of the sampling interval reaches undefined behaviour.
  \<^item> \<open>Inspector_Runs\<close>: runs of hooks and messages; every request is answered (C36) and the invariant of the
    inspector holds (C37).
  \<^item> \<open>Inspector_Pauses\<close>: from a breakpoint of the client to the paused event (C38), and the possible
    breakpoints of an open range (C39).
  \<^item> \<open>Suspend_Locks\<close>: the mutexes of the threads while breakpoints are hit, and a deadlock (C40).

  \<^bold>\<open>What is assumed.\<close> Code outside the repository is a parameter: the system calls, OpenSSL, the JSON library,
  the file reader, the class linker, the language extension, the evaluation of bytecode and the suspension of
  managed threads. What is relied on is stated where it is used: \<open>json_ok\<close> (what is printed is
  read back), \<open>stable_engine\<close> (a condition always has the same answer), \<open>managed_ok\<close> (a suspended
  thread is suspended until it is resumed) and the lengths of digests. Each has an instance in the witnesses.

  \<^bold>\<open>Bounds.\<close> Integers have the widths of the source where they are computed with (\<open>u8\<close> to \<open>u64\<close>, \<open>int32_of\<close>);
  sizes of containers and the counters that cannot reach their limit in memory are natural numbers. Loops
  are recursion on their data. No fuel is used.

  \<^bold>\<open>Not modelled.\<close> The dynamic debugger (\<^verbatim>\<open>src/tooling/dynamic\<close>, base64 apart): its agents and backends are
  calls of the ecmascript runtime, which is not in the repository, its \<^verbatim>\<open>pt_*\<close> files convert that runtime's values field
  by field, and its client is a terminal program on libuv. \<^verbatim>\<open>src/inspector\<close>, \<^verbatim>\<open>src/platform\<close>, \<^verbatim>\<open>src/common\<close>: loading of
  libraries, threads around the server, log files. In \<^verbatim>\<open>src/tooling/static\<close>: start-up, the adaptor of a
  third-party websocket library, the rows of the sampling profiler and the mixed native stack. Logging is left out
  throughout. A hook and a command of the inspector are one step each; the data race on \<^verbatim>\<open>sourceFiles_\<close> and
  the lost reply of \<^verbatim>\<open>NativeMethodCall\<close> are therefore outside the runs of C36 to C38.
\<close>

end
